theory Spec2Isabelle
  imports
    Main
    "HOL-Library.Word"
    "HOL-Library.Multiset"
    "HOL-Library.Char_ord"
    "HOL-Library.List_Lexorder"
    "HOL-Library.AList"
begin

section \<open>Data model of the listener translator\<close>

text \<open>
  The development embeds \<^verbatim>\<open>internal/kgateway/translator/listener/gateway_listener_translator.go\<close>.
  Go strings are byte strings (\<^typ>\<open>string\<close>), a nil-able pointer is an \<^typ>\<open>'a option\<close>,
  a slice is a list. The Gateway-API enumerations (\<^verbatim>\<open>ProtocolType\<close>, condition types,
  reasons, statuses, TLS modes) are Go string types and stay strings here.
\<close>

subsection \<open>Gateway-API and metav1 constants\<close>

definition HTTPProtocolType :: string where "HTTPProtocolType = ''HTTP''"
definition HTTPSProtocolType :: string where "HTTPSProtocolType = ''HTTPS''"
definition TCPProtocolType :: string where "TCPProtocolType = ''TCP''"
definition TLSProtocolType :: string where "TLSProtocolType = ''TLS''"

definition TLSModeTerminate :: string where "TLSModeTerminate = ''Terminate''"

definition ConditionTrue :: string where "ConditionTrue = ''True''"
definition ConditionFalse :: string where "ConditionFalse = ''False''"

definition ListenerConditionProgrammed :: string where "ListenerConditionProgrammed = ''Programmed''"
definition ListenerConditionResolvedRefs :: string where "ListenerConditionResolvedRefs = ''ResolvedRefs''"
definition ListenerReasonInvalid :: string where "ListenerReasonInvalid = ''Invalid''"
definition ListenerReasonInvalidCertificateRef :: string where
  "ListenerReasonInvalidCertificateRef = ''InvalidCertificateRef''"
definition ListenerReasonRefNotPermitted :: string where
  "ListenerReasonRefNotPermitted = ''RefNotPermitted''"

definition RouteConditionAccepted :: string where "RouteConditionAccepted = ''Accepted''"
definition RouteReasonAccepted :: string where "RouteReasonAccepted = ''Accepted''"
definition RouteReasonUnsupportedValue :: string where
  "RouteReasonUnsupportedValue = ''UnsupportedValue''"

definition TLSCertKey :: string where "TLSCertKey = ''tls.crt''"
definition TLSPrivateKeyKey :: string where "TLSPrivateKeyKey = ''tls.key''"
definition ServiceAccountRootCAKey :: string where "ServiceAccountRootCAKey = ''ca.crt''"

subsection \<open>Constants of the package\<close>

definition TcpTlsListenerNoBackendsMessage :: string where
  "TcpTlsListenerNoBackendsMessage = ''TCP/TLS listener has no valid backends or routes''"

text \<open>\<^verbatim>\<open>fmt.Sprintf(SecretNotFoundMessageTemplate, ns, name)\<close> with the template
  \<^verbatim>\<open>"Secret %s/%s not found."\<close>.\<close>

definition SecretNotFoundMessage :: "string \<Rightarrow> string \<Rightarrow> string" where
  "SecretNotFoundMessage ns name = ''Secret '' @ ns @ ''/'' @ name @ '' not found.''"

subsection \<open>Errors\<close>

text \<open>
  A Go \<^verbatim>\<open>error\<close> is an interface value; the translator only ever observes it through
  \<^verbatim>\<open>errors.Is(err, ErrMissingReferenceGrant)\<close>, \<^verbatim>\<open>errors.Is(err, ErrInvalidTlsSecret)\<close>,
  \<^verbatim>\<open>errors.As(err, &notFoundErr)\<close> (reading the namespace and name of the missing
  object) and \<^verbatim>\<open>err.Error()\<close>. An error value is the record of these four observations.
\<close>

record goError =
  isMissingReferenceGrant :: bool
  isInvalidTlsSecret :: bool
  asNotFoundError :: "(string \<times> string) option"
  errorText :: string

text \<open>\<^verbatim>\<open>errors.New(text)\<close> and \<^verbatim>\<open>fmt.Errorf(text)\<close> without wrapping.\<close>

definition errorsNew :: "string \<Rightarrow> goError" where
  "errorsNew txt = \<lparr>isMissingReferenceGrant = False, isInvalidTlsSecret = False,
     asNotFoundError = None, errorText = txt\<rparr>"

subsection \<open>Inputs\<close>

type_synonym portNumber = "32 word"  \<comment> \<open>\<^verbatim>\<open>gwv1.PortNumber\<close>, an int32; read with \<^const>\<open>sint\<close>\<close>
type_synonym attachedPolicies = "string list"
  \<comment> \<open>\<^verbatim>\<open>ir.AttachedPolicies\<close> is opaque to this package: the attached policy identifiers;
      the Go zero value is the empty list\<close>
type_synonym secretObjectReference = string
type_synonym httpRouteRule = string  \<comment> \<open>a translated route rule, opaque to this package\<close>

record listenerTLSConfig =
  tls_Mode :: "string option"
  tls_CertificateRefs :: "secretObjectReference list"

definition emptyTLSConfig :: listenerTLSConfig where
  "emptyTLSConfig = \<lparr>tls_Mode = None, tls_CertificateRefs = []\<rparr>"

record listener =
  l_Name :: string
  l_Parent :: string
  l_Hostname :: "string option"
  l_Port :: portNumber
  l_Protocol :: string
  l_TLS :: "listenerTLSConfig option"
  l_AttachedPolicies :: attachedPolicies
  l_PolicyAncestorRef :: string

text \<open>The zero value of \<^verbatim>\<open>ir.Listener\<close> (\<^verbatim>\<open>var listenerRef ir.Listener\<close>).\<close>

definition zeroListener :: listener where
  "zeroListener = \<lparr>l_Name = [], l_Parent = [], l_Hostname = None, l_Port = 0,
     l_Protocol = [], l_TLS = None, l_AttachedPolicies = [], l_PolicyAncestorRef = []\<rparr>"

record gateway =
  gw_Name :: string
  gw_Namespace :: string
  gw_Listeners :: "listener list"

definition zeroGateway :: gateway where
  "zeroGateway = \<lparr>gw_Name = [], gw_Namespace = [], gw_Listeners = []\<rparr>"

record sourceObject =
  so_Namespace :: string
  so_Name :: string
  so_CreationTimestamp :: int
  so_Rules :: "string list"  \<comment> \<open>\<^verbatim>\<open>Spec.Rules\<close>; only their number is read\<close>

record backendRefIR =
  be_ClusterName :: string
  be_Weight :: "32 word"
  be_BackendObject :: "string option"
  be_Err :: "goError option"

text \<open>\<^verbatim>\<open>ir.TcpRouteIR\<close> and \<^verbatim>\<open>ir.TlsRouteIR\<close> have the same fields as far as the translator
  reads them.\<close>

record l4RouteIR =
  r_SourceObject :: sourceObject
  r_Namespace :: string
  r_Name :: string
  r_ParentRefs :: "string list"
  r_Backends :: "backendRefIR list"

datatype routeObject =
    HttpRouteIR sourceObject
  | TcpRouteIR l4RouteIR
  | TlsRouteIR l4RouteIR

fun GetSourceObject :: "routeObject \<Rightarrow> sourceObject" where
  "GetSourceObject (HttpRouteIR so) = so"
| "GetSourceObject (TcpRouteIR r) = r_SourceObject r"
| "GetSourceObject (TlsRouteIR r) = r_SourceObject r"

record routeInfo =
  ri_Object :: routeObject
  ri_ParentRef :: string
  ri_Hostnames :: "string list"  \<comment> \<open>the value of \<^verbatim>\<open>Hostnames()\<close>\<close>

record listenerTranslatorConfig =
  ListenerBindIpv6 :: bool

subsection \<open>Reporting\<close>

text \<open>
  The reporter is a shared mutable status map. A listener reporter is obtained as
  \<^verbatim>\<open>listener.GetParentReporter(reporter).ListenerName(listener.Name)\<close>, a parent-ref reporter
  as \<^verbatim>\<open>reporter.Route(obj).ParentRef(&ref)\<close>; both are handles, identified by the keys
  they were obtained with. The effect of a translation on the reporter is the sequence of
  calls made on these handles.
\<close>

record listenerReporter =
  lr_Parent :: string
  lr_ListenerName :: string

record parentRefReporter =
  pr_Route :: sourceObject
  pr_ParentRef :: string

record listenerCondition =
  lc_Type :: string
  lc_Status :: string
  lc_Reason :: string
  lc_Message :: string

record routeCondition =
  rc_Type :: string
  rc_Status :: string
  rc_Reason :: string

datatype report =
    ListenerSetCondition listenerReporter listenerCondition
  | RouteSetCondition parentRefReporter routeCondition
  | ProcessBackendError goError parentRefReporter

subsection \<open>Outputs\<close>

record tlsBundle =
  tb_PrivateKey :: string
  tb_CertChain :: string
  tb_CA :: string

record filterChainMatch =
  SniDomains :: "string list"

record filterChainCommon =
  FilterChainName :: string
  Matcher :: filterChainMatch
  TLS :: "tlsBundle option"

record virtualHost =
  vh_Name :: string
  vh_Hostname :: string
  vh_Rules :: "httpRouteRule list"
  vh_AttachedPolicies :: attachedPolicies
  vh_ParentRef :: listener

record httpFilterChainIR =
  hfc_FilterChainCommon :: filterChainCommon
  hfc_AttachedPolicies :: attachedPolicies
  hfc_Vhosts :: "virtualHost list"

record tcpIR =
  tcp_FilterChainCommon :: filterChainCommon
  tcp_BackendRefs :: "backendRefIR list"

record listenerIR =
  lir_Name :: string
  lir_BindAddress :: string
  lir_BindPort :: "32 word"  \<comment> \<open>uint32; read with \<^const>\<open>unat\<close>\<close>
  lir_AttachedPolicies :: attachedPolicies
  lir_HttpFilterChain :: "httpFilterChainIR list"
  lir_TcpFilterChain :: "tcpIR list"
  lir_PolicyAncestorRef :: string

definition zeroMatcher :: filterChainMatch where
  "zeroMatcher = \<lparr>SniDomains = []\<rparr>"

subsection \<open>Merged listeners\<close>

record httpFilterChainParent =
  hp_gatewayListenerName :: string
  hp_gatewayListener :: listener
  hp_routesWithHosts :: "routeInfo list"
  hp_attachedPolicies :: attachedPolicies

record httpFilterChain =
  parents :: "httpFilterChainParent list"

record httpsFilterChain =
  hs_gatewayListenerName :: string
  hs_sniDomain :: "string option"
  hs_tls :: "listenerTLSConfig option"
  hs_routesWithHosts :: "routeInfo list"
  hs_attachedPolicies :: attachedPolicies

record tcpFilterChainParent =
  tp_gatewayListenerName :: string
  tp_routesWithHosts :: "routeInfo list"

record tcpFilterChain =
  tc_parents :: tcpFilterChainParent
  tc_tls :: "listenerTLSConfig option"
  tc_sniDomain :: "string option"
  tc_listenerReporter :: listenerReporter

record mergedListener =
  ml_name :: string
  ml_gatewayNamespace :: string
  ml_port :: portNumber
  ml_httpFilterChain :: "httpFilterChain option"
  ml_httpsFilterChains :: "httpsFilterChain list"
  ml_TcpFilterChains :: "tcpFilterChain list"
  ml_listenerReporter :: listenerReporter
  ml_listener :: listener
  ml_gateway :: gateway
  ml_settings :: listenerTranslatorConfig

record mergedListeners =
  mls_GatewayNamespace :: string
  mls_parentGw :: gateway
  mls_Listeners :: "mergedListener list"
  mls_settings :: listenerTranslatorConfig


section \<open>Collaborators\<close>

text \<open>
  The translator calls into packages that lie outside the translated file. Each of them is
  a parameter of the model, collected in one record:
  \<^item> \<^verbatim>\<open>utils.SanitizeForEnvoy\<close> (applied to the raw virtual host name);
  \<^item> \<^verbatim>\<open>route.TranslateGatewayHTTPRouteRules\<close> (the rules of one bound route);
  \<^item> \<^verbatim>\<open>sort.Stable\<close> on \<^verbatim>\<open>routeutils.SortableRoutes\<close>, whose order is defined there;
  \<^item> \<^verbatim>\<open>queries.GetSecretForRef\<close> and \<^verbatim>\<open>sslutils.ValidateTlsSecretData\<close>;
  \<^item> \<^verbatim>\<open>query.GenerateRouteKey\<close>;
  \<^item> \<^verbatim>\<open>validateGateway\<close>, which returns the listeners that passed validation;
  \<^item> the Go runtime's choice of the order in which \<^verbatim>\<open>range\<close> visits the entries of a
    map: \<open>mapRange m\<close> is the sequence of entries visited for the map with entries \<open>m\<close>.
\<close>

record sortableRoute =
  sr_RouteObject :: sourceObject
  sr_Route :: httpRouteRule

type_synonym routesByHost = "(string \<times> sortableRoute list) list"

record secret =
  sec_Name :: string
  sec_Namespace :: string
  sec_Data :: "string \<rightharpoonup> string"

record listenerResult =
  res_Routes :: "routeInfo list"
  res_Error :: "goError option"

record env =
  SanitizeForEnvoy :: "string \<Rightarrow> string"
  TranslateGatewayHTTPRouteRules :: "routeInfo \<Rightarrow> httpRouteRule list"
  sortStable :: "sortableRoute list \<Rightarrow> sortableRoute list"
  GetSecretForRef :: "string \<Rightarrow> secretObjectReference \<Rightarrow> goError + secret"
  ValidateTlsSecretData :: "string \<Rightarrow> string \<Rightarrow> (string \<rightharpoonup> string) \<Rightarrow> goError option"
  GenerateRouteKey :: "string \<Rightarrow> string \<Rightarrow> string"
  validateGateway :: "gateway \<Rightarrow> listener list"
  mapRange :: "routesByHost \<Rightarrow> routesByHost"

text \<open>A \<^verbatim>\<open>range\<close> over a map visits every entry exactly once, in an order of the
  runtime's choosing.\<close>

definition rangeOk :: "env \<Rightarrow> bool" where
  "rangeOk e \<longleftrightarrow> (\<forall>m. mset (mapRange e m) = mset m)"

section \<open>Merging Gateway-API listeners by port\<close>

subsection \<open>Listener names\<close>

definition digitChar :: "nat \<Rightarrow> char" where
  "digitChar d = ''0123456789'' ! d"

fun showNat :: "nat \<Rightarrow> string" where
  "showNat n = (if n < 10 then [digitChar n] else showNat (n div 10) @ [digitChar (n mod 10)])"

declare showNat.simps [simp del]

text \<open>The verb \<^verbatim>\<open>%d\<close> of \<^verbatim>\<open>fmt.Sprintf\<close> on a signed integer.\<close>

definition showInt :: "int \<Rightarrow> string" where
  "showInt i = (if i < 0 then CHR ''-'' # showNat (nat (- i)) else showNat (nat i))"

definition GenerateListenerNameFromPort :: "portNumber \<Rightarrow> string" where
  "GenerateListenerNameFromPort port = ''listener~'' @ showInt (sint port)"

definition GenerateListenerName :: "listener \<Rightarrow> string" where
  "GenerateListenerName listener = GenerateListenerNameFromPort (l_Port listener)"

definition getListenerPortNumber :: "listener \<Rightarrow> portNumber" where
  "getListenerPortNumber listener = l_Port listener"

subsection \<open>Appending one listener\<close>

text \<open>
  Each of the four append functions scans \<^verbatim>\<open>ml.Listeners\<close> for the first merged listener
  with the listener's port, updates it in place through its pointer and returns; when the
  scan finds none, a new merged listener is appended. \<open>updateFirst\<close> is that scan: the
  list with the first merged listener on the port replaced, or \<open>None\<close> when the loop
  runs to its end.
\<close>

fun updateFirst ::
  "portNumber \<Rightarrow> (mergedListener \<Rightarrow> mergedListener) \<Rightarrow> mergedListener list
    \<Rightarrow> mergedListener list option" where
  "updateFirst finalPort f [] = None"
| "updateFirst finalPort f (lis # rest) =
     (if ml_port lis \<noteq> finalPort
      then map_option ((#) lis) (updateFirst finalPort f rest)
      else Some (f lis # rest))"

definition httpParentOf :: "env \<Rightarrow> listener \<Rightarrow> routeInfo list \<Rightarrow> httpFilterChainParent" where
  "httpParentOf e listener routesWithHosts =
     \<lparr>hp_gatewayListenerName = GenerateRouteKey e (l_Parent listener) (l_Name listener),
      hp_gatewayListener = listener,
      hp_routesWithHosts = routesWithHosts,
      hp_attachedPolicies = l_AttachedPolicies listener\<rparr>"

definition appendHttpListener ::
  "env \<Rightarrow> mergedListeners \<Rightarrow> listener \<Rightarrow> routeInfo list \<Rightarrow> listenerReporter \<Rightarrow> mergedListeners" where
  "appendHttpListener e ml listener routesWithHosts reporter =
     (let parent = httpParentOf e listener routesWithHosts;
          fc = \<lparr>parents = [parent]\<rparr>;
          finalPort = getListenerPortNumber listener
      in case updateFirst finalPort
                (\<lambda>lis. case ml_httpFilterChain lis of
                          Some c \<Rightarrow> lis\<lparr>ml_httpFilterChain := Some (c\<lparr>parents := parents c @ [parent]\<rparr>)\<rparr>
                        | None \<Rightarrow> lis\<lparr>ml_httpFilterChain := Some fc\<rparr>)
                (mls_Listeners ml) of
           Some ls \<Rightarrow> ml\<lparr>mls_Listeners := ls\<rparr>
         | None \<Rightarrow> ml\<lparr>mls_Listeners := mls_Listeners ml @
             [\<lparr>ml_name = GenerateListenerName listener,
               ml_gatewayNamespace = mls_GatewayNamespace ml,
               ml_port = finalPort,
               ml_httpFilterChain = Some fc,
               ml_httpsFilterChains = [],
               ml_TcpFilterChains = [],
               ml_listenerReporter = reporter,
               ml_listener = listener,
               ml_gateway = mls_parentGw ml,
               ml_settings = mls_settings ml\<rparr>]\<rparr>)"

definition httpsChainOf :: "env \<Rightarrow> listener \<Rightarrow> routeInfo list \<Rightarrow> httpsFilterChain" where
  "httpsChainOf e listener routesWithHosts =
     (let tls = (case l_TLS listener of None \<Rightarrow> Some emptyTLSConfig | Some t \<Rightarrow> Some t)
      in \<lparr>hs_gatewayListenerName = GenerateRouteKey e (l_Parent listener) (l_Name listener),
          hs_sniDomain = l_Hostname listener,
          hs_tls = tls,
          hs_routesWithHosts = routesWithHosts,
          hs_attachedPolicies = l_AttachedPolicies listener\<rparr>)"

definition appendHttpsListener ::
  "env \<Rightarrow> mergedListeners \<Rightarrow> listener \<Rightarrow> routeInfo list \<Rightarrow> listenerReporter \<Rightarrow> mergedListeners" where
  "appendHttpsListener e ml listener routesWithHosts reporter =
     (let mfc = httpsChainOf e listener routesWithHosts;
          finalPort = getListenerPortNumber listener
      in case updateFirst finalPort
                (\<lambda>lis. lis\<lparr>ml_httpsFilterChains := ml_httpsFilterChains lis @ [mfc]\<rparr>)
                (mls_Listeners ml) of
           Some ls \<Rightarrow> ml\<lparr>mls_Listeners := ls\<rparr>
         | None \<Rightarrow> ml\<lparr>mls_Listeners := mls_Listeners ml @
             [\<lparr>ml_name = GenerateListenerName listener,
               ml_gatewayNamespace = mls_GatewayNamespace ml,
               ml_port = finalPort,
               ml_httpFilterChain = None,
               ml_httpsFilterChains = [mfc],
               ml_TcpFilterChains = [],
               ml_listenerReporter = reporter,
               ml_listener = listener,
               ml_gateway = mls_parentGw ml,
               ml_settings = mls_settings ml\<rparr>]\<rparr>)"

definition tcpChainOf :: "env \<Rightarrow> listener \<Rightarrow> routeInfo list \<Rightarrow> listenerReporter \<Rightarrow> tcpFilterChain" where
  "tcpChainOf e listener routeInfos reporter =
     \<lparr>tc_parents = \<lparr>tp_gatewayListenerName = GenerateRouteKey e (l_Parent listener) (l_Name listener),
                    tp_routesWithHosts = routeInfos\<rparr>,
      tc_tls = None,
      tc_sniDomain = None,
      tc_listenerReporter = reporter\<rparr>"

definition AppendTcpListener ::
  "env \<Rightarrow> mergedListeners \<Rightarrow> listener \<Rightarrow> routeInfo list \<Rightarrow> listenerReporter \<Rightarrow> mergedListeners" where
  "AppendTcpListener e ml listener routeInfos reporter =
     (let fc = tcpChainOf e listener routeInfos reporter;
          finalPort = getListenerPortNumber listener
      in case updateFirst finalPort
                (\<lambda>lis. lis\<lparr>ml_TcpFilterChains := ml_TcpFilterChains lis @ [fc]\<rparr>)
                (mls_Listeners ml) of
           Some ls \<Rightarrow> ml\<lparr>mls_Listeners := ls\<rparr>
         | None \<Rightarrow> ml\<lparr>mls_Listeners := mls_Listeners ml @
             [\<lparr>ml_name = GenerateListenerName listener,
               ml_gatewayNamespace = mls_GatewayNamespace ml,
               ml_port = finalPort,
               ml_httpFilterChain = None,
               ml_httpsFilterChains = [],
               ml_TcpFilterChains = [fc],
               ml_listenerReporter = reporter,
               ml_listener = listener,
               ml_gateway = mls_parentGw ml,
               ml_settings = mls_settings ml\<rparr>]\<rparr>)"

definition tlsChainOf :: "env \<Rightarrow> listener \<Rightarrow> routeInfo list \<Rightarrow> listenerReporter \<Rightarrow> tcpFilterChain" where
  "tlsChainOf e listener routeInfos reporter =
     (let tls = (case l_TLS listener of None \<Rightarrow> Some emptyTLSConfig | Some t \<Rightarrow> Some t)
      in \<lparr>tc_parents = \<lparr>tp_gatewayListenerName = GenerateRouteKey e (l_Parent listener) (l_Name listener),
                        tp_routesWithHosts = routeInfos\<rparr>,
          tc_tls = tls,
          tc_sniDomain = l_Hostname listener,
          tc_listenerReporter = reporter\<rparr>)"

text \<open>\<^verbatim>\<open>AppendTlsListener\<close> leaves the \<^verbatim>\<open>gateway\<close> field of a new merged listener at its
  zero value.\<close>

definition AppendTlsListener ::
  "env \<Rightarrow> mergedListeners \<Rightarrow> listener \<Rightarrow> routeInfo list \<Rightarrow> listenerReporter \<Rightarrow> mergedListeners" where
  "AppendTlsListener e ml listener routeInfos reporter =
     (let fc = tlsChainOf e listener routeInfos reporter;
          finalPort = getListenerPortNumber listener
      in case updateFirst finalPort
                (\<lambda>lis. lis\<lparr>ml_TcpFilterChains := ml_TcpFilterChains lis @ [fc]\<rparr>)
                (mls_Listeners ml) of
           Some ls \<Rightarrow> ml\<lparr>mls_Listeners := ls\<rparr>
         | None \<Rightarrow> ml\<lparr>mls_Listeners := mls_Listeners ml @
             [\<lparr>ml_name = GenerateListenerName listener,
               ml_gatewayNamespace = mls_GatewayNamespace ml,
               ml_port = finalPort,
               ml_httpFilterChain = None,
               ml_httpsFilterChains = [],
               ml_TcpFilterChains = [fc],
               ml_listenerReporter = reporter,
               ml_listener = listener,
               ml_gateway = zeroGateway,
               ml_settings = mls_settings ml\<rparr>]\<rparr>)"

text \<open>\<^verbatim>\<open>AppendListener\<close> returns the updated aggregate and the error of the
  \<^verbatim>\<open>default\<close> branch, if any.\<close>

definition AppendListener ::
  "env \<Rightarrow> mergedListeners \<Rightarrow> listener \<Rightarrow> routeInfo list \<Rightarrow> listenerReporter
    \<Rightarrow> mergedListeners \<times> goError option" where
  "AppendListener e ml listener routes reporter =
     (if l_Protocol listener = HTTPProtocolType
        then (appendHttpListener e ml listener routes reporter, None)
      else if l_Protocol listener = HTTPSProtocolType
        then (appendHttpsListener e ml listener routes reporter, None)
      else if l_Protocol listener = TCPProtocolType
        then (AppendTcpListener e ml listener routes reporter, None)
      else if l_Protocol listener = TLSProtocolType
        then (AppendTlsListener e ml listener routes reporter, None)
      else (ml, Some (errorsNew (''unsupported protocol: '' @ l_Protocol listener))))"

subsection \<open>Merging the listeners of a gateway\<close>

definition GetParentReporter_ListenerName :: "listener \<Rightarrow> listenerReporter" where
  "GetParentReporter_ListenerName listener =
     \<lparr>lr_Parent = l_Parent listener, lr_ListenerName = l_Name listener\<rparr>"

text \<open>\<open>routesForGw parent name\<close> is \<^verbatim>\<open>routesForGw.GetListenerResult(parent, name)\<close>;
  the routes handed to \<^verbatim>\<open>AppendListener\<close> are those of the result, or none when the result
  is nil.\<close>

definition routesFor :: "(string \<Rightarrow> string \<Rightarrow> listenerResult option) \<Rightarrow> listener \<Rightarrow> routeInfo list" where
  "routesFor routesForGw listener =
     (case routesForGw (l_Parent listener) (l_Name listener) of
        None \<Rightarrow> []
      | Some result \<Rightarrow> res_Routes result)"

text \<open>The body of the loop of \<^verbatim>\<open>mergeGWListeners\<close>; the error of \<^verbatim>\<open>AppendListener\<close> is
  dropped there.\<close>

definition mergeStep ::
  "env \<Rightarrow> (string \<Rightarrow> string \<Rightarrow> listenerResult option) \<Rightarrow> mergedListeners \<Rightarrow> listener
    \<Rightarrow> mergedListeners" where
  "mergeStep e routesForGw ml listener =
     (let listenerReporter = GetParentReporter_ListenerName listener;
          routes = routesFor routesForGw listener
      in fst (AppendListener e ml listener routes listenerReporter))"

definition mergeGWListeners ::
  "env \<Rightarrow> string \<Rightarrow> listener list \<Rightarrow> gateway \<Rightarrow> (string \<Rightarrow> string \<Rightarrow> listenerResult option)
    \<Rightarrow> listenerTranslatorConfig \<Rightarrow> mergedListeners" where
  "mergeGWListeners e gatewayNamespace listeners parentGw routesForGw settings =
     foldl (mergeStep e routesForGw)
       \<lparr>mls_GatewayNamespace = gatewayNamespace, mls_parentGw = parentGw,
        mls_Listeners = [], mls_settings = settings\<rparr>
       listeners"


section \<open>TCP and TLS passthrough filter chains\<close>

text \<open>\<^verbatim>\<open>time.Time.Compare\<close> on creation timestamps.\<close>

definition timeCompare :: "int \<Rightarrow> int \<Rightarrow> int" where
  "timeCompare a b = (if a < b then - 1 else if b < a then 1 else 0)"

text \<open>\<^verbatim>\<open>r.Object.GetSourceObject().GetCreationTimestamp()\<close>\<close>

definition GetCreationTimestamp :: "routeInfo \<Rightarrow> int" where
  "GetCreationTimestamp r = so_CreationTimestamp (GetSourceObject (ri_Object r))"

definition compareCreation :: "routeInfo \<Rightarrow> routeInfo \<Rightarrow> int" where
  "compareCreation a b = timeCompare (GetCreationTimestamp a) (GetCreationTimestamp b)"

text \<open>The loop of \<^verbatim>\<open>slices.MinFunc\<close>: \<open>m\<close> starts as the first element and is replaced
  by a later element only when that one compares strictly smaller.\<close>

fun MinFunc :: "('a \<Rightarrow> 'a \<Rightarrow> int) \<Rightarrow> 'a \<Rightarrow> 'a list \<Rightarrow> 'a" where
  "MinFunc cmp m [] = m"
| "MinFunc cmp m (x # xs) = MinFunc cmp (if cmp x m < 0 then x else m) xs"

definition acceptedCondition :: "l4RouteIR \<Rightarrow> routeCondition" where
  "acceptedCondition tRoute =
     (if length (so_Rules (r_SourceObject tRoute)) = 1
      then \<lparr>rc_Type = RouteConditionAccepted, rc_Status = ConditionTrue,
            rc_Reason = RouteReasonAccepted\<rparr>
      else \<lparr>rc_Type = RouteConditionAccepted, rc_Status = ConditionFalse,
            rc_Reason = RouteReasonUnsupportedValue\<rparr>)"

definition parentRefReportersOf :: "l4RouteIR \<Rightarrow> parentRefReporter list" where
  "parentRefReportersOf tRoute =
     map (\<lambda>parentRef. \<lparr>pr_Route = r_SourceObject tRoute, pr_ParentRef = parentRef\<rparr>)
       (r_ParentRefs tRoute)"

text \<open>The error reported for a backend: \<^verbatim>\<open>backend.Err\<close>, or \<^verbatim>\<open>errors.New("not found")\<close>
  when it is nil.\<close>

definition backendError :: "backendRefIR \<Rightarrow> goError" where
  "backendError backend = (case be_Err backend of None \<Rightarrow> errorsNew ''not found'' | Some e \<Rightarrow> e)"

text \<open>The loop over \<^verbatim>\<open>tRoute.Backends\<close>: the output backends and the calls of
  \<^verbatim>\<open>query.ProcessBackendError\<close>, in order.\<close>

fun processBackends ::
  "parentRefReporter list \<Rightarrow> backendRefIR list \<Rightarrow> backendRefIR list \<times> report list" where
  "processBackends parentRefReporters [] = ([], [])"
| "processBackends parentRefReporters (backend # rest) =
     (let reps =
            (if be_Err backend \<noteq> None \<or> be_BackendObject backend = None
             then map (ProcessBackendError (backendError backend)) parentRefReporters
             else []);
          (backends, reps') = processBackends parentRefReporters rest
      in (backend # backends, reps @ reps'))"

text \<open>\<^verbatim>\<open>fmt.Sprintf("%s-%s.%s-rule-%d", parentName, tRoute.Namespace, tRoute.Name, 0)\<close>\<close>

definition tcpHostNameOf :: "string \<Rightarrow> l4RouteIR \<Rightarrow> string" where
  "tcpHostNameOf parentName tRoute =
     parentName @ ''-'' @ r_Namespace tRoute @ ''.'' @ r_Name tRoute @ ''-rule-'' @ showInt 0"

text \<open>The type switch on the selected route \<open>r\<close>, with both of its branches.\<close>

definition translateSelectedRoute ::
  "tcpFilterChain \<Rightarrow> string \<Rightarrow> routeInfo \<Rightarrow> tcpIR option \<times> report list" where
  "translateSelectedRoute tc parentName r =
     (case ri_Object r of
        TcpRouteIR tRoute \<Rightarrow>
          (let condition = acceptedCondition tRoute
           in if rc_Status condition \<noteq> ConditionTrue then (None, [])
              else
                (let parentRefReporters = parentRefReportersOf tRoute;
                     reps = map (\<lambda>p. RouteSetCondition p condition) parentRefReporters;
                     tcpHostName = tcpHostNameOf parentName tRoute;
                     (backends, reps') = processBackends parentRefReporters (r_Backends tRoute)
                 in if length backends = 0 then (None, reps @ reps')
                    else (Some \<lparr>tcp_FilterChainCommon =
                                  \<lparr>FilterChainName = tcpHostName, Matcher = zeroMatcher,
                                   TLS = None\<rparr>,
                                tcp_BackendRefs = backends\<rparr>, reps @ reps')))
      | TlsRouteIR tRoute \<Rightarrow>
          (let condition = acceptedCondition tRoute
           in if rc_Status condition \<noteq> ConditionTrue then (None, [])
              else
                (let parentRefReporters = parentRefReportersOf tRoute;
                     reps = map (\<lambda>p. RouteSetCondition p condition) parentRefReporters;
                     tcpHostName = tcpHostNameOf parentName tRoute;
                     (backends, reps') = processBackends parentRefReporters (r_Backends tRoute)
                 in if length backends = 0 then (None, reps @ reps')
                    else
                      (let matcher = (case tc_sniDomain tc of
                                        None \<Rightarrow> zeroMatcher
                                      | Some d \<Rightarrow> \<lparr>SniDomains = [d]\<rparr>)
                       in (Some \<lparr>tcp_FilterChainCommon =
                                   \<lparr>FilterChainName = tcpHostName, Matcher = matcher,
                                    TLS = None\<rparr>,
                                 tcp_BackendRefs = backends\<rparr>, reps @ reps'))))
      | HttpRouteIR _ \<Rightarrow> (None, []))"

text \<open>\<^verbatim>\<open>translateTcpFilterChain\<close>: nothing for an empty route list, otherwise the route
  chosen by \<^verbatim>\<open>slices.MinFunc\<close> goes through the type switch.\<close>

definition translateTcpFilterChain ::
  "tcpFilterChain \<Rightarrow> string \<Rightarrow> tcpIR option \<times> report list" where
  "translateTcpFilterChain tc parentName =
     (let parent = tc_parents tc
      in case tp_routesWithHosts parent of
           [] \<Rightarrow> (None, [])
         | first # others \<Rightarrow>
             translateSelectedRoute tc parentName (MinFunc compareCreation first others))"

section \<open>HTTP filter chains\<close>

definition HasPrefix :: "string \<Rightarrow> string \<Rightarrow> bool" where
  "HasPrefix s pre \<longleftrightarrow> length pre \<le> length s \<and> take (length pre) s = pre"

definition HasSuffix :: "string \<Rightarrow> string \<Rightarrow> bool" where
  "HasSuffix s suf \<longleftrightarrow> length suf \<le> length s \<and> drop (length s - length suf) s = suf"

definition isHostContained :: "string \<Rightarrow> string option \<Rightarrow> bool" where
  "isHostContained host maybeLhost =
     (case maybeLhost of
        None \<Rightarrow> True
      | Some listenerHostname \<Rightarrow>
          (if HasPrefix listenerHostname ''*.'' \<and> HasSuffix host (drop 1 listenerHostname)
           then True
           else host = listenerHostname))"

definition makeVhostName :: "env \<Rightarrow> string \<Rightarrow> string \<Rightarrow> string" where
  "makeVhostName e parentName domain = SanitizeForEnvoy e (parentName @ ''~'' @ domain)"

definition ToSortable :: "sourceObject \<Rightarrow> httpRouteRule list \<Rightarrow> sortableRoute list" where
  "ToSortable obj routes = map (\<lambda>r. \<lparr>sr_RouteObject = obj, sr_Route = r\<rparr>) routes"

definition ToRoutes :: "sortableRoute list \<Rightarrow> httpRouteRule list" where
  "ToRoutes rs = map sr_Route rs"

text \<open>
  \<^verbatim>\<open>routesByHost\<close> is a Go map from host to a slice. Its entries are kept as an association
  list with distinct keys; \<open>bucket m host\<close> is \<^verbatim>\<open>m[host]\<close> (the nil slice for a missing key)
  and \<^const>\<open>AList.update\<close> is the assignment \<^verbatim>\<open>m[host] = v\<close>.
\<close>

definition bucket :: "routesByHost \<Rightarrow> string \<Rightarrow> sortableRoute list" where
  "bucket m host = (case map_of m host of None \<Rightarrow> [] | Some rs \<Rightarrow> rs)"

text \<open>The status conditions that \<^verbatim>\<open>TranslateGatewayHTTPRouteRules\<close> records on the route's
  parent-ref reporter are produced inside that collaborator and are not part of the model.\<close>

text \<open>The hostnames a route is bucketed under: \<^verbatim>\<open>Hostnames()\<close>, or the wildcard when
  there are none.\<close>

definition hostnamesOf :: "routeInfo \<Rightarrow> string list" where
  "hostnamesOf routeWithHosts =
     (if length (ri_Hostnames routeWithHosts) = 0 then [''*''] else ri_Hostnames routeWithHosts)"

fun buildRoutesPerHost :: "env \<Rightarrow> routesByHost \<Rightarrow> routeInfo list \<Rightarrow> routesByHost" where
  "buildRoutesPerHost e routesByHost [] = routesByHost"
| "buildRoutesPerHost e routesByHost (routeWithHosts # rest) =
     (let routes = TranslateGatewayHTTPRouteRules e routeWithHosts
      in if length routes = 0 then buildRoutesPerHost e routesByHost rest
         else
           (let hostnames = hostnamesOf routeWithHosts;
                routesByHost' =
                  foldl (\<lambda>m host. AList.update host
                           (bucket m host @ ToSortable (GetSourceObject (ri_Object routeWithHosts)) routes) m)
                    routesByHost hostnames
            in buildRoutesPerHost e routesByHost' rest))"

text \<open>The inner loop of \<^verbatim>\<open>translateHttpFilterChain\<close> over the parents: the state is
  \<^verbatim>\<open>(attachedPolicies, listenerRef, maxHostnameLen)\<close>.\<close>

definition hostnameLen :: "httpFilterChainParent \<Rightarrow> int" where
  "hostnameLen p = (case l_Hostname (hp_gatewayListener p) of None \<Rightarrow> 0 | Some h \<Rightarrow> int (length h))"

fun findParent ::
  "string \<Rightarrow> attachedPolicies \<times> listener \<times> int \<Rightarrow> httpFilterChainParent list
    \<Rightarrow> attachedPolicies \<times> listener \<times> int" where
  "findParent host st [] = st"
| "findParent host (attachedPolicies, listenerRef, maxHostnameLen) (p # ps) =
     (if \<not> isHostContained host (l_Hostname (hp_gatewayListener p))
      then findParent host (attachedPolicies, listenerRef, maxHostnameLen) ps
      else if hostnameLen p > maxHostnameLen
      then findParent host (hp_attachedPolicies p, hp_gatewayListener p, hostnameLen p) ps
      else findParent host (attachedPolicies, listenerRef, maxHostnameLen) ps)"

text \<open>The virtual host built for one map entry: the policies and the parent reference
  are those found by the inner loop, the rules are the entry's routes after
  \<^verbatim>\<open>sort.Stable\<close>.\<close>

definition httpVhostOf ::
  "env \<Rightarrow> httpFilterChainParent list \<Rightarrow> string \<Rightarrow> string \<times> sortableRoute list \<Rightarrow> virtualHost" where
  "httpVhostOf e ps parentName entry =
     (let (host, vhostRoutes) = entry;
          (attachedPolicies, listenerRef, maxHostnameLen) = findParent host ([], zeroListener, - 1) ps;
          vhostRoutes' = sortStable e vhostRoutes
      in \<lparr>vh_Name = makeVhostName e parentName host, vh_Hostname = host,
          vh_Rules = ToRoutes vhostRoutes',
          vh_AttachedPolicies = attachedPolicies,
          vh_ParentRef = listenerRef\<rparr>)"

text \<open>The body of the loop over the map entries: the state is
  \<^verbatim>\<open>(virtualHostNames, virtualHosts)\<close>; an entry whose virtual host name was already
  produced is skipped.\<close>

definition httpVhostStep ::
  "env \<Rightarrow> httpFilterChainParent list \<Rightarrow> string \<Rightarrow> string set \<times> virtualHost list
    \<Rightarrow> string \<times> sortableRoute list \<Rightarrow> string set \<times> virtualHost list" where
  "httpVhostStep e ps parentName st entry =
     (let (virtualHostNames, virtualHosts) = st;
          vhostName = makeVhostName e parentName (fst entry)
      in if vhostName \<in> virtualHostNames then (virtualHostNames, virtualHosts)
         else (insert vhostName virtualHostNames,
               virtualHosts @ [httpVhostOf e ps parentName entry]))"

text \<open>
  \<^verbatim>\<open>sort.Slice(virtualHosts, ...)\<close> orders by \<^verbatim>\<open>Name\<close> with Go's byte-wise string order.
  It is not a stable sort, but at both call sites the names are pairwise distinct (the
  \<^verbatim>\<open>virtualHostNames\<close> guard), so the sorted arrangement is unique (lemma
  \<open>sortSlice_unique\<close> below).
\<close>

definition sortSlice :: "virtualHost list \<Rightarrow> virtualHost list" where
  "sortSlice vhs = sort_key vh_Name vhs"

text \<open>The first loop of \<^verbatim>\<open>translateHttpFilterChain\<close>: the routes of every parent go into
  one map.\<close>

definition chainRoutesByHost :: "env \<Rightarrow> httpFilterChain \<Rightarrow> routesByHost" where
  "chainRoutesByHost e chain =
     foldl (\<lambda>m parent. buildRoutesPerHost e m (hp_routesWithHosts parent)) [] (parents chain)"

definition translateHttpFilterChain :: "env \<Rightarrow> httpFilterChain \<Rightarrow> string \<Rightarrow> httpFilterChainIR" where
  "translateHttpFilterChain e chain parentName =
     (let routesByHost = chainRoutesByHost e chain;
          (virtualHostNames, virtualHosts) =
            foldl (httpVhostStep e (parents chain) parentName) ({}, []) (mapRange e routesByHost)
      in \<lparr>hfc_FilterChainCommon =
            \<lparr>FilterChainName = parentName, Matcher = zeroMatcher, TLS = None\<rparr>,
          hfc_AttachedPolicies = [],
          hfc_Vhosts = sortSlice virtualHosts\<rparr>)"

section \<open>HTTPS filter chains\<close>

definition secretData :: "secret \<Rightarrow> string \<Rightarrow> string" where
  "secretData s k = (case sec_Data s k of None \<Rightarrow> [] | Some v \<Rightarrow> v)"

definition translateSslConfig ::
  "env \<Rightarrow> string \<Rightarrow> listenerTLSConfig option \<Rightarrow> goError + tlsBundle option" where
  "translateSslConfig e parentNamespace tls =
     (case tls of
        None \<Rightarrow> Inr None
      | Some t \<Rightarrow>
          if tls_Mode t = None \<or> tls_Mode t \<noteq> Some TLSModeTerminate then Inr None
          else (case tls_CertificateRefs t of
                  [certRef] \<Rightarrow>
                    (case GetSecretForRef e parentNamespace certRef of
                       Inl err \<Rightarrow> Inl err
                     | Inr secret \<Rightarrow>
                         (case ValidateTlsSecretData e (sec_Name secret) (sec_Namespace secret)
                                 (sec_Data secret) of
                            Some err \<Rightarrow> Inl err
                          | None \<Rightarrow>
                              Inr (Some \<lparr>tb_PrivateKey = secretData secret TLSPrivateKeyKey,
                                         tb_CertChain = secretData secret TLSCertKey,
                                         tb_CA = secretData secret ServiceAccountRootCAKey\<rparr>)))
                | _ \<Rightarrow> Inl (errorsNew ''only one certificate ref is supported for now'')))"

definition httpsVhostOf :: "env \<Rightarrow> string \<Rightarrow> string \<times> sortableRoute list \<Rightarrow> virtualHost" where
  "httpsVhostOf e parentName entry =
     (let (host, vhostRoutes) = entry;
          vhostRoutes' = sortStable e vhostRoutes
      in \<lparr>vh_Name = makeVhostName e parentName host, vh_Hostname = host,
          vh_Rules = ToRoutes vhostRoutes',
          vh_AttachedPolicies = [],
          vh_ParentRef = zeroListener\<rparr>)"

definition httpsVhostStep ::
  "env \<Rightarrow> string \<Rightarrow> string set \<times> virtualHost list \<Rightarrow> string \<times> sortableRoute list
    \<Rightarrow> string set \<times> virtualHost list" where
  "httpsVhostStep e parentName st entry =
     (let (virtualHostNames, virtualHosts) = st;
          vhostName = makeVhostName e parentName (fst entry)
      in if vhostName \<notin> virtualHostNames
         then (insert vhostName virtualHostNames,
               virtualHosts @ [httpsVhostOf e parentName entry])
         else (virtualHostNames, virtualHosts))"

text \<open>The reason and message of the conditions reported for a TLS resolution error.\<close>

definition tlsErrorReason :: "goError \<Rightarrow> string" where
  "tlsErrorReason err =
     (if isMissingReferenceGrant err then ListenerReasonRefNotPermitted
      else ListenerReasonInvalidCertificateRef)"

definition tlsErrorMessage :: "goError \<Rightarrow> string" where
  "tlsErrorMessage err =
     (let message = ''Invalid certificate ref.'';
          message = (if isMissingReferenceGrant err
                     then ''Reference not permitted by ReferenceGrant.'' else message);
          message = (if isInvalidTlsSecret err then errorText err else message)
      in case asNotFoundError err of
           Some (ns, name) \<Rightarrow> SecretNotFoundMessage ns name
         | None \<Rightarrow> message)"

definition translateHttpsFilterChain ::
  "env \<Rightarrow> httpsFilterChain \<Rightarrow> string \<Rightarrow> string \<Rightarrow> listenerReporter
    \<Rightarrow> (goError + httpFilterChainIR) \<times> report list" where
  "translateHttpsFilterChain e chain parentName gatewayNamespace listenerReporter =
     (let routesByHost = buildRoutesPerHost e [] (hs_routesWithHosts chain);
          (virtualHostNames, virtualHosts) =
            foldl (httpsVhostStep e parentName) ({}, []) (mapRange e routesByHost);
          matcher = (case hs_sniDomain chain of
                       None \<Rightarrow> zeroMatcher
                     | Some d \<Rightarrow> \<lparr>SniDomains = [d]\<rparr>)
      in case translateSslConfig e gatewayNamespace (hs_tls chain) of
           Inl err \<Rightarrow>
             (Inl err,
              [ListenerSetCondition listenerReporter
                 \<lparr>lc_Type = ListenerConditionResolvedRefs, lc_Status = ConditionFalse,
                  lc_Reason = tlsErrorReason err, lc_Message = tlsErrorMessage err\<rparr>,
               ListenerSetCondition listenerReporter
                 \<lparr>lc_Type = ListenerConditionProgrammed, lc_Status = ConditionFalse,
                  lc_Reason = ListenerReasonInvalid, lc_Message = tlsErrorMessage err\<rparr>])
         | Inr sslConfig \<Rightarrow>
             (Inr \<lparr>hfc_FilterChainCommon =
                     \<lparr>FilterChainName = parentName, Matcher = matcher, TLS = sslConfig\<rparr>,
                   hfc_AttachedPolicies = hs_attachedPolicies chain,
                   hfc_Vhosts = sortSlice virtualHosts\<rparr>, []))"

section \<open>Translating a merged listener\<close>

text \<open>The loop over \<^verbatim>\<open>ml.httpsFilterChains\<close>: a chain that returns an error is logged and
  skipped. Every chain is given the reporter of the merged listener.\<close>

fun translateHttpsChains ::
  "env \<Rightarrow> mergedListener \<Rightarrow> httpsFilterChain list \<Rightarrow> httpFilterChainIR list \<times> report list" where
  "translateHttpsChains e ml [] = ([], [])"
| "translateHttpsChains e ml (mfc # rest) =
     (let (res, reps) = translateHttpsFilterChain e mfc (hs_gatewayListenerName mfc)
                          (ml_gatewayNamespace ml) (ml_listenerReporter ml);
          (chains, reps') = translateHttpsChains e ml rest
      in case res of
           Inl err \<Rightarrow> (chains, reps @ reps')
         | Inr httpsFilterChain \<Rightarrow> (httpsFilterChain # chains, reps @ reps'))"

fun translateTcpChains ::
  "mergedListener \<Rightarrow> tcpFilterChain list \<Rightarrow> tcpIR list \<times> report list" where
  "translateTcpChains ml [] = ([], [])"
| "translateTcpChains ml (tfc # rest) =
     (let (res, reps) = translateTcpFilterChain tfc (ml_name ml);
          (matched, reps') = translateTcpChains ml rest
      in case res of
           None \<Rightarrow> (matched, reps @ reps')
         | Some tcpListener \<Rightarrow> (tcpListener # matched, reps @ reps'))"

definition noBackendsCondition :: listenerCondition where
  "noBackendsCondition =
     \<lparr>lc_Type = ListenerConditionProgrammed, lc_Status = ConditionFalse,
      lc_Reason = ListenerReasonInvalid, lc_Message = TcpTlsListenerNoBackendsMessage\<rparr>"

definition TranslateListener :: "env \<Rightarrow> mergedListener \<Rightarrow> listenerIR \<times> report list" where
  "TranslateListener e ml =
     (let httpFilterChains =
            (case ml_httpFilterChain ml of
               None \<Rightarrow> []
             | Some c \<Rightarrow> [translateHttpFilterChain e c (ml_name ml)]);
          (httpsChains, httpsReps) = translateHttpsChains e ml (ml_httpsFilterChains ml);
          httpFilterChains = httpFilterChains @ httpsChains;
          (matchedTcpListeners, tcpReps) = translateTcpChains ml (ml_TcpFilterChains ml);
          failedReps =
            (if length (ml_TcpFilterChains ml) > 0 \<and> length matchedTcpListeners = 0
             then map (\<lambda>tfc. ListenerSetCondition (tc_listenerReporter tfc) noBackendsCondition)
                    (ml_TcpFilterChains ml)
             else []);
          bindAddress = (if ListenerBindIpv6 (ml_settings ml) then ''::'' else ''0.0.0.0'')
      in (\<lparr>lir_Name = ml_name ml,
           lir_BindAddress = bindAddress,
           lir_BindPort = ml_port ml,
           lir_AttachedPolicies = [],
           lir_HttpFilterChain = httpFilterChains,
           lir_TcpFilterChain = matchedTcpListeners,
           lir_PolicyAncestorRef = l_PolicyAncestorRef (ml_listener ml)\<rparr>,
          httpsReps @ tcpReps @ failedReps))"

fun translateListenersLoop :: "env \<Rightarrow> mergedListener list \<Rightarrow> listenerIR list \<times> report list" where
  "translateListenersLoop e [] = ([], [])"
| "translateListenersLoop e (mergedListener # rest) =
     (let (listener, reps) = TranslateListener e mergedListener;
          (listeners, reps') = translateListenersLoop e rest
      in (listener # listeners, reps @ reps'))"

definition translateListeners :: "env \<Rightarrow> mergedListeners \<Rightarrow> listenerIR list \<times> report list" where
  "translateListeners e ml = translateListenersLoop e (mls_Listeners ml)"

definition TranslateListeners ::
  "env \<Rightarrow> gateway \<Rightarrow> (string \<Rightarrow> string \<Rightarrow> listenerResult option) \<Rightarrow> listenerTranslatorConfig
    \<Rightarrow> listenerIR list \<times> report list" where
  "TranslateListeners e gateway routesForGw settings =
     (let validatedListeners = validateGateway e gateway;
          mergedListeners = mergeGWListeners e (gw_Namespace gateway) validatedListeners gateway
                              routesForGw settings
      in translateListeners e mergedListeners)"


section \<open>What the merge is expected to produce\<close>

text \<open>
  The contents a merged listener on port \<open>p\<close> should have after the listeners \<open>ls\<close> were
  appended in order, written directly from \<open>ls\<close>: the plaintext listeners of the port
  as the parents of one chain, one HTTPS chain per HTTPS listener of the port, one TCP
  chain per TCP or TLS listener of the port.
\<close>

definition supported :: "listener \<Rightarrow> bool" where
  "supported l \<longleftrightarrow> l_Protocol l = HTTPProtocolType \<or> l_Protocol l = HTTPSProtocolType
     \<or> l_Protocol l = TCPProtocolType \<or> l_Protocol l = TLSProtocolType"

definition listenersOn :: "string \<Rightarrow> portNumber \<Rightarrow> listener list \<Rightarrow> listener list" where
  "listenersOn proto p ls = filter (\<lambda>l. l_Protocol l = proto \<and> l_Port l = p) ls"

definition expectedHttp ::
  "env \<Rightarrow> (string \<Rightarrow> string \<Rightarrow> listenerResult option) \<Rightarrow> listener list \<Rightarrow> portNumber
    \<Rightarrow> httpFilterChain option" where
  "expectedHttp e rfg ls p =
     (if listenersOn HTTPProtocolType p ls = [] then None
      else Some \<lparr>parents = map (\<lambda>l. httpParentOf e l (routesFor rfg l))
                             (listenersOn HTTPProtocolType p ls)\<rparr>)"

definition expectedHttps ::
  "env \<Rightarrow> (string \<Rightarrow> string \<Rightarrow> listenerResult option) \<Rightarrow> listener list \<Rightarrow> portNumber
    \<Rightarrow> httpsFilterChain list" where
  "expectedHttps e rfg ls p =
     map (\<lambda>l. httpsChainOf e l (routesFor rfg l)) (listenersOn HTTPSProtocolType p ls)"

definition expectedTcp ::
  "env \<Rightarrow> (string \<Rightarrow> string \<Rightarrow> listenerResult option) \<Rightarrow> listener list \<Rightarrow> portNumber
    \<Rightarrow> tcpFilterChain list" where
  "expectedTcp e rfg ls p =
     map (\<lambda>l. if l_Protocol l = TCPProtocolType
               then tcpChainOf e l (routesFor rfg l) (GetParentReporter_ListenerName l)
               else tlsChainOf e l (routesFor rfg l) (GetParentReporter_ListenerName l))
       (filter (\<lambda>l. (l_Protocol l = TCPProtocolType \<or> l_Protocol l = TLSProtocolType) \<and> l_Port l = p) ls)"

text \<open>The invariant of the merge loop after the listeners \<open>ls\<close>: what one merged
  listener holds, and the merged listeners as a whole (one per port in use).\<close>

definition mergedOk ::
  "env \<Rightarrow> (string \<Rightarrow> string \<Rightarrow> listenerResult option) \<Rightarrow> string \<Rightarrow> listenerTranslatorConfig
    \<Rightarrow> listener list \<Rightarrow> mergedListener \<Rightarrow> bool" where
  "mergedOk e rfg ns settings ls m \<longleftrightarrow>
       ml_httpFilterChain m = expectedHttp e rfg ls (ml_port m)
     \<and> ml_httpsFilterChains m = expectedHttps e rfg ls (ml_port m)
     \<and> ml_TcpFilterChains m = expectedTcp e rfg ls (ml_port m)
     \<and> ml_name m = GenerateListenerNameFromPort (ml_port m)
     \<and> ml_gatewayNamespace m = ns
     \<and> ml_settings m = settings
     \<and> find (\<lambda>l. supported l \<and> l_Port l = ml_port m) ls = Some (ml_listener m)
     \<and> ml_listenerReporter m = GetParentReporter_ListenerName (ml_listener m)"

definition mergedAs ::
  "env \<Rightarrow> (string \<Rightarrow> string \<Rightarrow> listenerResult option) \<Rightarrow> string \<Rightarrow> listenerTranslatorConfig
    \<Rightarrow> listener list \<Rightarrow> mergedListener list \<Rightarrow> bool" where
  "mergedAs e rfg ns settings ls ms \<longleftrightarrow>
     distinct (map ml_port ms)
     \<and> set (map ml_port ms) = l_Port ` {l \<in> set ls. supported l}
     \<and> list_all (mergedOk e rfg ns settings ls) ms"

text \<open>The hosts that receive a bucket from a list of bound routes: the hostnames of the
  routes that translate to at least one rule.\<close>

definition bucketHosts :: "env \<Rightarrow> routeInfo list \<Rightarrow> string set" where
  "bucketHosts e routes =
     (\<Union>r \<in> {r \<in> set routes. TranslateGatewayHTTPRouteRules e r \<noteq> []}. set (hostnamesOf r))"

text \<open>Whether a parent listener's hostname matches a host.\<close>

definition parentMatches :: "string \<Rightarrow> httpFilterChainParent \<Rightarrow> bool" where
  "parentMatches host p \<longleftrightarrow> isHostContained host (l_Hostname (hp_gatewayListener p))"

definition isListenerCondition :: "report \<Rightarrow> bool" where
  "isListenerCondition r = (case r of ListenerSetCondition _ _ \<Rightarrow> True | _ \<Rightarrow> False)"

section \<open>Example inputs\<close>

text \<open>A TCP filter chain with its bound routes replaced.\<close>

definition withRoutes :: "tcpFilterChain \<Rightarrow> routeInfo list \<Rightarrow> tcpFilterChain" where
  "withRoutes tc rs = tc\<lparr>tc_parents := (tc_parents tc)\<lparr>tp_routesWithHosts := rs\<rparr>\<rparr>"

definition exSource :: "string \<Rightarrow> int \<Rightarrow> string list \<Rightarrow> sourceObject" where
  "exSource name ts rules =
     \<lparr>so_Namespace = ''default'', so_Name = name, so_CreationTimestamp = ts, so_Rules = rules\<rparr>"

definition exBackend :: "string \<Rightarrow> backendRefIR" where
  "exBackend name =
     \<lparr>be_ClusterName = name, be_Weight = 1, be_BackendObject = Some name, be_Err = None\<rparr>"

text \<open>A backend reference whose object could not be resolved.\<close>

definition exMissingBackend :: "string \<Rightarrow> backendRefIR" where
  "exMissingBackend name =
     \<lparr>be_ClusterName = name, be_Weight = 1, be_BackendObject = None, be_Err = None\<rparr>"

definition exTcpRoute :: "string \<Rightarrow> int \<Rightarrow> string list \<Rightarrow> backendRefIR list \<Rightarrow> routeInfo" where
  "exTcpRoute name ts rules backends =
     \<lparr>ri_Object = TcpRouteIR \<lparr>r_SourceObject = exSource name ts rules, r_Namespace = ''default'',
                               r_Name = name, r_ParentRefs = [''gw''], r_Backends = backends\<rparr>,
      ri_ParentRef = ''gw'', ri_Hostnames = []\<rparr>"

definition exTcpChain :: "string \<Rightarrow> routeInfo list \<Rightarrow> tcpFilterChain" where
  "exTcpChain name routes =
     \<lparr>tc_parents = \<lparr>tp_gatewayListenerName = ''gw/'' @ name, tp_routesWithHosts = routes\<rparr>,
      tc_tls = None, tc_sniDomain = None,
      tc_listenerReporter = \<lparr>lr_Parent = ''gw'', lr_ListenerName = name\<rparr>\<rparr>"

text \<open>
  An instance of the collaborators. The sanitizer replaces every dot by an underscore,
  every bound route translates to one rule named after the route, the route order is
  left as it is, the only secret that resolves is \<^verbatim>\<open>ok-cert\<close> (any other reference is
  reported as not found), every listener of the gateway passes validation, and the
  order in which a map is ranged over is the argument.
\<close>

definition sanitizeDots :: "string \<Rightarrow> string" where
  "sanitizeDots s = map (\<lambda>c. if c = CHR ''.'' then CHR ''_'' else c) s"

definition exNotFound :: "string \<Rightarrow> string \<Rightarrow> goError" where
  "exNotFound ns name =
     \<lparr>isMissingReferenceGrant = False, isInvalidTlsSecret = False,
      asNotFoundError = Some (ns, name), errorText = ''secret not found''\<rparr>"

definition exSecrets :: "string \<Rightarrow> secretObjectReference \<Rightarrow> goError + secret" where
  "exSecrets ns ref =
     (if ref = ''ok-cert''
      then Inr \<lparr>sec_Name = ref, sec_Namespace = ns,
                sec_Data = [''tls.crt'' \<mapsto> ''CERT'', ''tls.key'' \<mapsto> ''KEY'']\<rparr>
      else Inl (exNotFound ns ref))"

definition exEnv :: "(routesByHost \<Rightarrow> routesByHost) \<Rightarrow> env" where
  "exEnv visit =
     \<lparr>SanitizeForEnvoy = sanitizeDots,
      TranslateGatewayHTTPRouteRules = (\<lambda>r. [so_Name (GetSourceObject (ri_Object r))]),
      sortStable = (\<lambda>rs. rs),
      GetSecretForRef = exSecrets,
      ValidateTlsSecretData = (\<lambda>name ns data. None),
      GenerateRouteKey = (\<lambda>parent name. parent @ ''/'' @ name),
      validateGateway = gw_Listeners,
      mapRange = visit\<rparr>"

definition exListener ::
  "string \<Rightarrow> string \<Rightarrow> portNumber \<Rightarrow> string option \<Rightarrow> listenerTLSConfig option \<Rightarrow> attachedPolicies
    \<Rightarrow> listener" where
  "exListener name proto port hostname tls policies =
     \<lparr>l_Name = name, l_Parent = ''gw'', l_Hostname = hostname, l_Port = port,
      l_Protocol = proto, l_TLS = tls, l_AttachedPolicies = policies,
      l_PolicyAncestorRef = ''gw''\<rparr>"

definition exHttpRoute :: "string \<Rightarrow> string list \<Rightarrow> routeInfo" where
  "exHttpRoute name hostnames =
     \<lparr>ri_Object = HttpRouteIR (exSource name 1 [''r'']), ri_ParentRef = ''gw'',
      ri_Hostnames = hostnames\<rparr>"

text \<open>A plaintext chain of two listeners, a wildcard one and an exact one; the route of
  the first is bound under the host \<^verbatim>\<open>api.example.com\<close>.\<close>

definition exWildListener :: listener where
  "exWildListener = exListener ''wild'' ''HTTP'' 80 (Some ''*.example.com'') None [''wild-policy'']"

definition exExactListener :: listener where
  "exExactListener = exListener ''exact'' ''HTTP'' 80 (Some ''api.example.com'') None [''exact-policy'']"

definition exPolicyChain :: httpFilterChain where
  "exPolicyChain =
     \<lparr>parents = [httpParentOf (exEnv id) exWildListener [exHttpRoute ''r1'' [''api.example.com'']],
                 httpParentOf (exEnv id) exExactListener []]\<rparr>"

definition exPolicyVhost :: virtualHost where
  "exPolicyVhost =
     \<lparr>vh_Name = ''listener~80~api_example_com'', vh_Hostname = ''api.example.com'',
      vh_Rules = [''r1''], vh_AttachedPolicies = [''exact-policy''],
      vh_ParentRef = exExactListener\<rparr>"

text \<open>A gateway with two plaintext listeners on port 80. Their routes are bound under
  three distinct hosts, one of them by both routes.\<close>

definition exHttpGateway :: gateway where
  "exHttpGateway =
     \<lparr>gw_Name = ''gw'', gw_Namespace = ''default'',
      gw_Listeners = [exListener ''one'' ''HTTP'' 80 None None [],
                      exListener ''two'' ''HTTP'' 80 (Some ''*.example.com'') None []]\<rparr>"

definition exHttpRoutes :: "string \<Rightarrow> string \<Rightarrow> listenerResult option" where
  "exHttpRoutes parent name =
     (if name = ''one''
      then Some \<lparr>res_Routes = [exHttpRoute ''r1'' [''c.example.com'', ''a.example.com'']],
                 res_Error = None\<rparr>
      else if name = ''two''
      then Some \<lparr>res_Routes = [exHttpRoute ''r2'' [''b.example.com'', ''a.example.com'']],
                 res_Error = None\<rparr>
      else None)"

definition exSettings :: listenerTranslatorConfig where
  "exSettings = \<lparr>ListenerBindIpv6 = False\<rparr>"

text \<open>A gateway with two HTTPS listeners on port 443; the first terminates TLS with the
  secret that resolves, the second is the argument. No route is bound.\<close>

definition exTerminate :: "secretObjectReference \<Rightarrow> listenerTLSConfig option" where
  "exTerminate ref = Some \<lparr>tls_Mode = Some ''Terminate'', tls_CertificateRefs = [ref]\<rparr>"

definition exHttpsGateway :: "listener \<Rightarrow> gateway" where
  "exHttpsGateway second =
     \<lparr>gw_Name = ''gw'', gw_Namespace = ''default'',
      gw_Listeners = [exListener ''good'' ''HTTPS'' 443 (Some ''a.example.com'')
                        (exTerminate ''ok-cert'') [],
                      second]\<rparr>"

text \<open>A second listener without hostname and TLS configuration, and one whose certificate
  reference names a secret that does not exist.\<close>

definition exOpenListener :: listener where
  "exOpenListener = exListener ''open'' ''HTTPS'' 443 None None []"

definition exBadListener :: listener where
  "exBadListener = exListener ''bad'' ''HTTPS'' 443 (Some ''b.example.com'') (exTerminate ''missing'') []"

definition exNoRoutes :: "string \<Rightarrow> string \<Rightarrow> listenerResult option" where
  "exNoRoutes parent name = None"

text \<open>A merged listener on port 9000 that holds only TCP filter chains.\<close>

definition exTcpMerged :: "tcpFilterChain list \<Rightarrow> mergedListener" where
  "exTcpMerged tfcs =
     \<lparr>ml_name = ''listener~9000'', ml_gatewayNamespace = ''default'', ml_port = 9000,
      ml_httpFilterChain = None, ml_httpsFilterChains = [], ml_TcpFilterChains = tfcs,
      ml_listenerReporter = \<lparr>lr_Parent = ''gw'', lr_ListenerName = ''tcp-a''\<rparr>,
      ml_listener = exListener ''tcp-a'' ''TCP'' 9000 None None [],
      ml_gateway = zeroGateway, ml_settings = exSettings\<rparr>"

text \<open>A gateway whose only port fails altogether: an HTTPS listener with a missing secret
  and a TCP listener without routes, both on port 443.\<close>

definition exFailedGateway :: gateway where
  "exFailedGateway =
     \<lparr>gw_Name = ''gw'', gw_Namespace = ''default'',
      gw_Listeners = [exBadListener, exListener ''tcp'' ''TCP'' 443 None None []]\<rparr>"

text \<open>A gateway with one plaintext listener whose route is bound under two hosts that
  sanitize to the same virtual host name.\<close>

definition exCollisionGateway :: gateway where
  "exCollisionGateway =
     \<lparr>gw_Name = ''gw'', gw_Namespace = ''default'',
      gw_Listeners = [exListener ''http'' ''HTTP'' 80 None None []]\<rparr>"

definition exCollisionRoutes :: "string \<Rightarrow> string \<Rightarrow> listenerResult option" where
  "exCollisionRoutes parent name =
     Some \<lparr>res_Routes = [exHttpRoute ''r1'' [''foo.bar.com'', ''foo_bar.com'']], res_Error = None\<rparr>"

section \<open>Properties of the TCP and TLS filter chains\<close>

lemmas ex_tcp_defs = exSource_def exBackend_def exMissingBackend_def exTcpRoute_def exTcpChain_def

lemmas tcp_eval = translateTcpFilterChain_def translateSelectedRoute_def compareCreation_def
  GetCreationTimestamp_def timeCompare_def acceptedCondition_def parentRefReportersOf_def
  tcpHostNameOf_def ConditionTrue_def ConditionFalse_def zeroMatcher_def backendError_def Let_def

subsection \<open>What \<^const>\<open>MinFunc\<close> selects\<close>

lemma compareCreation_neg: "compareCreation a b < 0 \<longleftrightarrow> GetCreationTimestamp a < GetCreationTimestamp b"
  by (simp add: compareCreation_def timeCompare_def)

lemma MinFunc_mem: "MinFunc cmp m xs \<in> set (m # xs)"
  by (induction xs arbitrary: m) auto

lemma MinFunc_le_start:
  "GetCreationTimestamp (MinFunc compareCreation m xs) \<le> GetCreationTimestamp m"
proof (induction xs arbitrary: m)
  case Nil
  then show ?case by simp
next
  case (Cons y ys)
  have "GetCreationTimestamp (MinFunc compareCreation (if compareCreation y m < 0 then y else m) ys)
          \<le> GetCreationTimestamp (if compareCreation y m < 0 then y else m)"
    by (rule Cons.IH)
  also have "\<dots> \<le> GetCreationTimestamp m"
    by (simp add: compareCreation_neg)
  finally show ?case by simp
qed

lemma MinFunc_le:
  "x \<in> set (m # xs) \<Longrightarrow> GetCreationTimestamp (MinFunc compareCreation m xs) \<le> GetCreationTimestamp x"
proof (induction xs arbitrary: m)
  case Nil
  then show ?case by simp
next
  case (Cons y ys)
  let ?m' = "if compareCreation y m < 0 then y else m"
  have a: "GetCreationTimestamp ?m' \<le> GetCreationTimestamp m"
          "GetCreationTimestamp ?m' \<le> GetCreationTimestamp y"
    by (auto simp: compareCreation_neg)
  have b: "GetCreationTimestamp (MinFunc compareCreation ?m' ys) \<le> GetCreationTimestamp ?m'"
    by (rule MinFunc_le_start)
  from Cons.prems consider "x = m" | "x = y" | "x \<in> set ys" by auto
  then show ?case
  proof cases
    case 1
    with a b show ?thesis by simp
  next
    case 2
    with a b show ?thesis by simp
  next
    case 3
    then have "GetCreationTimestamp (MinFunc compareCreation ?m' ys) \<le> GetCreationTimestamp x"
      by (intro Cons.IH) simp
    then show ?thesis by simp
  qed
qed

lemma MinFunc_unique:
  assumes "r \<in> set (m # xs)"
    and "\<forall>r' \<in> set (m # xs). r' \<noteq> r \<longrightarrow> GetCreationTimestamp r < GetCreationTimestamp r'"
  shows "MinFunc compareCreation m xs = r"
proof (rule ccontr)
  assume n: "MinFunc compareCreation m xs \<noteq> r"
  have "MinFunc compareCreation m xs \<in> set (m # xs)" by (rule MinFunc_mem)
  with assms n have "GetCreationTimestamp r < GetCreationTimestamp (MinFunc compareCreation m xs)"
    by blast
  moreover have "GetCreationTimestamp (MinFunc compareCreation m xs) \<le> GetCreationTimestamp r"
    using assms(1) by (rule MinFunc_le)
  ultimately show False by simp
qed

text \<open>The selected route is the first one of the list that has the least timestamp:
  everything before it is strictly later.\<close>

lemma MinFunc_first:
  "\<exists>pre post. m # xs = pre @ MinFunc compareCreation m xs # post
     \<and> (\<forall>x \<in> set pre. GetCreationTimestamp (MinFunc compareCreation m xs) < GetCreationTimestamp x)"
proof (induction xs arbitrary: m)
  case Nil
  show ?case by (rule exI[of _ "[]"]) simp
next
  case (Cons y ys)
  let ?m' = "if compareCreation y m < 0 then y else m"
  let ?r = "MinFunc compareCreation ?m' ys"
  from Cons.IH[of ?m'] obtain pre post where
    split: "?m' # ys = pre @ ?r # post"
    and less: "\<forall>x \<in> set pre. GetCreationTimestamp ?r < GetCreationTimestamp x"
    by blast
  have r: "MinFunc compareCreation m (y # ys) = ?r" by simp
  show ?case
  proof (cases "compareCreation y m < 0")
    case True
    then have ym: "GetCreationTimestamp y < GetCreationTimestamp m"
      by (simp add: compareCreation_neg)
    from True split have s: "y # ys = pre @ ?r # post" by simp
    have le: "GetCreationTimestamp ?r \<le> GetCreationTimestamp y"
      using MinFunc_le_start[of ?m' ys] True by simp
    have "m # y # ys = (m # pre) @ ?r # post
            \<and> (\<forall>x \<in> set (m # pre). GetCreationTimestamp ?r < GetCreationTimestamp x)"
      using s less le ym by auto
    then show ?thesis unfolding r by blast
  next
    case False
    then have my: "GetCreationTimestamp m \<le> GetCreationTimestamp y"
      by (simp add: compareCreation_neg)
    from False split have s: "m # ys = pre @ ?r # post" by simp
    show ?thesis
    proof (cases pre)
      case Nil
      with s have "?r = m" "ys = post" by auto
      then have "m # y # ys = [] @ ?r # (y # post)
                   \<and> (\<forall>x \<in> set []. GetCreationTimestamp ?r < GetCreationTimestamp x)"
        by simp
      then show ?thesis unfolding r by blast
    next
      case (Cons p pre')
      with s have pm: "p = m" and ys: "ys = pre' @ ?r # post" by auto
      from less Cons pm have rm: "GetCreationTimestamp ?r < GetCreationTimestamp m" by simp
      have "m # y # ys = (m # y # pre') @ ?r # post
              \<and> (\<forall>x \<in> set (m # y # pre'). GetCreationTimestamp ?r < GetCreationTimestamp x)"
        using ys less Cons rm my by auto
      then show ?thesis unfolding r by blast
    qed
  qed
qed

lemma translateSelectedRoute_withRoutes:
  "translateSelectedRoute (withRoutes tc rs) pn r = translateSelectedRoute tc pn r"
  by (simp add: translateSelectedRoute_def withRoutes_def Let_def split: routeObject.splits prod.splits)

subsection \<open>Route selection\<close>

text \<open>
  C7, as the claim is worded, fails: two routes created at the same instant are both
  "the route with the earliest creation timestamp", and which of them is translated
  depends on their order in the input list, because \<^verbatim>\<open>slices.MinFunc\<close> keeps the first
  minimal element. Here the two orders of the same two routes give filter chains of
  different names.
\<close>

theorem tcp_route_order_counterexample:
  "translateTcpFilterChain
     (exTcpChain ''tcp'' [exTcpRoute ''a'' 5 [''r''] [exBackend ''x''],
                          exTcpRoute ''b'' 5 [''r''] [exBackend ''y'']])
     ''listener~9000''
   \<noteq> translateTcpFilterChain
     (exTcpChain ''tcp'' [exTcpRoute ''b'' 5 [''r''] [exBackend ''y''],
                          exTcpRoute ''a'' 5 [''r''] [exBackend ''x'']])
     ''listener~9000''"
  by (simp add: tcp_eval ex_tcp_defs)

text \<open>
  C7, amended. With no bound route the chain produces nothing (no IR, no report). With
  at least one, the translated route is the first route of the input list that has the
  least creation timestamp, and the result is the translation of that route alone: the
  other routes contribute nothing. When one route is strictly earlier than every other,
  it is the one translated in every order of the input list.
\<close>

theorem tcp_route_selection:
  "(tp_routesWithHosts (tc_parents tc) = [] \<longrightarrow> translateTcpFilterChain tc pn = (None, []))
   \<and> (tp_routesWithHosts (tc_parents tc) \<noteq> [] \<longrightarrow>
        (\<exists>pre r post. tp_routesWithHosts (tc_parents tc) = pre @ r # post
           \<and> (\<forall>x \<in> set pre. GetCreationTimestamp r < GetCreationTimestamp x)
           \<and> (\<forall>x \<in> set post. GetCreationTimestamp r \<le> GetCreationTimestamp x)
           \<and> translateTcpFilterChain tc pn = translateSelectedRoute tc pn r))
   \<and> (\<forall>r rs'. r \<in> set (tp_routesWithHosts (tc_parents tc))
          \<and> (\<forall>r' \<in> set (tp_routesWithHosts (tc_parents tc)).
                r' \<noteq> r \<longrightarrow> GetCreationTimestamp r < GetCreationTimestamp r')
          \<and> mset rs' = mset (tp_routesWithHosts (tc_parents tc))
        \<longrightarrow> translateTcpFilterChain (withRoutes tc rs') pn = translateSelectedRoute tc pn r)"
proof (intro conjI impI allI)
  assume "tp_routesWithHosts (tc_parents tc) = []"
  then show "translateTcpFilterChain tc pn = (None, [])"
    by (simp add: translateTcpFilterChain_def)
next
  assume "tp_routesWithHosts (tc_parents tc) \<noteq> []"
  then obtain m xs where mx: "tp_routesWithHosts (tc_parents tc) = m # xs"
    by (cases "tp_routesWithHosts (tc_parents tc)") auto
  let ?r = "MinFunc compareCreation m xs"
  from MinFunc_first[of m xs] obtain pre post where
    split: "m # xs = pre @ ?r # post"
    and less: "\<forall>x \<in> set pre. GetCreationTimestamp ?r < GetCreationTimestamp x"
    by blast
  have "\<forall>x \<in> set post. GetCreationTimestamp ?r \<le> GetCreationTimestamp x"
  proof
    fix x assume "x \<in> set post"
    then have "x \<in> set (m # xs)" unfolding split by simp
    then show "GetCreationTimestamp ?r \<le> GetCreationTimestamp x" by (rule MinFunc_le)
  qed
  moreover have "translateTcpFilterChain tc pn = translateSelectedRoute tc pn ?r"
    by (simp add: translateTcpFilterChain_def mx)
  ultimately show "\<exists>pre r post. tp_routesWithHosts (tc_parents tc) = pre @ r # post
           \<and> (\<forall>x \<in> set pre. GetCreationTimestamp r < GetCreationTimestamp x)
           \<and> (\<forall>x \<in> set post. GetCreationTimestamp r \<le> GetCreationTimestamp x)
           \<and> translateTcpFilterChain tc pn = translateSelectedRoute tc pn r"
    using split less mx by metis
next
  fix r rs'
  assume a: "r \<in> set (tp_routesWithHosts (tc_parents tc))
          \<and> (\<forall>r' \<in> set (tp_routesWithHosts (tc_parents tc)).
                r' \<noteq> r \<longrightarrow> GetCreationTimestamp r < GetCreationTimestamp r')
          \<and> mset rs' = mset (tp_routesWithHosts (tc_parents tc))"
  then have seteq: "set rs' = set (tp_routesWithHosts (tc_parents tc))"
    by (metis set_mset_mset)
  with a have "rs' \<noteq> []" by auto
  then obtain m xs where mx: "rs' = m # xs" by (cases rs') auto
  have "MinFunc compareCreation m xs = r"
    by (rule MinFunc_unique) (use a seteq mx in auto)
  moreover have "translateTcpFilterChain (withRoutes tc rs') pn
      = translateSelectedRoute (withRoutes tc rs') pn (MinFunc compareCreation m xs)"
    by (simp add: translateTcpFilterChain_def withRoutes_def mx)
  ultimately show "translateTcpFilterChain (withRoutes tc rs') pn = translateSelectedRoute tc pn r"
    by (simp add: translateSelectedRoute_withRoutes)
qed

theorem tcp_route_selection_witness:
  "translateTcpFilterChain (exTcpChain ''tcp'' []) ''listener~9000'' = (None, [])
   \<and> (\<exists>pre r post.
         [exTcpRoute ''c'' 30 [''r''] [exBackend ''z''],
          exTcpRoute ''a'' 10 [''r''] [exBackend ''x''],
          exTcpRoute ''b'' 20 [''r''] [exBackend ''y'']] = pre @ r # post
       \<and> (\<forall>x \<in> set pre. GetCreationTimestamp r < GetCreationTimestamp x)
       \<and> (\<forall>x \<in> set post. GetCreationTimestamp r \<le> GetCreationTimestamp x)
       \<and> translateTcpFilterChain
           (exTcpChain ''tcp'' [exTcpRoute ''c'' 30 [''r''] [exBackend ''z''],
                                exTcpRoute ''a'' 10 [''r''] [exBackend ''x''],
                                exTcpRoute ''b'' 20 [''r''] [exBackend ''y'']])
           ''listener~9000''
         = translateSelectedRoute
             (exTcpChain ''tcp'' [exTcpRoute ''c'' 30 [''r''] [exBackend ''z''],
                                  exTcpRoute ''a'' 10 [''r''] [exBackend ''x''],
                                  exTcpRoute ''b'' 20 [''r''] [exBackend ''y'']])
             ''listener~9000'' r)
   \<and> translateTcpFilterChain
       (withRoutes
          (exTcpChain ''tcp'' [exTcpRoute ''c'' 30 [''r''] [exBackend ''z''],
                               exTcpRoute ''a'' 10 [''r''] [exBackend ''x''],
                               exTcpRoute ''b'' 20 [''r''] [exBackend ''y'']])
          [exTcpRoute ''b'' 20 [''r''] [exBackend ''y''],
           exTcpRoute ''c'' 30 [''r''] [exBackend ''z''],
           exTcpRoute ''a'' 10 [''r''] [exBackend ''x'']])
       ''listener~9000''
     = translateSelectedRoute
         (exTcpChain ''tcp'' [exTcpRoute ''c'' 30 [''r''] [exBackend ''z''],
                              exTcpRoute ''a'' 10 [''r''] [exBackend ''x''],
                              exTcpRoute ''b'' 20 [''r''] [exBackend ''y'']])
         ''listener~9000'' (exTcpRoute ''a'' 10 [''r''] [exBackend ''x''])"
proof -
  let ?a = "exTcpRoute ''a'' 10 [''r''] [exBackend ''x'']"
  let ?b = "exTcpRoute ''b'' 20 [''r''] [exBackend ''y'']"
  let ?c = "exTcpRoute ''c'' 30 [''r''] [exBackend ''z'']"
  let ?tc = "exTcpChain ''tcp'' [?c, ?a, ?b]"
  have e: "tp_routesWithHosts (tc_parents (exTcpChain ''tcp'' [])) = []"
    by (simp add: exTcpChain_def)
  have rs: "tp_routesWithHosts (tc_parents ?tc) = [?c, ?a, ?b]"
    by (simp add: exTcpChain_def)
  then have ne: "tp_routesWithHosts (tc_parents ?tc) \<noteq> []" by simp
  have h: "?a \<in> set (tp_routesWithHosts (tc_parents ?tc))
      \<and> (\<forall>r' \<in> set (tp_routesWithHosts (tc_parents ?tc)).
            r' \<noteq> ?a \<longrightarrow> GetCreationTimestamp ?a < GetCreationTimestamp r')
      \<and> mset [?b, ?c, ?a] = mset (tp_routesWithHosts (tc_parents ?tc))"
    unfolding rs by (simp add: GetCreationTimestamp_def exTcpRoute_def exSource_def)
  have 1: "translateTcpFilterChain (exTcpChain ''tcp'' []) ''listener~9000'' = (None, [])"
    by (rule tcp_route_selection[of "exTcpChain ''tcp'' []" "''listener~9000''",
          THEN conjunct1, THEN mp, OF e])
  have 2: "\<exists>pre r post. tp_routesWithHosts (tc_parents ?tc) = pre @ r # post
       \<and> (\<forall>x \<in> set pre. GetCreationTimestamp r < GetCreationTimestamp x)
       \<and> (\<forall>x \<in> set post. GetCreationTimestamp r \<le> GetCreationTimestamp x)
       \<and> translateTcpFilterChain ?tc ''listener~9000'' = translateSelectedRoute ?tc ''listener~9000'' r"
    by (rule tcp_route_selection[of ?tc "''listener~9000''",
          THEN conjunct2, THEN conjunct1, THEN mp, OF ne])
  from tcp_route_selection[of ?tc "''listener~9000''"] h
  have 3: "translateTcpFilterChain (withRoutes ?tc [?b, ?c, ?a]) ''listener~9000''
            = translateSelectedRoute ?tc ''listener~9000'' ?a"
    by blast
  from 1 2[unfolded rs] 3 show ?thesis by (intro conjI)
qed

subsection \<open>The rule-count gate\<close>

text \<open>A route whose rule count is not one leaves the type switch through the early
  \<^verbatim>\<open>return nil\<close>, before the loop that sets the condition on the parent-ref reporters:
  nothing is reported for it.\<close>

lemma rejected_route_silent:
  assumes "ri_Object r = TcpRouteIR t \<or> ri_Object r = TlsRouteIR t"
    and "length (so_Rules (r_SourceObject t)) \<noteq> 1"
  shows "translateSelectedRoute tc pn r = (None, [])"
  using assms
  by (auto simp: translateSelectedRoute_def acceptedCondition_def ConditionTrue_def ConditionFalse_def)

text \<open>
  C8: the claim expects an \<^verbatim>\<open>Accepted=False\<close> condition with reason \<^verbatim>\<open>UnsupportedValue\<close> on
  every parent-ref reporter of a selected route whose rule count is not one. For a TCPRoute
  with two rules and the parent ref \<^verbatim>\<open>gw\<close> the translation returns no IR and reports
  nothing at all: the condition is built and then dropped by the early return.
\<close>

theorem tcp_two_rules_no_condition:
  "translateTcpFilterChain
     (exTcpChain ''tcp'' [exTcpRoute ''a'' 5 [''r1'', ''r2''] [exBackend ''x'']]) ''listener~9000''
   = (None, [])"
  by (simp add: tcp_eval ex_tcp_defs)

lemma accepted_route_reports:
  assumes "ri_Object r = TcpRouteIR t \<or> ri_Object r = TlsRouteIR t"
    and "length (so_Rules (r_SourceObject t)) = 1"
    and "p \<in> set (parentRefReportersOf t)"
  shows "RouteSetCondition p \<lparr>rc_Type = RouteConditionAccepted, rc_Status = ConditionTrue,
            rc_Reason = RouteReasonAccepted\<rparr> \<in> set (snd (translateSelectedRoute tc pn r))"
  using assms
  by (auto simp: translateSelectedRoute_def acceptedCondition_def Let_def split: prod.splits)

subsection \<open>Backends of an accepted route\<close>

lemma processBackends_fst: "fst (processBackends ps bs) = bs"
  by (induction bs) (auto simp: Let_def split: prod.splits)

lemma processBackends_snd:
  "b \<in> set bs \<Longrightarrow> be_Err b \<noteq> None \<or> be_BackendObject b = None \<Longrightarrow> p \<in> set ps
    \<Longrightarrow> ProcessBackendError (backendError b) p \<in> set (snd (processBackends ps bs))"
  by (induction bs) (auto simp: Let_def split: prod.splits)

lemma selected_accepted:
  assumes "ri_Object r = TcpRouteIR t \<or> ri_Object r = TlsRouteIR t"
    and "length (so_Rules (r_SourceObject t)) = 1"
  shows "fst (translateSelectedRoute tc pn r)
           = (if r_Backends t = [] then None else
               Some \<lparr>tcp_FilterChainCommon = \<lparr>FilterChainName = tcpHostNameOf pn t,
                      Matcher = (case ri_Object r of TlsRouteIR _ \<Rightarrow>
                           (case tc_sniDomain tc of None \<Rightarrow> zeroMatcher | Some d \<Rightarrow> \<lparr>SniDomains = [d]\<rparr>)
                         | _ \<Rightarrow> zeroMatcher), TLS = None\<rparr>,
                     tcp_BackendRefs = r_Backends t\<rparr>)"
    and "snd (translateSelectedRoute tc pn r)
           = map (\<lambda>p. RouteSetCondition p (acceptedCondition t)) (parentRefReportersOf t)
             @ snd (processBackends (parentRefReportersOf t) (r_Backends t))"
  using assms processBackends_fst[of "parentRefReportersOf t" "r_Backends t"]
  by (auto simp: translateSelectedRoute_def acceptedCondition_def Let_def ConditionTrue_def split: prod.splits)

text \<open>
  C9: when the selected route is a TCPRoute or TLSRoute with exactly one rule, no IR is
  emitted exactly when the route declares no backend; an emitted IR lists every declared
  backend, in order, also those with a resolution error or without a backend object; and
  for each such backend \<^verbatim>\<open>ProcessBackendError\<close> is called on every parent-ref reporter
  of the route.
\<close>

theorem tcp_backends_all_included:
  assumes "tp_routesWithHosts (tc_parents tc) = first # others"
    and "ri_Object (MinFunc compareCreation first others) = TcpRouteIR t
         \<or> ri_Object (MinFunc compareCreation first others) = TlsRouteIR t"
    and "length (so_Rules (r_SourceObject t)) = 1"
  shows "(fst (translateTcpFilterChain tc pn) = None \<longleftrightarrow> r_Backends t = [])
    \<and> (\<forall>tcpIR. fst (translateTcpFilterChain tc pn) = Some tcpIR
          \<longrightarrow> tcp_BackendRefs tcpIR = r_Backends t)
    \<and> (\<forall>b \<in> set (r_Backends t). \<forall>p \<in> set (parentRefReportersOf t).
          be_Err b \<noteq> None \<or> be_BackendObject b = None
          \<longrightarrow> ProcessBackendError (backendError b) p \<in> set (snd (translateTcpFilterChain tc pn)))"
proof -
  let ?r = "MinFunc compareCreation first others"
  have eq: "translateTcpFilterChain tc pn = translateSelectedRoute tc pn ?r"
    by (simp add: translateTcpFilterChain_def assms(1))
  note sel = selected_accepted[OF assms(2,3), of tc pn]
  have 1: "fst (translateTcpFilterChain tc pn) = None \<longleftrightarrow> r_Backends t = []"
    unfolding eq sel(1) by simp
  have 2: "\<forall>tcpIR. fst (translateTcpFilterChain tc pn) = Some tcpIR
          \<longrightarrow> tcp_BackendRefs tcpIR = r_Backends t"
    unfolding eq sel(1) by auto
  have 3: "\<forall>b \<in> set (r_Backends t). \<forall>p \<in> set (parentRefReportersOf t).
          be_Err b \<noteq> None \<or> be_BackendObject b = None
          \<longrightarrow> ProcessBackendError (backendError b) p \<in> set (snd (translateTcpFilterChain tc pn))"
    unfolding eq sel(2) using processBackends_snd by auto
  from 1 2 3 show ?thesis by blast
qed

theorem tcp_backends_all_included_witness:
  "fst (translateTcpFilterChain
     (exTcpChain ''tcp'' [exTcpRoute ''a'' 5 [''r''] [exBackend ''x'', exMissingBackend ''y'']])
     ''listener~9000'') \<noteq> None
   \<and> (\<exists>tcpIR. fst (translateTcpFilterChain
     (exTcpChain ''tcp'' [exTcpRoute ''a'' 5 [''r''] [exBackend ''x'', exMissingBackend ''y'']])
     ''listener~9000'') = Some tcpIR \<and> tcp_BackendRefs tcpIR = [exBackend ''x'', exMissingBackend ''y''])
   \<and> ProcessBackendError (errorsNew ''not found'')
        \<lparr>pr_Route = exSource ''a'' 5 [''r''], pr_ParentRef = ''gw''\<rparr>
      \<in> set (snd (translateTcpFilterChain
     (exTcpChain ''tcp'' [exTcpRoute ''a'' 5 [''r''] [exBackend ''x'', exMissingBackend ''y'']])
     ''listener~9000''))"
proof -
  let ?t = "\<lparr>r_SourceObject = exSource ''a'' 5 [''r''], r_Namespace = ''default'',
             r_Name = ''a'', r_ParentRefs = [''gw''],
             r_Backends = [exBackend ''x'', exMissingBackend ''y'']\<rparr>"
  let ?r = "exTcpRoute ''a'' 5 [''r''] [exBackend ''x'', exMissingBackend ''y'']"
  let ?tc = "exTcpChain ''tcp'' [?r]"
  have a: "tp_routesWithHosts (tc_parents ?tc) = ?r # []" by (simp add: exTcpChain_def)
  have b: "ri_Object (MinFunc compareCreation ?r []) = TcpRouteIR ?t
         \<or> ri_Object (MinFunc compareCreation ?r []) = TlsRouteIR ?t"
    by (simp add: exTcpRoute_def)
  have c: "length (so_Rules (r_SourceObject ?t)) = 1" by (simp add: exSource_def)
  note th = tcp_backends_all_included[OF a b c, of "''listener~9000''"]
  have m: "exMissingBackend ''y'' \<in> set (r_Backends ?t)" by simp
  have p: "\<lparr>pr_Route = exSource ''a'' 5 [''r''], pr_ParentRef = ''gw''\<rparr> \<in> set (parentRefReportersOf ?t)"
    by (simp add: parentRefReportersOf_def)
  have e: "backendError (exMissingBackend ''y'') = errorsNew ''not found''"
    by (simp add: backendError_def exMissingBackend_def)
  have d: "be_Err (exMissingBackend ''y'') \<noteq> None \<or> be_BackendObject (exMissingBackend ''y'') = None"
    by (simp add: exMissingBackend_def)
  from th have 1: "fst (translateTcpFilterChain ?tc ''listener~9000'') \<noteq> None" by simp
  then obtain ir where ir: "fst (translateTcpFilterChain ?tc ''listener~9000'') = Some ir" by blast
  with th have 2: "tcp_BackendRefs ir = [exBackend ''x'', exMissingBackend ''y'']" by simp
  from th m p d have 3: "ProcessBackendError (backendError (exMissingBackend ''y''))
        \<lparr>pr_Route = exSource ''a'' 5 [''r''], pr_ParentRef = ''gw''\<rparr>
      \<in> set (snd (translateTcpFilterChain ?tc ''listener~9000''))" by blast
  from 1 ir 2 3 show ?thesis unfolding e by blast
qed


section \<open>Properties of the merge\<close>

lemma updateFirst_None: "updateFirst p f ms = None \<longleftrightarrow> p \<notin> ml_port ` set ms"
  by (induction ms) auto

lemma updateFirst_Some:
  "distinct (map ml_port ms) \<Longrightarrow> p \<in> ml_port ` set ms
    \<Longrightarrow> updateFirst p f ms = Some (map (\<lambda>m. if ml_port m = p then f m else m) ms)"
proof (induction ms)
  case Nil
  then show ?case by simp
next
  case (Cons a ms)
  show ?case
  proof (cases "ml_port a = p")
    case True
    with Cons.prems have "p \<notin> ml_port ` set ms" by auto
    then have "map (\<lambda>m. if ml_port m = p then f m else m) ms = ms"
      by (intro map_idI) auto
    with True show ?thesis by simp
  next
    case False
    with Cons show ?thesis by auto
  qed
qed

lemma protocols_distinct:
  "HTTPProtocolType \<noteq> HTTPSProtocolType" "HTTPProtocolType \<noteq> TCPProtocolType"
  "HTTPProtocolType \<noteq> TLSProtocolType" "HTTPSProtocolType \<noteq> TCPProtocolType"
  "HTTPSProtocolType \<noteq> TLSProtocolType" "TCPProtocolType \<noteq> TLSProtocolType"
  by (simp_all add: HTTPProtocolType_def HTTPSProtocolType_def TCPProtocolType_def TLSProtocolType_def)

lemma find_snoc:
  "find P (xs @ [x]) = (case find P xs of Some y \<Rightarrow> Some y | None \<Rightarrow> if P x then Some x else None)"
  by (induction xs) auto

lemma find_None_port:
  "p \<notin> l_Port ` {l \<in> set ls. supported l} \<Longrightarrow> find (\<lambda>l. supported l \<and> l_Port l = p) ls = None"
  by (auto simp: find_None_iff)

lemma expected_other_port:
  assumes "p \<noteq> l_Port l"
  shows "expectedHttp e rfg (ls @ [l]) p = expectedHttp e rfg ls p"
    and "expectedHttps e rfg (ls @ [l]) p = expectedHttps e rfg ls p"
    and "expectedTcp e rfg (ls @ [l]) p = expectedTcp e rfg ls p"
  using assms by (auto simp: expectedHttp_def expectedHttps_def expectedTcp_def listenersOn_def)

lemma expected_unsupported:
  assumes "\<not> supported l"
  shows "expectedHttp e rfg (ls @ [l]) p = expectedHttp e rfg ls p"
    and "expectedHttps e rfg (ls @ [l]) p = expectedHttps e rfg ls p"
    and "expectedTcp e rfg (ls @ [l]) p = expectedTcp e rfg ls p"
  using assms
  by (auto simp: expectedHttp_def expectedHttps_def expectedTcp_def listenersOn_def supported_def)

lemma mergedOk_other:
  assumes "mergedOk e rfg ns st ls m" "ml_port m \<noteq> l_Port l \<or> \<not> supported l"
  shows "mergedOk e rfg ns st (ls @ [l]) m"
proof -
  from assms(1) have f: "find (\<lambda>x. supported x \<and> l_Port x = ml_port m) ls = Some (ml_listener m)"
    by (simp add: mergedOk_def)
  then have f': "find (\<lambda>x. supported x \<and> l_Port x = ml_port m) (ls @ [l]) = Some (ml_listener m)"
    by (simp add: find_snoc)
  from assms(2) have "expectedHttp e rfg (ls @ [l]) (ml_port m) = expectedHttp e rfg ls (ml_port m)
    \<and> expectedHttps e rfg (ls @ [l]) (ml_port m) = expectedHttps e rfg ls (ml_port m)
    \<and> expectedTcp e rfg (ls @ [l]) (ml_port m) = expectedTcp e rfg ls (ml_port m)"
    using expected_other_port[of "ml_port m" l e rfg ls] expected_unsupported[of l e rfg ls "ml_port m"]
    by blast
  with assms(1) f' show ?thesis by (simp add: mergedOk_def)
qed

lemma mergedAs_unsupported:
  assumes "mergedAs e rfg ns st ls ms" "\<not> supported l"
  shows "mergedAs e rfg ns st (ls @ [l]) ms"
proof -
  have "l_Port ` {x \<in> set (ls @ [l]). supported x} = l_Port ` {x \<in> set ls. supported x}"
    using assms(2) by auto
  moreover have "list_all (mergedOk e rfg ns st (ls @ [l])) ms"
    using assms by (auto simp: mergedAs_def list_all_iff intro: mergedOk_other)
  ultimately show ?thesis using assms(1) unfolding mergedAs_def by simp
qed

text \<open>The step for a supported listener \<open>l\<close>: \<open>f\<close> is the in-place update of the merged
  listener on its port, \<open>n\<close> the new merged listener when the port is new.\<close>

lemma mergedAs_step:
  assumes inv: "mergedAs e rfg ns st ls ms"
    and sup: "supported l"
    and upd: "\<And>m. mergedOk e rfg ns st ls m \<Longrightarrow> ml_port m = l_Port l \<Longrightarrow>
          ml_port (f m) = ml_port m \<and> ml_name (f m) = ml_name m
        \<and> ml_gatewayNamespace (f m) = ml_gatewayNamespace m \<and> ml_settings (f m) = ml_settings m
        \<and> ml_listener (f m) = ml_listener m \<and> ml_listenerReporter (f m) = ml_listenerReporter m
        \<and> ml_httpFilterChain (f m) = expectedHttp e rfg (ls @ [l]) (l_Port l)
        \<and> ml_httpsFilterChains (f m) = expectedHttps e rfg (ls @ [l]) (l_Port l)
        \<and> ml_TcpFilterChains (f m) = expectedTcp e rfg (ls @ [l]) (l_Port l)"
    and new: "listenersOn HTTPProtocolType (l_Port l) ls = [] \<Longrightarrow>
              expectedHttps e rfg ls (l_Port l) = [] \<Longrightarrow> expectedTcp e rfg ls (l_Port l) = [] \<Longrightarrow>
          ml_port n = l_Port l \<and> ml_name n = GenerateListenerNameFromPort (l_Port l)
        \<and> ml_gatewayNamespace n = ns \<and> ml_settings n = st
        \<and> ml_listener n = l \<and> ml_listenerReporter n = GetParentReporter_ListenerName l
        \<and> ml_httpFilterChain n = expectedHttp e rfg (ls @ [l]) (l_Port l)
        \<and> ml_httpsFilterChains n = expectedHttps e rfg (ls @ [l]) (l_Port l)
        \<and> ml_TcpFilterChains n = expectedTcp e rfg (ls @ [l]) (l_Port l)"
  shows "mergedAs e rfg ns st (ls @ [l])
           (case updateFirst (l_Port l) f ms of Some ms' \<Rightarrow> ms' | None \<Rightarrow> ms @ [n])"
proof -
  have ports: "l_Port ` {x \<in> set (ls @ [l]). supported x}
      = insert (l_Port l) (l_Port ` {x \<in> set ls. supported x})"
    using sup by auto
  from inv have d: "distinct (map ml_port ms)"
    and pset: "set (map ml_port ms) = l_Port ` {l \<in> set ls. supported l}"
    and each: "\<And>m. m \<in> set ms \<Longrightarrow> mergedOk e rfg ns st ls m"
    unfolding mergedAs_def list_all_iff by auto
  show ?thesis
  proof (cases "l_Port l \<in> ml_port ` set ms")
    case True
    let ?g = "\<lambda>m. if ml_port m = l_Port l then f m else m"
    have u: "updateFirst (l_Port l) f ms = Some (map ?g ms)"
      using d True by (rule updateFirst_Some)
    have pg: "ml_port (?g m) = ml_port m" if "m \<in> set ms" for m
      using upd[OF each[OF that]] by auto
    have mp: "map ml_port (map ?g ms) = map ml_port ms"
      unfolding map_map by (rule map_cong[OF refl]) (simp add: pg cong: if_cong)
    have ok: "mergedOk e rfg ns st (ls @ [l]) (?g m)" if m: "m \<in> set ms" for m
    proof (cases "ml_port m = l_Port l")
      case False
      then show ?thesis using mergedOk_other[OF each[OF m]] by simp
    next
      case eq: True
      note u = upd[OF each[OF m] eq]
      from each[OF m] have f: "find (\<lambda>x. supported x \<and> l_Port x = ml_port m) ls = Some (ml_listener m)"
        and o: "ml_name m = GenerateListenerNameFromPort (ml_port m)" "ml_gatewayNamespace m = ns"
          "ml_settings m = st" "ml_listenerReporter m = GetParentReporter_ListenerName (ml_listener m)"
        by (simp_all add: mergedOk_def)
      from f have f': "find (\<lambda>x. supported x \<and> l_Port x = ml_port m) (ls @ [l]) = Some (ml_listener m)"
        by (simp add: find_snoc)
      show ?thesis using u o f' eq by (simp add: mergedOk_def)
    qed
    have "mergedAs e rfg ns st (ls @ [l]) (map ?g ms)"
      unfolding mergedAs_def
    proof (intro conjI)
      show "distinct (map ml_port (map ?g ms))" by (simp only: mp d)
      have "l_Port l \<in> l_Port ` {x \<in> set ls. supported x}"
        using pset True by simp
      then have "set (map ml_port ms) = insert (l_Port l) (l_Port ` {x \<in> set ls. supported x})"
        using pset by (simp only: insert_absorb)
      then show "set (map ml_port (map ?g ms)) = l_Port ` {x \<in> set (ls @ [l]). supported x}"
        by (simp only: mp ports)
      show "list_all (mergedOk e rfg ns st (ls @ [l])) (map ?g ms)"
        unfolding list_all_iff
      proof
        fix m' assume "m' \<in> set (map ?g ms)"
        then obtain m where "m \<in> set ms" "m' = ?g m" by auto
        then show "mergedOk e rfg ns st (ls @ [l]) m'" using ok by blast
      qed
    qed
    with u show ?thesis by simp
  next
    case False
    then have u: "updateFirst (l_Port l) f ms = None" by (simp add: updateFirst_None)
    from False pset have nop: "l_Port l \<notin> l_Port ` {x \<in> set ls. supported x}" by simp
    have fn: "find (\<lambda>x. supported x \<and> l_Port x = l_Port l) (ls @ [l]) = Some l"
      using nop sup by (simp add: find_snoc find_None_port)
    have nof: "filter (\<lambda>x. Q x \<and> l_Port x = l_Port l) ls = []" if "\<And>x. Q x \<Longrightarrow> supported x" for Q
      using nop that by (fastforce simp: filter_empty_conv image_iff)
    have e1: "listenersOn HTTPProtocolType (l_Port l) ls = []"
      unfolding listenersOn_def by (rule nof) (simp add: supported_def)
    have e2: "expectedHttps e rfg ls (l_Port l) = []"
      unfolding expectedHttps_def listenersOn_def by (simp add: nof supported_def)
    have e3: "expectedTcp e rfg ls (l_Port l) = []"
      unfolding expectedTcp_def by (simp add: nof supported_def)
    note n = new[OF e1 e2 e3]
    have okn: "mergedOk e rfg ns st (ls @ [l]) n"
      using n fn by (simp add: mergedOk_def)
    have oko: "mergedOk e rfg ns st (ls @ [l]) m" if m: "m \<in> set ms" for m
    proof -
      from m False have "ml_port m \<noteq> l_Port l" by (metis imageI)
      then show ?thesis using mergedOk_other[OF each[OF m]] by simp
    qed
    have "mergedAs e rfg ns st (ls @ [l]) (ms @ [n])"
      unfolding mergedAs_def
    proof (intro conjI)
      show "distinct (map ml_port (ms @ [n]))" using d n False by simp
      have "set (map ml_port (ms @ [n])) = insert (l_Port l) (set (map ml_port ms))"
        using n by simp
      then show "set (map ml_port (ms @ [n])) = l_Port ` {x \<in> set (ls @ [l]). supported x}"
        by (simp only: pset ports)
      show "list_all (mergedOk e rfg ns st (ls @ [l])) (ms @ [n])"
        using okn oko unfolding list_all_iff by auto
    qed
    with u show ?thesis by simp
  qed
qed


lemma expected_snoc_http:
  assumes "l_Protocol l = HTTPProtocolType"
  shows "expectedHttp e rfg (ls @ [l]) (l_Port l)
           = Some \<lparr>parents = (case expectedHttp e rfg ls (l_Port l) of None \<Rightarrow> [] | Some c \<Rightarrow> parents c)
                              @ [httpParentOf e l (routesFor rfg l)]\<rparr>"
    and "expectedHttps e rfg (ls @ [l]) p = expectedHttps e rfg ls p"
    and "expectedTcp e rfg (ls @ [l]) p = expectedTcp e rfg ls p"
  using assms protocols_distinct
  by (auto simp: expectedHttp_def expectedHttps_def expectedTcp_def listenersOn_def)

lemma expected_snoc_https:
  assumes "l_Protocol l = HTTPSProtocolType"
  shows "expectedHttp e rfg (ls @ [l]) p = expectedHttp e rfg ls p"
    and "expectedHttps e rfg (ls @ [l]) (l_Port l)
           = expectedHttps e rfg ls (l_Port l) @ [httpsChainOf e l (routesFor rfg l)]"
    and "expectedTcp e rfg (ls @ [l]) p = expectedTcp e rfg ls p"
  using assms protocols_distinct
  by (auto simp: expectedHttp_def expectedHttps_def expectedTcp_def listenersOn_def)

lemma expected_snoc_tcp:
  assumes "l_Protocol l = TCPProtocolType"
  shows "expectedHttp e rfg (ls @ [l]) p = expectedHttp e rfg ls p"
    and "expectedHttps e rfg (ls @ [l]) p = expectedHttps e rfg ls p"
    and "expectedTcp e rfg (ls @ [l]) (l_Port l)
           = expectedTcp e rfg ls (l_Port l)
             @ [tcpChainOf e l (routesFor rfg l) (GetParentReporter_ListenerName l)]"
  using assms protocols_distinct
  by (auto simp: expectedHttp_def expectedHttps_def expectedTcp_def listenersOn_def)

lemma expected_snoc_tls:
  assumes "l_Protocol l = TLSProtocolType"
  shows "expectedHttp e rfg (ls @ [l]) p = expectedHttp e rfg ls p"
    and "expectedHttps e rfg (ls @ [l]) p = expectedHttps e rfg ls p"
    and "expectedTcp e rfg (ls @ [l]) (l_Port l)
           = expectedTcp e rfg ls (l_Port l)
             @ [tlsChainOf e l (routesFor rfg l) (GetParentReporter_ListenerName l)]"
  using assms protocols_distinct
  by (auto simp: expectedHttp_def expectedHttps_def expectedTcp_def listenersOn_def)

lemma expectedHttp_None: "listenersOn HTTPProtocolType p ls = [] \<Longrightarrow> expectedHttp e rfg ls p = None"
  by (simp add: expectedHttp_def)

lemma appendHttpListener_inv:
  assumes inv: "mergedAs e rfg ns st ls (mls_Listeners ml)"
    and ml: "mls_GatewayNamespace ml = ns" "mls_settings ml = st"
    and proto: "l_Protocol l = HTTPProtocolType"
  shows "mergedAs e rfg ns st (ls @ [l])
           (mls_Listeners (appendHttpListener e ml l (routesFor rfg l) (GetParentReporter_ListenerName l)))"
proof -
  let ?parent = "httpParentOf e l (routesFor rfg l)"
  let ?f = "\<lambda>lis. case ml_httpFilterChain lis of
                    Some c \<Rightarrow> lis\<lparr>ml_httpFilterChain := Some (c\<lparr>parents := parents c @ [?parent]\<rparr>)\<rparr>
                  | None \<Rightarrow> lis\<lparr>ml_httpFilterChain := Some \<lparr>parents = [?parent]\<rparr>\<rparr>"
  let ?n = "\<lparr>ml_name = GenerateListenerName l, ml_gatewayNamespace = mls_GatewayNamespace ml,
             ml_port = getListenerPortNumber l, ml_httpFilterChain = Some \<lparr>parents = [?parent]\<rparr>,
             ml_httpsFilterChains = [], ml_TcpFilterChains = [],
             ml_listenerReporter = GetParentReporter_ListenerName l, ml_listener = l,
             ml_gateway = mls_parentGw ml, ml_settings = mls_settings ml\<rparr>"
  have sup: "supported l" using proto by (simp add: supported_def)
  have "mergedAs e rfg ns st (ls @ [l])
          (case updateFirst (l_Port l) ?f (mls_Listeners ml) of Some ms' \<Rightarrow> ms' | None \<Rightarrow> mls_Listeners ml @ [?n])"
  proof (rule mergedAs_step[OF inv sup])
    fix m assume ok: "mergedOk e rfg ns st ls m" and "ml_port m = l_Port l"
    then show "ml_port (?f m) = ml_port m \<and> ml_name (?f m) = ml_name m
        \<and> ml_gatewayNamespace (?f m) = ml_gatewayNamespace m \<and> ml_settings (?f m) = ml_settings m
        \<and> ml_listener (?f m) = ml_listener m \<and> ml_listenerReporter (?f m) = ml_listenerReporter m
        \<and> ml_httpFilterChain (?f m) = expectedHttp e rfg (ls @ [l]) (l_Port l)
        \<and> ml_httpsFilterChains (?f m) = expectedHttps e rfg (ls @ [l]) (l_Port l)
        \<and> ml_TcpFilterChains (?f m) = expectedTcp e rfg (ls @ [l]) (l_Port l)"
      by (auto simp: mergedOk_def expected_snoc_http[OF proto] split: option.splits)
  next
    assume "listenersOn HTTPProtocolType (l_Port l) ls = []"
      "expectedHttps e rfg ls (l_Port l) = []" "expectedTcp e rfg ls (l_Port l) = []"
    then show "ml_port ?n = l_Port l \<and> ml_name ?n = GenerateListenerNameFromPort (l_Port l)
        \<and> ml_gatewayNamespace ?n = ns \<and> ml_settings ?n = st
        \<and> ml_listener ?n = l \<and> ml_listenerReporter ?n = GetParentReporter_ListenerName l
        \<and> ml_httpFilterChain ?n = expectedHttp e rfg (ls @ [l]) (l_Port l)
        \<and> ml_httpsFilterChains ?n = expectedHttps e rfg (ls @ [l]) (l_Port l)
        \<and> ml_TcpFilterChains ?n = expectedTcp e rfg (ls @ [l]) (l_Port l)"
      using ml by (simp add: expected_snoc_http[OF proto] expectedHttp_None
          getListenerPortNumber_def GenerateListenerName_def)
  qed
  then show ?thesis
    by (simp add: appendHttpListener_def Let_def getListenerPortNumber_def split: option.splits)
qed

lemma appendHttpsListener_inv:
  assumes inv: "mergedAs e rfg ns st ls (mls_Listeners ml)"
    and ml: "mls_GatewayNamespace ml = ns" "mls_settings ml = st"
    and proto: "l_Protocol l = HTTPSProtocolType"
  shows "mergedAs e rfg ns st (ls @ [l])
           (mls_Listeners (appendHttpsListener e ml l (routesFor rfg l) (GetParentReporter_ListenerName l)))"
proof -
  let ?mfc = "httpsChainOf e l (routesFor rfg l)"
  let ?f = "\<lambda>lis. lis\<lparr>ml_httpsFilterChains := ml_httpsFilterChains lis @ [?mfc]\<rparr>"
  let ?n = "\<lparr>ml_name = GenerateListenerName l, ml_gatewayNamespace = mls_GatewayNamespace ml,
             ml_port = getListenerPortNumber l, ml_httpFilterChain = None,
             ml_httpsFilterChains = [?mfc], ml_TcpFilterChains = [],
             ml_listenerReporter = GetParentReporter_ListenerName l, ml_listener = l,
             ml_gateway = mls_parentGw ml, ml_settings = mls_settings ml\<rparr>"
  have sup: "supported l" using proto by (simp add: supported_def)
  have "mergedAs e rfg ns st (ls @ [l])
          (case updateFirst (l_Port l) ?f (mls_Listeners ml) of Some ms' \<Rightarrow> ms' | None \<Rightarrow> mls_Listeners ml @ [?n])"
  proof (rule mergedAs_step[OF inv sup])
    fix m assume ok: "mergedOk e rfg ns st ls m" and "ml_port m = l_Port l"
    then show "ml_port (?f m) = ml_port m \<and> ml_name (?f m) = ml_name m
        \<and> ml_gatewayNamespace (?f m) = ml_gatewayNamespace m \<and> ml_settings (?f m) = ml_settings m
        \<and> ml_listener (?f m) = ml_listener m \<and> ml_listenerReporter (?f m) = ml_listenerReporter m
        \<and> ml_httpFilterChain (?f m) = expectedHttp e rfg (ls @ [l]) (l_Port l)
        \<and> ml_httpsFilterChains (?f m) = expectedHttps e rfg (ls @ [l]) (l_Port l)
        \<and> ml_TcpFilterChains (?f m) = expectedTcp e rfg (ls @ [l]) (l_Port l)"
      by (simp add: mergedOk_def expected_snoc_https[OF proto])
  next
    assume "listenersOn HTTPProtocolType (l_Port l) ls = []"
      "expectedHttps e rfg ls (l_Port l) = []" "expectedTcp e rfg ls (l_Port l) = []"
    then show "ml_port ?n = l_Port l \<and> ml_name ?n = GenerateListenerNameFromPort (l_Port l)
        \<and> ml_gatewayNamespace ?n = ns \<and> ml_settings ?n = st
        \<and> ml_listener ?n = l \<and> ml_listenerReporter ?n = GetParentReporter_ListenerName l
        \<and> ml_httpFilterChain ?n = expectedHttp e rfg (ls @ [l]) (l_Port l)
        \<and> ml_httpsFilterChains ?n = expectedHttps e rfg (ls @ [l]) (l_Port l)
        \<and> ml_TcpFilterChains ?n = expectedTcp e rfg (ls @ [l]) (l_Port l)"
      using ml by (simp add: expected_snoc_https[OF proto] expectedHttp_None
          getListenerPortNumber_def GenerateListenerName_def)
  qed
  then show ?thesis
    by (simp add: appendHttpsListener_def Let_def getListenerPortNumber_def split: option.splits)
qed

lemma AppendTcpListener_inv:
  assumes inv: "mergedAs e rfg ns st ls (mls_Listeners ml)"
    and ml: "mls_GatewayNamespace ml = ns" "mls_settings ml = st"
    and proto: "l_Protocol l = TCPProtocolType"
  shows "mergedAs e rfg ns st (ls @ [l])
           (mls_Listeners (AppendTcpListener e ml l (routesFor rfg l) (GetParentReporter_ListenerName l)))"
proof -
  let ?fc = "tcpChainOf e l (routesFor rfg l) (GetParentReporter_ListenerName l)"
  let ?f = "\<lambda>lis. lis\<lparr>ml_TcpFilterChains := ml_TcpFilterChains lis @ [?fc]\<rparr>"
  let ?n = "\<lparr>ml_name = GenerateListenerName l, ml_gatewayNamespace = mls_GatewayNamespace ml,
             ml_port = getListenerPortNumber l, ml_httpFilterChain = None,
             ml_httpsFilterChains = [], ml_TcpFilterChains = [?fc],
             ml_listenerReporter = GetParentReporter_ListenerName l, ml_listener = l,
             ml_gateway = mls_parentGw ml, ml_settings = mls_settings ml\<rparr>"
  have sup: "supported l" using proto by (simp add: supported_def)
  have "mergedAs e rfg ns st (ls @ [l])
          (case updateFirst (l_Port l) ?f (mls_Listeners ml) of Some ms' \<Rightarrow> ms' | None \<Rightarrow> mls_Listeners ml @ [?n])"
  proof (rule mergedAs_step[OF inv sup])
    fix m assume ok: "mergedOk e rfg ns st ls m" and "ml_port m = l_Port l"
    then show "ml_port (?f m) = ml_port m \<and> ml_name (?f m) = ml_name m
        \<and> ml_gatewayNamespace (?f m) = ml_gatewayNamespace m \<and> ml_settings (?f m) = ml_settings m
        \<and> ml_listener (?f m) = ml_listener m \<and> ml_listenerReporter (?f m) = ml_listenerReporter m
        \<and> ml_httpFilterChain (?f m) = expectedHttp e rfg (ls @ [l]) (l_Port l)
        \<and> ml_httpsFilterChains (?f m) = expectedHttps e rfg (ls @ [l]) (l_Port l)
        \<and> ml_TcpFilterChains (?f m) = expectedTcp e rfg (ls @ [l]) (l_Port l)"
      by (simp add: mergedOk_def expected_snoc_tcp[OF proto])
  next
    assume "listenersOn HTTPProtocolType (l_Port l) ls = []"
      "expectedHttps e rfg ls (l_Port l) = []" "expectedTcp e rfg ls (l_Port l) = []"
    then show "ml_port ?n = l_Port l \<and> ml_name ?n = GenerateListenerNameFromPort (l_Port l)
        \<and> ml_gatewayNamespace ?n = ns \<and> ml_settings ?n = st
        \<and> ml_listener ?n = l \<and> ml_listenerReporter ?n = GetParentReporter_ListenerName l
        \<and> ml_httpFilterChain ?n = expectedHttp e rfg (ls @ [l]) (l_Port l)
        \<and> ml_httpsFilterChains ?n = expectedHttps e rfg (ls @ [l]) (l_Port l)
        \<and> ml_TcpFilterChains ?n = expectedTcp e rfg (ls @ [l]) (l_Port l)"
      using ml by (simp add: expected_snoc_tcp[OF proto] expectedHttp_None
          getListenerPortNumber_def GenerateListenerName_def)
  qed
  then show ?thesis
    by (simp add: AppendTcpListener_def Let_def getListenerPortNumber_def split: option.splits)
qed

lemma AppendTlsListener_inv:
  assumes inv: "mergedAs e rfg ns st ls (mls_Listeners ml)"
    and ml: "mls_GatewayNamespace ml = ns" "mls_settings ml = st"
    and proto: "l_Protocol l = TLSProtocolType"
  shows "mergedAs e rfg ns st (ls @ [l])
           (mls_Listeners (AppendTlsListener e ml l (routesFor rfg l) (GetParentReporter_ListenerName l)))"
proof -
  let ?fc = "tlsChainOf e l (routesFor rfg l) (GetParentReporter_ListenerName l)"
  let ?f = "\<lambda>lis. lis\<lparr>ml_TcpFilterChains := ml_TcpFilterChains lis @ [?fc]\<rparr>"
  let ?n = "\<lparr>ml_name = GenerateListenerName l, ml_gatewayNamespace = mls_GatewayNamespace ml,
             ml_port = getListenerPortNumber l, ml_httpFilterChain = None,
             ml_httpsFilterChains = [], ml_TcpFilterChains = [?fc],
             ml_listenerReporter = GetParentReporter_ListenerName l, ml_listener = l,
             ml_gateway = zeroGateway, ml_settings = mls_settings ml\<rparr>"
  have sup: "supported l" using proto by (simp add: supported_def)
  have "mergedAs e rfg ns st (ls @ [l])
          (case updateFirst (l_Port l) ?f (mls_Listeners ml) of Some ms' \<Rightarrow> ms' | None \<Rightarrow> mls_Listeners ml @ [?n])"
  proof (rule mergedAs_step[OF inv sup])
    fix m assume ok: "mergedOk e rfg ns st ls m" and "ml_port m = l_Port l"
    then show "ml_port (?f m) = ml_port m \<and> ml_name (?f m) = ml_name m
        \<and> ml_gatewayNamespace (?f m) = ml_gatewayNamespace m \<and> ml_settings (?f m) = ml_settings m
        \<and> ml_listener (?f m) = ml_listener m \<and> ml_listenerReporter (?f m) = ml_listenerReporter m
        \<and> ml_httpFilterChain (?f m) = expectedHttp e rfg (ls @ [l]) (l_Port l)
        \<and> ml_httpsFilterChains (?f m) = expectedHttps e rfg (ls @ [l]) (l_Port l)
        \<and> ml_TcpFilterChains (?f m) = expectedTcp e rfg (ls @ [l]) (l_Port l)"
      by (simp add: mergedOk_def expected_snoc_tls[OF proto])
  next
    assume "listenersOn HTTPProtocolType (l_Port l) ls = []"
      "expectedHttps e rfg ls (l_Port l) = []" "expectedTcp e rfg ls (l_Port l) = []"
    then show "ml_port ?n = l_Port l \<and> ml_name ?n = GenerateListenerNameFromPort (l_Port l)
        \<and> ml_gatewayNamespace ?n = ns \<and> ml_settings ?n = st
        \<and> ml_listener ?n = l \<and> ml_listenerReporter ?n = GetParentReporter_ListenerName l
        \<and> ml_httpFilterChain ?n = expectedHttp e rfg (ls @ [l]) (l_Port l)
        \<and> ml_httpsFilterChains ?n = expectedHttps e rfg (ls @ [l]) (l_Port l)
        \<and> ml_TcpFilterChains ?n = expectedTcp e rfg (ls @ [l]) (l_Port l)"
      using ml by (simp add: expected_snoc_tls[OF proto] expectedHttp_None
          getListenerPortNumber_def GenerateListenerName_def)
  qed
  then show ?thesis
    by (simp add: AppendTlsListener_def Let_def getListenerPortNumber_def split: option.splits)
qed

lemma append_keeps_config:
  "mls_GatewayNamespace (appendHttpListener e ml l rs rep) = mls_GatewayNamespace ml"
  "mls_settings (appendHttpListener e ml l rs rep) = mls_settings ml"
  "mls_GatewayNamespace (appendHttpsListener e ml l rs rep) = mls_GatewayNamespace ml"
  "mls_settings (appendHttpsListener e ml l rs rep) = mls_settings ml"
  "mls_GatewayNamespace (AppendTcpListener e ml l rs rep) = mls_GatewayNamespace ml"
  "mls_settings (AppendTcpListener e ml l rs rep) = mls_settings ml"
  "mls_GatewayNamespace (AppendTlsListener e ml l rs rep) = mls_GatewayNamespace ml"
  "mls_settings (AppendTlsListener e ml l rs rep) = mls_settings ml"
  by (simp_all add: appendHttpListener_def appendHttpsListener_def AppendTcpListener_def
      AppendTlsListener_def Let_def split: option.splits)

lemma mergeStep_inv:
  assumes "mergedAs e rfg ns st ls (mls_Listeners ml)"
    and "mls_GatewayNamespace ml = ns" "mls_settings ml = st"
  shows "mergedAs e rfg ns st (ls @ [l]) (mls_Listeners (mergeStep e rfg ml l))
       \<and> mls_GatewayNamespace (mergeStep e rfg ml l) = ns
       \<and> mls_settings (mergeStep e rfg ml l) = st"
proof -
  consider "l_Protocol l = HTTPProtocolType" | "l_Protocol l = HTTPSProtocolType"
    | "l_Protocol l = TCPProtocolType" | "l_Protocol l = TLSProtocolType" | "\<not> supported l"
    unfolding supported_def by blast
  then show ?thesis
  proof cases
    case 1
    then show ?thesis
      using appendHttpListener_inv[OF assms 1] assms(2,3)
      by (simp add: mergeStep_def AppendListener_def Let_def append_keeps_config)
  next
    case 2
    then show ?thesis
      using appendHttpsListener_inv[OF assms 2] assms(2,3) protocols_distinct
      by (simp add: mergeStep_def AppendListener_def Let_def append_keeps_config)
  next
    case 3
    then show ?thesis
      using AppendTcpListener_inv[OF assms 3] assms(2,3) protocols_distinct
      by (simp add: mergeStep_def AppendListener_def Let_def append_keeps_config)
  next
    case 4
    then show ?thesis
      using AppendTlsListener_inv[OF assms 4] assms(2,3) protocols_distinct
      by (simp add: mergeStep_def AppendListener_def Let_def append_keeps_config)
  next
    case 5
    then show ?thesis
      using mergedAs_unsupported[OF assms(1) 5] assms(2,3)
      by (simp add: mergeStep_def AppendListener_def Let_def supported_def)
  qed
qed

lemma merge_fold_inv:
  "mergedAs e rfg ns st ls
     (mls_Listeners (foldl (mergeStep e rfg)
        \<lparr>mls_GatewayNamespace = ns, mls_parentGw = gw, mls_Listeners = [], mls_settings = st\<rparr> ls))
   \<and> mls_GatewayNamespace (foldl (mergeStep e rfg)
        \<lparr>mls_GatewayNamespace = ns, mls_parentGw = gw, mls_Listeners = [], mls_settings = st\<rparr> ls) = ns
   \<and> mls_settings (foldl (mergeStep e rfg)
        \<lparr>mls_GatewayNamespace = ns, mls_parentGw = gw, mls_Listeners = [], mls_settings = st\<rparr> ls) = st"
proof (induction ls rule: rev_induct)
  case Nil
  show ?case by (simp add: mergedAs_def)
next
  case (snoc l ls)
  let ?ml = "foldl (mergeStep e rfg)
        \<lparr>mls_GatewayNamespace = ns, mls_parentGw = gw, mls_Listeners = [], mls_settings = st\<rparr> ls"
  from snoc have a: "mergedAs e rfg ns st ls (mls_Listeners ?ml)"
    and b: "mls_GatewayNamespace ?ml = ns" and c: "mls_settings ?ml = st"
    by blast+
  from mergeStep_inv[OF a b c, of l] show ?case by simp
qed

lemma mergeGWListeners_mergedAs:
  "mergedAs e rfg ns st ls (mls_Listeners (mergeGWListeners e ns ls gw rfg st))"
  using merge_fold_inv[of e rfg ns st ls gw] by (simp add: mergeGWListeners_def)


section \<open>Properties of the virtual hosts\<close>

lemma keys_update_fold:
  "fst ` set (foldl (\<lambda>m host. AList.update host (g m host) m) m hs) = fst ` set m \<union> set hs"
  by (induction hs arbitrary: m) (auto simp: dom_update)

lemma distinct_update_fold:
  "distinct (map fst m) \<Longrightarrow> distinct (map fst (foldl (\<lambda>m host. AList.update host (g m host) m) m hs))"
  by (induction hs arbitrary: m) (auto simp: distinct_update)

lemma buildRoutesPerHost_keys:
  "fst ` set (buildRoutesPerHost e m rs) = fst ` set m \<union> bucketHosts e rs"
proof (induction rs arbitrary: m)
  case Nil
  show ?case by (simp add: bucketHosts_def)
next
  case (Cons r rs)
  have b: "bucketHosts e (r # rs) =
      (if TranslateGatewayHTTPRouteRules e r = [] then {} else set (hostnamesOf r)) \<union> bucketHosts e rs"
    by (auto simp: bucketHosts_def)
  show ?case
    unfolding b by (simp add: Cons.IH Let_def keys_update_fold Un_assoc)
qed

lemma buildRoutesPerHost_distinct:
  "distinct (map fst m) \<Longrightarrow> distinct (map fst (buildRoutesPerHost e m rs))"
  by (induction rs arbitrary: m) (simp_all add: Let_def distinct_update_fold)

lemma parents_fold_keys:
  "fst ` set (foldl (\<lambda>m parent. buildRoutesPerHost e m (hp_routesWithHosts parent)) m ps)
     = fst ` set m \<union> bucketHosts e (concat (map hp_routesWithHosts ps))"
proof (induction ps arbitrary: m)
  case Nil
  show ?case by (simp add: bucketHosts_def)
next
  case (Cons p ps)
  have "bucketHosts e (xs @ ys) = bucketHosts e xs \<union> bucketHosts e ys" for xs ys
    by (auto simp: bucketHosts_def)
  then show ?case by (simp add: Cons.IH buildRoutesPerHost_keys Un_assoc)
qed

lemma parents_fold_distinct:
  "distinct (map fst m) \<Longrightarrow>
   distinct (map fst (foldl (\<lambda>m parent. buildRoutesPerHost e m (hp_routesWithHosts parent)) m ps))"
  by (induction ps arbitrary: m) (simp_all add: buildRoutesPerHost_distinct)

lemma chainRoutesByHost_keys:
  "fst ` set (chainRoutesByHost e chain) = bucketHosts e (concat (map hp_routesWithHosts (parents chain)))"
  "distinct (map fst (chainRoutesByHost e chain))"
  by (simp_all add: chainRoutesByHost_def parents_fold_keys parents_fold_distinct)

lemma dedup_fold:
  assumes step: "\<And>N V x. step (N, V) x = (if nm x \<in> N then (N, V) else (insert (nm x) N, V @ [mk x]))"
    and nm: "\<And>x. vh_Name (mk x) = nm x"
  shows "N = set (map vh_Name V) \<Longrightarrow> distinct (map vh_Name V) \<Longrightarrow>
         fst (foldl step (N, V) es) = set (map vh_Name (snd (foldl step (N, V) es)))
       \<and> distinct (map vh_Name (snd (foldl step (N, V) es)))
       \<and> set (map vh_Name (snd (foldl step (N, V) es))) = N \<union> nm ` set es
       \<and> set (snd (foldl step (N, V) es)) \<subseteq> set V \<union> mk ` set es"
proof (induction es arbitrary: N V)
  case Nil
  then show ?case by simp
next
  case (Cons x es)
  show ?case
  proof (cases "nm x \<in> N")
    case True
    from Cons.IH[OF Cons.prems] True show ?thesis
      by (auto simp: step)
  next
    case False
    have a: "insert (nm x) N = set (map vh_Name (V @ [mk x]))"
      using Cons.prems(1) by (simp add: nm)
    have b: "distinct (map vh_Name (V @ [mk x]))"
      using Cons.prems False by (simp add: nm)
    from Cons.IH[OF a b] False show ?thesis
      by (auto simp: step)
  qed
qed

lemma httpVhostOf_name: "vh_Name (httpVhostOf e ps pn x) = makeVhostName e pn (fst x)"
  by (simp add: httpVhostOf_def Let_def split: prod.splits)

lemma httpVhostOf_host: "vh_Hostname (httpVhostOf e ps pn x) = fst x"
  by (simp add: httpVhostOf_def Let_def split: prod.splits)

lemma httpsVhostOf_name: "vh_Name (httpsVhostOf e pn x) = makeVhostName e pn (fst x)"
  by (simp add: httpsVhostOf_def Let_def split: prod.splits)

lemma httpsVhostOf_host: "vh_Hostname (httpsVhostOf e pn x) = fst x"
  by (simp add: httpsVhostOf_def Let_def split: prod.splits)

lemma http_fold:
  "fst (foldl (httpVhostStep e ps pn) ({}, []) es)
       = set (map vh_Name (snd (foldl (httpVhostStep e ps pn) ({}, []) es)))
   \<and> distinct (map vh_Name (snd (foldl (httpVhostStep e ps pn) ({}, []) es)))
   \<and> set (map vh_Name (snd (foldl (httpVhostStep e ps pn) ({}, []) es)))
       = {} \<union> (\<lambda>x. makeVhostName e pn (fst x)) ` set es
   \<and> set (snd (foldl (httpVhostStep e ps pn) ({}, []) es)) \<subseteq> set [] \<union> httpVhostOf e ps pn ` set es"
  by (rule dedup_fold) (simp_all add: httpVhostStep_def httpVhostOf_name)

lemma https_fold:
  "fst (foldl (httpsVhostStep e pn) ({}, []) es)
       = set (map vh_Name (snd (foldl (httpsVhostStep e pn) ({}, []) es)))
   \<and> distinct (map vh_Name (snd (foldl (httpsVhostStep e pn) ({}, []) es)))
   \<and> set (map vh_Name (snd (foldl (httpsVhostStep e pn) ({}, []) es)))
       = {} \<union> (\<lambda>x. makeVhostName e pn (fst x)) ` set es
   \<and> set (snd (foldl (httpsVhostStep e pn) ({}, []) es)) \<subseteq> set [] \<union> httpsVhostOf e pn ` set es"
  by (rule dedup_fold) (simp_all add: httpsVhostStep_def httpsVhostOf_name)

lemma sortSlice_props:
  "sorted (map vh_Name (sortSlice vs))" "mset (sortSlice vs) = mset vs" "set (sortSlice vs) = set vs"
  "distinct (map vh_Name (sortSlice vs)) = distinct (map vh_Name vs)"
  "length (sortSlice vs) = length vs"
proof -
  show "sorted (map vh_Name (sortSlice vs))" by (simp add: sortSlice_def)
  show m: "mset (sortSlice vs) = mset vs" by (simp add: sortSlice_def)
  show "set (sortSlice vs) = set vs" by (simp add: sortSlice_def)
  have "mset (map vh_Name (sortSlice vs)) = mset (map vh_Name vs)"
    using m by (metis mset_map)
  then show "distinct (map vh_Name (sortSlice vs)) = distinct (map vh_Name vs)"
    by (metis distinct_count_atmost_1 set_mset_mset)
  show "length (sortSlice vs) = length vs" by (simp add: sortSlice_def)
qed

lemma mset_eq_short: "mset xs = mset ys \<Longrightarrow> length xs \<le> 1 \<Longrightarrow> xs = ys"
proof (cases xs)
  case Nil
  assume "mset xs = mset ys"
  with Nil show ?thesis by simp
next
  case (Cons a as)
  assume m: "mset xs = mset ys" and "length xs \<le> 1"
  with Cons have xs: "xs = [a]" by simp
  with m have "mset ys = {#a#}" by simp
  then have "ys = [a]" by (simp add: mset_single_iff_right)
  with xs show ?thesis by simp
qed

text \<open>Any sorted arrangement of virtual hosts with pairwise distinct names is the one
  \<^const>\<open>sortSlice\<close> returns: for such lists it does not matter that \<^verbatim>\<open>sort.Slice\<close> is not stable.\<close>

lemma sortSlice_unique:
  assumes "mset ys = mset vs" "sorted (map vh_Name ys)" "distinct (map vh_Name vs)"
  shows "ys = sortSlice vs"
proof -
  have dy: "distinct (map vh_Name ys)"
    using assms(1,3) by (metis distinct_count_atmost_1 mset_map set_mset_mset)
  have "sort_key vh_Name vs = ys"
  proof (rule properties_for_sort_key[OF assms(1) _ assms(2)])
    fix k assume "k \<in> set ys"
    have inj: "inj_on vh_Name (set ys)" "inj_on vh_Name (set vs)"
      using dy assms(3) by (simp_all add: distinct_map)
    have "mset (filter (\<lambda>x. vh_Name k = vh_Name x) ys) = mset (filter (\<lambda>x. vh_Name k = vh_Name x) vs)"
      using assms(1) by (metis mset_filter)
    moreover have "length (filter (\<lambda>x. vh_Name k = vh_Name x) ys) \<le> 1"
      using dy by (induction ys) (auto simp: filter_empty_conv image_iff)
    ultimately show "filter (\<lambda>x. vh_Name k = vh_Name x) ys = filter (\<lambda>x. vh_Name k = vh_Name x) vs"
      by (rule mset_eq_short)
  qed
  then show ?thesis by (simp add: sortSlice_def)
qed

lemma rangeOk_set: "rangeOk e \<Longrightarrow> set (mapRange e m) = set m"
  by (metis rangeOk_def set_mset_mset)

lemma http_chain_vhosts:
  assumes "rangeOk e"
  shows "sorted (map vh_Name (hfc_Vhosts (translateHttpFilterChain e chain pn)))"
    and "distinct (map vh_Name (hfc_Vhosts (translateHttpFilterChain e chain pn)))"
    and "set (map vh_Name (hfc_Vhosts (translateHttpFilterChain e chain pn)))
          = makeVhostName e pn ` bucketHosts e (concat (map hp_routesWithHosts (parents chain)))"
    and "set (hfc_Vhosts (translateHttpFilterChain e chain pn))
          \<subseteq> httpVhostOf e (parents chain) pn ` set (chainRoutesByHost e chain)"
proof -
  let ?es = "mapRange e (chainRoutesByHost e chain)"
  let ?V = "snd (foldl (httpVhostStep e (parents chain) pn) ({}, []) ?es)"
  have v: "hfc_Vhosts (translateHttpFilterChain e chain pn) = sortSlice ?V"
    by (simp add: translateHttpFilterChain_def Let_def split: prod.splits)
  note f = http_fold[of e "parents chain" pn ?es]
  have s: "set ?es = set (chainRoutesByHost e chain)" using assms by (rule rangeOk_set)
  show "sorted (map vh_Name (hfc_Vhosts (translateHttpFilterChain e chain pn)))"
    unfolding v by (rule sortSlice_props)
  show "distinct (map vh_Name (hfc_Vhosts (translateHttpFilterChain e chain pn)))"
    unfolding v using f by (simp add: sortSlice_props)
  have "set (map vh_Name (sortSlice ?V)) = set (map vh_Name ?V)"
    by (simp add: sortSlice_props)
  also have "\<dots> = (\<lambda>x. makeVhostName e pn (fst x)) ` set ?es" using f by simp
  also have "\<dots> = makeVhostName e pn ` fst ` set (chainRoutesByHost e chain)"
    unfolding s by (simp add: image_image)
  finally show "set (map vh_Name (hfc_Vhosts (translateHttpFilterChain e chain pn)))
          = makeVhostName e pn ` bucketHosts e (concat (map hp_routesWithHosts (parents chain)))"
    unfolding v by (simp add: chainRoutesByHost_keys)
  show "set (hfc_Vhosts (translateHttpFilterChain e chain pn))
          \<subseteq> httpVhostOf e (parents chain) pn ` set (chainRoutesByHost e chain)"
    unfolding v using f s by (simp add: sortSlice_props)
qed


subsection \<open>The parent a virtual host takes its policies from\<close>

lemma hostnameLen_nonneg: "0 \<le> hostnameLen p"
  by (simp add: hostnameLen_def split: option.splits)

lemma findParent_char:
  "(\<not> (\<exists>p \<in> set ps. parentMatches host p \<and> n < hostnameLen p)
      \<longrightarrow> findParent host (a, r, n) ps = (a, r, n))
   \<and> ((\<exists>p \<in> set ps. parentMatches host p \<and> n < hostnameLen p)
      \<longrightarrow> (\<exists>pre p post. ps = pre @ p # post \<and> parentMatches host p \<and> n < hostnameLen p
            \<and> (\<forall>q \<in> set pre. parentMatches host q \<longrightarrow> hostnameLen q < hostnameLen p)
            \<and> (\<forall>q \<in> set post. parentMatches host q \<longrightarrow> hostnameLen q \<le> hostnameLen p)
            \<and> findParent host (a, r, n) ps = (hp_attachedPolicies p, hp_gatewayListener p, hostnameLen p)))"
proof (induction ps arbitrary: a r n)
  case Nil
  show ?case by simp
next
  case (Cons x xs)
  show ?case
  proof (cases "parentMatches host x \<and> n < hostnameLen x")
    case False
    then have step: "findParent host (a, r, n) (x # xs) = findParent host (a, r, n) xs"
      by (auto simp: parentMatches_def)
    have ex: "(\<exists>p \<in> set (x # xs). parentMatches host p \<and> n < hostnameLen p)
           \<longleftrightarrow> (\<exists>p \<in> set xs. parentMatches host p \<and> n < hostnameLen p)"
      using False by auto
    show ?thesis
    proof (cases "\<exists>p \<in> set xs. parentMatches host p \<and> n < hostnameLen p")
      case f: False
      from f ex have nex: "\<not> (\<exists>p \<in> set (x # xs). parentMatches host p \<and> n < hostnameLen p)"
        by blast
      from Cons.IH[where a=a and r=r and n=n] f
      have "findParent host (a, r, n) xs = (a, r, n)" by blast
      with step have "findParent host (a, r, n) (x # xs) = (a, r, n)" by (simp only:)
      with nex show ?thesis by blast
    next
      case t: True
      with Cons.IH[where a=a and r=r and n=n] obtain pre p post where
        s: "xs = pre @ p # post" and m: "parentMatches host p" "n < hostnameLen p"
        and pre: "\<forall>q \<in> set pre. parentMatches host q \<longrightarrow> hostnameLen q < hostnameLen p"
        and post: "\<forall>q \<in> set post. parentMatches host q \<longrightarrow> hostnameLen q \<le> hostnameLen p"
        and res: "findParent host (a, r, n) xs = (hp_attachedPolicies p, hp_gatewayListener p, hostnameLen p)"
        by blast
      have sp: "x # xs = (x # pre) @ p # post" using s by simp
      have pre': "\<forall>q \<in> set (x # pre). parentMatches host q \<longrightarrow> hostnameLen q < hostnameLen p"
        using pre False m by auto
      have res': "findParent host (a, r, n) (x # xs)
          = (hp_attachedPolicies p, hp_gatewayListener p, hostnameLen p)"
        using res step by (simp only:)
      from sp m pre' post res' ex t show ?thesis by blast
    qed
  next
    case True
    then have step: "findParent host (a, r, n) (x # xs)
        = findParent host (hp_attachedPolicies x, hp_gatewayListener x, hostnameLen x) xs"
      by (auto simp: parentMatches_def)
    have ex: "\<exists>p \<in> set (x # xs). parentMatches host p \<and> n < hostnameLen p" using True by auto
    show ?thesis
    proof (cases "\<exists>p \<in> set xs. parentMatches host p \<and> hostnameLen x < hostnameLen p")
      case f: False
      from Cons.IH[where a="hp_attachedPolicies x" and r="hp_gatewayListener x" and n="hostnameLen x"] f
      have "findParent host (hp_attachedPolicies x, hp_gatewayListener x, hostnameLen x) xs
          = (hp_attachedPolicies x, hp_gatewayListener x, hostnameLen x)" by blast
      with step have res: "findParent host (a, r, n) (x # xs)
          = (hp_attachedPolicies x, hp_gatewayListener x, hostnameLen x)"
        by (simp only:)
      have sp: "x # xs = [] @ x # xs" by simp
      have post: "\<forall>q \<in> set xs. parentMatches host q \<longrightarrow> hostnameLen q \<le> hostnameLen x"
        using f by auto
      have pre: "\<forall>q \<in> set []. parentMatches host q \<longrightarrow> hostnameLen q < hostnameLen x" by simp
      from sp pre post True res ex show ?thesis by blast
    next
      case t: True
      with Cons.IH[where a="hp_attachedPolicies x" and r="hp_gatewayListener x" and n="hostnameLen x"]
      obtain pre p post where
        s: "xs = pre @ p # post" and m: "parentMatches host p" "hostnameLen x < hostnameLen p"
        and pre: "\<forall>q \<in> set pre. parentMatches host q \<longrightarrow> hostnameLen q < hostnameLen p"
        and post: "\<forall>q \<in> set post. parentMatches host q \<longrightarrow> hostnameLen q \<le> hostnameLen p"
        and res: "findParent host (hp_attachedPolicies x, hp_gatewayListener x, hostnameLen x) xs
                    = (hp_attachedPolicies p, hp_gatewayListener p, hostnameLen p)"
        by blast
      have sp: "x # xs = (x # pre) @ p # post" using s by simp
      have pre': "\<forall>q \<in> set (x # pre). parentMatches host q \<longrightarrow> hostnameLen q < hostnameLen p"
        using pre m by auto
      have n: "n < hostnameLen p" using True m by simp
      have res': "findParent host (a, r, n) (x # xs)
          = (hp_attachedPolicies p, hp_gatewayListener p, hostnameLen p)"
        using res step by (simp only:)
      from sp m(1) n pre' post res' ex show ?thesis by blast
    qed
  qed
qed

lemma findParent_best:
  assumes "\<exists>p \<in> set ps. parentMatches host p"
  shows "\<exists>pre p post. ps = pre @ p # post \<and> parentMatches host p
            \<and> (\<forall>q \<in> set pre. parentMatches host q \<longrightarrow> hostnameLen q < hostnameLen p)
            \<and> (\<forall>q \<in> set post. parentMatches host q \<longrightarrow> hostnameLen q \<le> hostnameLen p)
            \<and> findParent host ([], zeroListener, - 1) ps
                = (hp_attachedPolicies p, hp_gatewayListener p, hostnameLen p)"
proof -
  from assms have "\<exists>p \<in> set ps. parentMatches host p \<and> - 1 < hostnameLen p"
    using hostnameLen_nonneg by (smt (verit))
  with findParent_char[where ps=ps and host=host and n="- 1" and a="[]" and r=zeroListener] show ?thesis by blast
qed

lemma findParent_none:
  assumes "\<not> (\<exists>p \<in> set ps. parentMatches host p)"
  shows "findParent host ([], zeroListener, - 1) ps = ([], zeroListener, - 1)"
  using findParent_char[where ps=ps and host=host and n="- 1" and a="[]" and r=zeroListener] assms by blast

lemma isHostContained_char:
  "isHostContained host None"
  "isHostContained host (Some lh) \<longleftrightarrow>
     host = lh \<or> (\<exists>suffix pre. lh = ''*.'' @ suffix \<and> host = pre @ ''.'' @ suffix)"
proof -
  show "isHostContained host None" by (simp add: isHostContained_def)
  have p: "HasPrefix lh ''*.'' \<longleftrightarrow> (\<exists>suffix. lh = ''*.'' @ suffix)"
  proof
    assume "HasPrefix lh ''*.''"
    then have "take (length ''*.'') lh = ''*.''" unfolding HasPrefix_def by blast
    then have "lh = ''*.'' @ drop (length ''*.'') lh" by (metis append_take_drop_id)
    then show "\<exists>suffix. lh = ''*.'' @ suffix" ..
  next
    assume "\<exists>suffix. lh = ''*.'' @ suffix"
    then show "HasPrefix lh ''*.''" by (auto simp: HasPrefix_def)
  qed
  have s: "HasSuffix host suf \<longleftrightarrow> (\<exists>pre. host = pre @ suf)" for suf
  proof
    assume "HasSuffix host suf"
    then have "host = take (length host - length suf) host @ suf"
      by (metis HasSuffix_def append_take_drop_id)
    then show "\<exists>pre. host = pre @ suf" ..
  next
    assume "\<exists>pre. host = pre @ suf"
    then show "HasSuffix host suf" by (auto simp: HasSuffix_def)
  qed
  show "isHostContained host (Some lh) \<longleftrightarrow>
     host = lh \<or> (\<exists>suffix pre. lh = ''*.'' @ suffix \<and> host = pre @ ''.'' @ suffix)"
    unfolding isHostContained_def option.case p s by auto
qed


section \<open>Evaluation of the examples\<close>

lemmas ex_http_defs = exEnv_def exListener_def exHttpRoute_def exSource_def exWildListener_def
  exExactListener_def exPolicyChain_def exPolicyVhost_def httpParentOf_def sanitizeDots_def
  exHttpGateway_def exHttpRoutes_def exSettings_def

lemmas http_eval = translateHttpFilterChain_def chainRoutesByHost_def hostnamesOf_def bucket_def
  ToSortable_def ToRoutes_def httpVhostStep_def httpVhostOf_def makeVhostName_def hostnameLen_def
  isHostContained_def HasPrefix_def HasSuffix_def sortSlice_def zeroMatcher_def zeroListener_def Let_def

lemmas merge_eval = TranslateListeners_def mergeGWListeners_def mergeStep_def routesFor_def
  AppendListener_def appendHttpListener_def appendHttpsListener_def AppendTcpListener_def
  AppendTlsListener_def httpsChainOf_def tcpChainOf_def tlsChainOf_def
  GetParentReporter_ListenerName_def getListenerPortNumber_def GenerateListenerName_def
  HTTPProtocolType_def HTTPSProtocolType_def TCPProtocolType_def TLSProtocolType_def
  translateListeners_def TranslateListener_def emptyTLSConfig_def

lemma name80: "GenerateListenerNameFromPort 80 = ''listener~80''"
  by (simp add: GenerateListenerNameFromPort_def showInt_def showNat.simps[of 80] showNat.simps[of 8] digitChar_def)

section \<open>Policy attribution of a virtual host\<close>

lemma http_vhost_origin:
  assumes "vh \<in> set (hfc_Vhosts (translateHttpFilterChain e chain pn))"
  shows "\<exists>routes. vh = httpVhostOf e (parents chain) pn (vh_Hostname vh, routes)"
proof -
  let ?es = "mapRange e (chainRoutesByHost e chain)"
  let ?V = "snd (foldl (httpVhostStep e (parents chain) pn) ({}, []) ?es)"
  have v: "hfc_Vhosts (translateHttpFilterChain e chain pn) = sortSlice ?V"
    by (simp add: translateHttpFilterChain_def Let_def split: prod.splits)
  from assms have "vh \<in> set ?V" unfolding v by (simp add: sortSlice_props)
  with http_fold[of e "parents chain" pn ?es]
  obtain x where "vh = httpVhostOf e (parents chain) pn x" by auto
  then have "vh = httpVhostOf e (parents chain) pn (vh_Hostname vh, snd x)"
    by (simp add: httpVhostOf_host)
  then show ?thesis ..
qed

text \<open>
  C4: a virtual host of the plaintext chain whose host is matched by some parent listener
  carries the attached policies and the listener of one parent \<open>p\<close> that matches the host,
  whose hostname is strictly longer than that of every matching parent before it and at
  least as long as that of every matching parent after it: the greatest length wins, and
  among equal lengths the earliest parent. Matching is: no listener hostname, or equality,
  or a listener hostname \<^verbatim>\<open>*.suffix\<close> and a host ending in \<^verbatim>\<open>.suffix\<close>; the length of no
  hostname is 0.
\<close>

theorem vhost_policy_attribution:
  assumes "vh \<in> set (hfc_Vhosts (translateHttpFilterChain e chain pn))"
    and "\<exists>p \<in> set (parents chain). parentMatches (vh_Hostname vh) p"
  shows "(\<exists>pre p post. parents chain = pre @ p # post
            \<and> parentMatches (vh_Hostname vh) p
            \<and> (\<forall>q \<in> set pre. parentMatches (vh_Hostname vh) q \<longrightarrow> hostnameLen q < hostnameLen p)
            \<and> (\<forall>q \<in> set post. parentMatches (vh_Hostname vh) q \<longrightarrow> hostnameLen q \<le> hostnameLen p)
            \<and> vh_AttachedPolicies vh = hp_attachedPolicies p
            \<and> vh_ParentRef vh = hp_gatewayListener p)
    \<and> (\<forall>host q. parentMatches host q \<longleftrightarrow>
          (case l_Hostname (hp_gatewayListener q) of
             None \<Rightarrow> True
           | Some lh \<Rightarrow> host = lh \<or> (\<exists>suffix pre. lh = ''*.'' @ suffix \<and> host = pre @ ''.'' @ suffix)))
    \<and> (\<forall>q. hostnameLen q =
          (case l_Hostname (hp_gatewayListener q) of None \<Rightarrow> 0 | Some lh \<Rightarrow> int (length lh)))"
proof (intro conjI allI)
  from http_vhost_origin[OF assms(1)] obtain routes where
    vh: "vh = httpVhostOf e (parents chain) pn (vh_Hostname vh, routes)" ..
  from findParent_best[OF assms(2)] obtain pre p post where
    s: "parents chain = pre @ p # post" and m: "parentMatches (vh_Hostname vh) p"
    and pre: "\<forall>q \<in> set pre. parentMatches (vh_Hostname vh) q \<longrightarrow> hostnameLen q < hostnameLen p"
    and post: "\<forall>q \<in> set post. parentMatches (vh_Hostname vh) q \<longrightarrow> hostnameLen q \<le> hostnameLen p"
    and f: "findParent (vh_Hostname vh) ([], zeroListener, - 1) (parents chain)
                = (hp_attachedPolicies p, hp_gatewayListener p, hostnameLen p)"
    by blast
  have "vh_AttachedPolicies (httpVhostOf e (parents chain) pn (vh_Hostname vh, routes)) = hp_attachedPolicies p"
    "vh_ParentRef (httpVhostOf e (parents chain) pn (vh_Hostname vh, routes)) = hp_gatewayListener p"
    by (simp_all add: httpVhostOf_def f)
  with vh have "vh_AttachedPolicies vh = hp_attachedPolicies p" "vh_ParentRef vh = hp_gatewayListener p"
    by simp_all
  with s m pre post show "\<exists>pre p post. parents chain = pre @ p # post
            \<and> parentMatches (vh_Hostname vh) p
            \<and> (\<forall>q \<in> set pre. parentMatches (vh_Hostname vh) q \<longrightarrow> hostnameLen q < hostnameLen p)
            \<and> (\<forall>q \<in> set post. parentMatches (vh_Hostname vh) q \<longrightarrow> hostnameLen q \<le> hostnameLen p)
            \<and> vh_AttachedPolicies vh = hp_attachedPolicies p
            \<and> vh_ParentRef vh = hp_gatewayListener p"
    by blast
next
  fix host q
  show "parentMatches host q \<longleftrightarrow>
          (case l_Hostname (hp_gatewayListener q) of
             None \<Rightarrow> True
           | Some lh \<Rightarrow> host = lh \<or> (\<exists>suffix pre. lh = ''*.'' @ suffix \<and> host = pre @ ''.'' @ suffix))"
    unfolding parentMatches_def
    by (cases "l_Hostname (hp_gatewayListener q)") (simp_all only: isHostContained_char option.case)
next
  fix q
  show "hostnameLen q =
          (case l_Hostname (hp_gatewayListener q) of None \<Rightarrow> 0 | Some lh \<Rightarrow> int (length lh))"
    by (simp add: hostnameLen_def)
qed

text \<open>The host \<^verbatim>\<open>api.example.com\<close> with the candidates \<^verbatim>\<open>*.example.com\<close> and
  \<^verbatim>\<open>api.example.com\<close>: both match, the exact one is adopted.\<close>

lemma ex_policy_chain:
  "hfc_Vhosts (translateHttpFilterChain (exEnv id) exPolicyChain ''listener~80'') = [exPolicyVhost]"
  by (simp add: http_eval ex_http_defs)

theorem vhost_policy_attribution_witness:
  "hfc_Vhosts (translateHttpFilterChain (exEnv id) exPolicyChain ''listener~80'') = [exPolicyVhost]
   \<and> vh_Hostname exPolicyVhost = ''api.example.com''
   \<and> map (l_Hostname \<circ> hp_gatewayListener) (parents exPolicyChain)
        = [Some ''*.example.com'', Some ''api.example.com'']
   \<and> parentMatches ''api.example.com'' (parents exPolicyChain ! 0)
   \<and> parentMatches ''api.example.com'' (parents exPolicyChain ! 1)
   \<and> (\<exists>pre p post. parents exPolicyChain = pre @ p # post
            \<and> parentMatches (vh_Hostname exPolicyVhost) p
            \<and> (\<forall>q \<in> set pre. parentMatches (vh_Hostname exPolicyVhost) q \<longrightarrow> hostnameLen q < hostnameLen p)
            \<and> (\<forall>q \<in> set post. parentMatches (vh_Hostname exPolicyVhost) q \<longrightarrow> hostnameLen q \<le> hostnameLen p)
            \<and> vh_AttachedPolicies exPolicyVhost = hp_attachedPolicies p
            \<and> vh_ParentRef exPolicyVhost = hp_gatewayListener p)
   \<and> vh_AttachedPolicies exPolicyVhost = [''exact-policy'']
   \<and> vh_ParentRef exPolicyVhost = exExactListener"
proof -
  have a: "exPolicyVhost \<in> set (hfc_Vhosts (translateHttpFilterChain (exEnv id) exPolicyChain ''listener~80''))"
    by (simp add: ex_policy_chain)
  have m0: "parentMatches ''api.example.com'' (parents exPolicyChain ! 0)"
    and m1: "parentMatches ''api.example.com'' (parents exPolicyChain ! 1)"
    by (simp_all add: parentMatches_def isHostContained_def HasPrefix_def HasSuffix_def ex_http_defs)
  have h: "vh_Hostname exPolicyVhost = ''api.example.com''" by (simp add: exPolicyVhost_def)
  have b: "\<exists>p \<in> set (parents exPolicyChain). parentMatches (vh_Hostname exPolicyVhost) p"
    unfolding h
  proof
    show "parents exPolicyChain ! 0 \<in> set (parents exPolicyChain)" by (simp add: exPolicyChain_def)
    show "parentMatches ''api.example.com'' (parents exPolicyChain ! 0)" by (rule m0)
  qed
  have c: "map (l_Hostname \<circ> hp_gatewayListener) (parents exPolicyChain)
        = [Some ''*.example.com'', Some ''api.example.com'']"
    by (simp add: ex_http_defs)
  have d: "vh_AttachedPolicies exPolicyVhost = [''exact-policy'']" "vh_ParentRef exPolicyVhost = exExactListener"
    by (simp_all add: exPolicyVhost_def)
  from vhost_policy_attribution[OF a b] ex_policy_chain h c m0 m1 d show ?thesis by blast
qed


section \<open>Plaintext listeners of one port\<close>

lemma filter_port_single:
  "distinct (map ml_port ms) \<Longrightarrow> m \<in> set ms \<Longrightarrow> filter (\<lambda>m'. ml_port m' = ml_port m) ms = [m]"
proof (induction ms)
  case Nil
  then show ?case by simp
next
  case (Cons a ms)
  show ?case
  proof (cases "a = m")
    case True
    with Cons.prems have "ml_port m \<notin> ml_port ` set ms" by auto
    then have "filter (\<lambda>m'. ml_port m' = ml_port m) ms = []"
      unfolding filter_empty_conv by (metis imageI)
    with True show ?thesis by simp
  next
    case False
    with Cons.prems have m: "m \<in> set ms" and "ml_port a \<noteq> ml_port m" by auto
    with Cons show ?thesis by simp
  qed
qed

lemma merged_on_port:
  assumes "l \<in> set ls" "supported l"
  shows "\<exists>m. filter (\<lambda>m'. ml_port m' = l_Port l) (mls_Listeners (mergeGWListeners e ns ls gw rfg st)) = [m]
           \<and> ml_port m = l_Port l \<and> mergedOk e rfg ns st ls m"
proof -
  let ?ms = "mls_Listeners (mergeGWListeners e ns ls gw rfg st)"
  have inv: "mergedAs e rfg ns st ls ?ms" by (rule mergeGWListeners_mergedAs)
  then have d: "distinct (map ml_port ?ms)"
    and p: "set (map ml_port ?ms) = l_Port ` {l \<in> set ls. supported l}"
    and ok: "list_all (mergedOk e rfg ns st ls) ?ms"
    by (simp_all add: mergedAs_def)
  from assms p have "l_Port l \<in> set (map ml_port ?ms)" by blast
  then obtain m where m: "m \<in> set ?ms" "ml_port m = l_Port l" by auto
  from filter_port_single[OF d m(1)] m(2)
  have "filter (\<lambda>m'. ml_port m' = l_Port l) ?ms = [m]" by simp
  moreover from ok m(1) have "mergedOk e rfg ns st ls m" by (simp add: list_all_iff)
  ultimately show ?thesis using m(2) by blast
qed

lemma http_chain_vhosts_hosts:
  assumes "rangeOk e" "vh \<in> set (hfc_Vhosts (translateHttpFilterChain e chain pn))"
  shows "vh_Hostname vh \<in> bucketHosts e (concat (map hp_routesWithHosts (parents chain)))"
    and "vh_Name vh = makeVhostName e pn (vh_Hostname vh)"
proof -
  from http_chain_vhosts(4)[OF assms(1)] assms(2)
  obtain x where x: "x \<in> set (chainRoutesByHost e chain)" "vh = httpVhostOf e (parents chain) pn x"
    by blast
  then have "vh_Hostname vh = fst x" by (simp add: httpVhostOf_host)
  moreover have "fst x \<in> fst ` set (chainRoutesByHost e chain)" using x(1) by simp
  ultimately show "vh_Hostname vh \<in> bucketHosts e (concat (map hp_routesWithHosts (parents chain)))"
    by (simp add: chainRoutesByHost_keys)
  show "vh_Name vh = makeVhostName e pn (vh_Hostname vh)"
    using x(2) by (simp add: httpVhostOf_host httpVhostOf_name)
qed

lemma TranslateListener_http:
  "lir_HttpFilterChain (fst (TranslateListener e m))
     = (case ml_httpFilterChain m of None \<Rightarrow> [] | Some c \<Rightarrow> [translateHttpFilterChain e c (ml_name m)])
       @ fst (translateHttpsChains e m (ml_httpsFilterChains m))"
  by (simp add: TranslateListener_def Let_def split: prod.splits)

lemma hp_routes_httpParentOf: "hp_routesWithHosts (httpParentOf e l rs) = rs"
  by (simp add: httpParentOf_def)

text \<open>
  C1: when the listeners \<open>ls\<close> appended in order contain a plaintext HTTP listener on port
  \<open>p\<close>, exactly one merged listener has that port; it holds one HTTP filter chain whose
  parents are the HTTP listeners of the port in order (each later one appended to the
  chain); that chain is translated to the single plaintext chain of the output; and its
  virtual hosts are sorted by name, have pairwise distinct names, and their names are
  exactly the sanitized names of the hosts that received a bucket, one virtual host per
  distinct name.
\<close>

theorem http_listeners_share_one_chain:
  assumes "rangeOk e"
    and "listenersOn HTTPProtocolType p ls \<noteq> []"
  shows "\<exists>m chain.
       filter (\<lambda>m'. ml_port m' = p) (mls_Listeners (mergeGWListeners e ns ls gw rfg st)) = [m]
     \<and> ml_httpFilterChain m = Some chain
     \<and> parents chain = map (\<lambda>l. httpParentOf e l (routesFor rfg l)) (listenersOn HTTPProtocolType p ls)
     \<and> lir_HttpFilterChain (fst (TranslateListener e m))
         = translateHttpFilterChain e chain (ml_name m) # fst (translateHttpsChains e m (ml_httpsFilterChains m))
     \<and> sorted (map vh_Name (hfc_Vhosts (translateHttpFilterChain e chain (ml_name m))))
     \<and> distinct (map vh_Name (hfc_Vhosts (translateHttpFilterChain e chain (ml_name m))))
     \<and> set (map vh_Name (hfc_Vhosts (translateHttpFilterChain e chain (ml_name m))))
         = makeVhostName e (ml_name m) `
             bucketHosts e (concat (map (routesFor rfg) (listenersOn HTTPProtocolType p ls)))
     \<and> length (hfc_Vhosts (translateHttpFilterChain e chain (ml_name m)))
         = card (makeVhostName e (ml_name m) `
             bucketHosts e (concat (map (routesFor rfg) (listenersOn HTTPProtocolType p ls))))
     \<and> (\<forall>vh \<in> set (hfc_Vhosts (translateHttpFilterChain e chain (ml_name m))).
           vh_Hostname vh \<in> bucketHosts e (concat (map (routesFor rfg) (listenersOn HTTPProtocolType p ls)))
         \<and> vh_Name vh = makeVhostName e (ml_name m) (vh_Hostname vh))"
proof -
  let ?hs = "listenersOn HTTPProtocolType p ls"
  from assms(2) obtain l where l: "l \<in> set ?hs" by (cases ?hs) auto
  then have lin: "l \<in> set ls" and lp: "l_Port l = p" and sup: "supported l"
    by (auto simp: listenersOn_def supported_def)
  from merged_on_port[OF lin sup, of e ns gw rfg st] lp obtain m where
    f: "filter (\<lambda>m'. ml_port m' = p) (mls_Listeners (mergeGWListeners e ns ls gw rfg st)) = [m]"
    and mp: "ml_port m = p" and ok: "mergedOk e rfg ns st ls m"
    by blast
  let ?chain = "\<lparr>parents = map (\<lambda>l. httpParentOf e l (routesFor rfg l)) ?hs\<rparr>"
  let ?ir = "translateHttpFilterChain e ?chain (ml_name m)"
  let ?hosts = "bucketHosts e (concat (map (routesFor rfg) ?hs))"
  from ok mp assms(2) have c: "ml_httpFilterChain m = Some ?chain"
    by (simp add: mergedOk_def expectedHttp_def)
  have routes: "concat (map hp_routesWithHosts (parents ?chain)) = concat (map (routesFor rfg) ?hs)"
    by (simp add: comp_def hp_routes_httpParentOf)
  have t: "lir_HttpFilterChain (fst (TranslateListener e m))
         = ?ir # fst (translateHttpsChains e m (ml_httpsFilterChains m))"
    by (simp add: TranslateListener_http c)
  note v = http_chain_vhosts[OF assms(1), of ?chain "ml_name m"]
  have s: "sorted (map vh_Name (hfc_Vhosts ?ir))" by (rule v(1))
  have d: "distinct (map vh_Name (hfc_Vhosts ?ir))" by (rule v(2))
  have n: "set (map vh_Name (hfc_Vhosts ?ir)) = makeVhostName e (ml_name m) ` ?hosts"
    using v(3) unfolding routes .
  have "length (hfc_Vhosts ?ir) = length (map vh_Name (hfc_Vhosts ?ir))" by simp
  also have "\<dots> = card (set (map vh_Name (hfc_Vhosts ?ir)))"
    using d by (simp only: distinct_card)
  finally have len: "length (hfc_Vhosts ?ir) = card (makeVhostName e (ml_name m) ` ?hosts)"
    unfolding n .
  have each: "\<forall>vh \<in> set (hfc_Vhosts ?ir).
           vh_Hostname vh \<in> ?hosts \<and> vh_Name vh = makeVhostName e (ml_name m) (vh_Hostname vh)"
    using http_chain_vhosts_hosts[OF assms(1), of _ ?chain "ml_name m"] unfolding routes by blast
  have p: "parents ?chain = map (\<lambda>l. httpParentOf e l (routesFor rfg l)) ?hs" by simp
  from f c p t s d n len each show ?thesis by blast
qed


lemma rangeOk_ex: "rangeOk (exEnv id)" "rangeOk (exEnv rev)"
  by (simp_all add: rangeOk_def exEnv_def)

lemma ex_http_gateway_vhosts:
  "map (map vh_Name \<circ> hfc_Vhosts) (lir_HttpFilterChain (hd (fst
     (TranslateListeners (exEnv rev) exHttpGateway exHttpRoutes exSettings))))
   = [[''listener~80~a_example_com'', ''listener~80~b_example_com'', ''listener~80~c_example_com'']]"
  by (simp add: merge_eval http_eval ex_http_defs name80)

theorem http_listeners_share_one_chain_witness:
  "rangeOk (exEnv rev)
   \<and> length (listenersOn HTTPProtocolType 80 (gw_Listeners exHttpGateway)) = 2
   \<and> (\<exists>m chain.
       filter (\<lambda>m'. ml_port m' = 80)
         (mls_Listeners (mergeGWListeners (exEnv rev) ''default'' (gw_Listeners exHttpGateway)
            exHttpGateway exHttpRoutes exSettings)) = [m]
     \<and> ml_httpFilterChain m = Some chain
     \<and> parents chain = map (\<lambda>l. httpParentOf (exEnv rev) l (routesFor exHttpRoutes l))
                          (listenersOn HTTPProtocolType 80 (gw_Listeners exHttpGateway))
     \<and> lir_HttpFilterChain (fst (TranslateListener (exEnv rev) m))
         = translateHttpFilterChain (exEnv rev) chain (ml_name m)
           # fst (translateHttpsChains (exEnv rev) m (ml_httpsFilterChains m))
     \<and> sorted (map vh_Name (hfc_Vhosts (translateHttpFilterChain (exEnv rev) chain (ml_name m))))
     \<and> distinct (map vh_Name (hfc_Vhosts (translateHttpFilterChain (exEnv rev) chain (ml_name m))))
     \<and> length (hfc_Vhosts (translateHttpFilterChain (exEnv rev) chain (ml_name m)))
         = card (makeVhostName (exEnv rev) (ml_name m) `
             bucketHosts (exEnv rev) (concat (map (routesFor exHttpRoutes)
               (listenersOn HTTPProtocolType 80 (gw_Listeners exHttpGateway))))))
   \<and> map (map vh_Name \<circ> hfc_Vhosts) (lir_HttpFilterChain (hd (fst
        (TranslateListeners (exEnv rev) exHttpGateway exHttpRoutes exSettings))))
      = [[''listener~80~a_example_com'', ''listener~80~b_example_com'', ''listener~80~c_example_com'']]"
proof -
  have n: "length (listenersOn HTTPProtocolType 80 (gw_Listeners exHttpGateway)) = 2"
    by (simp add: listenersOn_def exHttpGateway_def exListener_def HTTPProtocolType_def)
  then have ne: "listenersOn HTTPProtocolType 80 (gw_Listeners exHttpGateway) \<noteq> []" by auto
  from http_listeners_share_one_chain[OF rangeOk_ex(2) ne, of "''default''" exHttpGateway exHttpRoutes exSettings]
    rangeOk_ex(2) n ex_http_gateway_vhosts
  show ?thesis by blast
qed


section \<open>HTTPS listeners of one port\<close>

lemma https_chain_ok:
  assumes "translateSslConfig e ns (hs_tls c) = Inr b"
  shows "\<exists>vhs. translateHttpsFilterChain e c pn ns rep =
           (Inr \<lparr>hfc_FilterChainCommon = \<lparr>FilterChainName = pn,
                    Matcher = (case hs_sniDomain c of None \<Rightarrow> zeroMatcher | Some d \<Rightarrow> \<lparr>SniDomains = [d]\<rparr>),
                    TLS = b\<rparr>,
                  hfc_AttachedPolicies = hs_attachedPolicies c, hfc_Vhosts = vhs\<rparr>, [])"
  using assms by (simp add: translateHttpsFilterChain_def Let_def split: prod.splits)

lemma https_chain_failed:
  assumes "translateSslConfig e ns (hs_tls c) = Inl err"
  shows "translateHttpsFilterChain e c pn ns rep =
           (Inl err,
            [ListenerSetCondition rep
               \<lparr>lc_Type = ListenerConditionResolvedRefs, lc_Status = ConditionFalse,
                lc_Reason = tlsErrorReason err, lc_Message = tlsErrorMessage err\<rparr>,
             ListenerSetCondition rep
               \<lparr>lc_Type = ListenerConditionProgrammed, lc_Status = ConditionFalse,
                lc_Reason = ListenerReasonInvalid, lc_Message = tlsErrorMessage err\<rparr>])"
  using assms by (simp add: translateHttpsFilterChain_def Let_def split: prod.splits)

lemma translateHttpsChains_Cons:
  "translateHttpsChains e m (c # cs) =
     (case fst (translateHttpsFilterChain e c (hs_gatewayListenerName c) (ml_gatewayNamespace m)
                  (ml_listenerReporter m)) of
        Inl err \<Rightarrow> fst (translateHttpsChains e m cs)
      | Inr x \<Rightarrow> x # fst (translateHttpsChains e m cs),
      snd (translateHttpsFilterChain e c (hs_gatewayListenerName c) (ml_gatewayNamespace m)
             (ml_listenerReporter m))
      @ snd (translateHttpsChains e m cs))"
  by (simp add: Let_def split: prod.splits sum.splits)

lemma https_chain_ok_fst:
  assumes "translateSslConfig e ns (hs_tls c) = Inr b"
  shows "\<exists>x. fst (translateHttpsFilterChain e c pn ns rep) = Inr x
           \<and> Matcher (hfc_FilterChainCommon x)
               = (case hs_sniDomain c of None \<Rightarrow> zeroMatcher | Some d \<Rightarrow> \<lparr>SniDomains = [d]\<rparr>)
           \<and> FilterChainName (hfc_FilterChainCommon x) = pn
           \<and> TLS (hfc_FilterChainCommon x) = b
           \<and> hfc_AttachedPolicies x = hs_attachedPolicies c"
    and "snd (translateHttpsFilterChain e c pn ns rep) = []"
  using https_chain_ok[OF assms, of pn rep] by auto

lemma https_chains_all_ok:
  assumes "\<forall>c \<in> set cs. \<not> isl (translateSslConfig e (ml_gatewayNamespace m) (hs_tls c))"
  shows "map (\<lambda>x. Matcher (hfc_FilterChainCommon x)) (fst (translateHttpsChains e m cs))
           = map (\<lambda>c. case hs_sniDomain c of None \<Rightarrow> zeroMatcher | Some d \<Rightarrow> \<lparr>SniDomains = [d]\<rparr>) cs
       \<and> map (\<lambda>x. FilterChainName (hfc_FilterChainCommon x)) (fst (translateHttpsChains e m cs))
           = map hs_gatewayListenerName cs
       \<and> snd (translateHttpsChains e m cs) = []"
  using assms
proof (induction cs)
  case Nil
  show ?case by simp
next
  case (Cons c cs)
  from Cons.prems obtain b where b: "translateSslConfig e (ml_gatewayNamespace m) (hs_tls c) = Inr b"
    by (cases "translateSslConfig e (ml_gatewayNamespace m) (hs_tls c)") auto
  from https_chain_ok_fst[OF b, of "hs_gatewayListenerName c" "ml_listenerReporter m"]
  obtain x where x: "fst (translateHttpsFilterChain e c (hs_gatewayListenerName c)
        (ml_gatewayNamespace m) (ml_listenerReporter m)) = Inr x"
      "Matcher (hfc_FilterChainCommon x)
         = (case hs_sniDomain c of None \<Rightarrow> zeroMatcher | Some d \<Rightarrow> \<lparr>SniDomains = [d]\<rparr>)"
      "FilterChainName (hfc_FilterChainCommon x) = hs_gatewayListenerName c"
    and r: "snd (translateHttpsFilterChain e c (hs_gatewayListenerName c)
        (ml_gatewayNamespace m) (ml_listenerReporter m)) = []"
    by blast
  from Cons have ih: "map (\<lambda>x. Matcher (hfc_FilterChainCommon x)) (fst (translateHttpsChains e m cs))
           = map (\<lambda>c. case hs_sniDomain c of None \<Rightarrow> zeroMatcher | Some d \<Rightarrow> \<lparr>SniDomains = [d]\<rparr>) cs"
       "map (\<lambda>x. FilterChainName (hfc_FilterChainCommon x)) (fst (translateHttpsChains e m cs))
           = map hs_gatewayListenerName cs"
       "snd (translateHttpsChains e m cs) = []"
    by simp_all
  show ?case unfolding translateHttpsChains_Cons by (simp add: x r ih)
qed

text \<open>The chains that come out are those whose TLS resolution succeeded, in order.\<close>

lemma https_chains_filter:
  "map (\<lambda>x. FilterChainName (hfc_FilterChainCommon x)) (fst (translateHttpsChains e m cs))
     = map hs_gatewayListenerName
         (filter (\<lambda>c. \<not> isl (translateSslConfig e (ml_gatewayNamespace m) (hs_tls c))) cs)"
proof (induction cs)
  case Nil
  show ?case by simp
next
  case (Cons c cs)
  show ?case
  proof (cases "translateSslConfig e (ml_gatewayNamespace m) (hs_tls c)")
    case (Inl err)
    from https_chain_failed[OF Inl, of "hs_gatewayListenerName c" "ml_listenerReporter m"]
    have "fst (translateHttpsFilterChain e c (hs_gatewayListenerName c)
        (ml_gatewayNamespace m) (ml_listenerReporter m)) = Inl err" by simp
    then show ?thesis unfolding translateHttpsChains_Cons by (simp add: Cons Inl)
  next
    case (Inr b)
    from https_chain_ok_fst(1)[OF Inr, of "hs_gatewayListenerName c" "ml_listenerReporter m"]
    obtain x where "fst (translateHttpsFilterChain e c (hs_gatewayListenerName c)
        (ml_gatewayNamespace m) (ml_listenerReporter m)) = Inr x"
      "FilterChainName (hfc_FilterChainCommon x) = hs_gatewayListenerName c"
      by blast
    then show ?thesis unfolding translateHttpsChains_Cons by (simp add: Cons Inr)
  qed
qed

lemma https_chains_reports:
  "\<forall>r \<in> set (snd (translateHttpsChains e m cs)). isListenerCondition r"
proof (induction cs)
  case Nil
  show ?case by simp
next
  case (Cons c cs)
  show ?case
  proof (cases "translateSslConfig e (ml_gatewayNamespace m) (hs_tls c)")
    case (Inl err)
    from https_chain_failed[OF Inl, of "hs_gatewayListenerName c" "ml_listenerReporter m"]
    show ?thesis unfolding translateHttpsChains_Cons
      using Cons by (simp add: isListenerCondition_def)
  next
    case (Inr b)
    from https_chain_ok_fst(2)[OF Inr, of "hs_gatewayListenerName c" "ml_listenerReporter m"]
    show ?thesis unfolding translateHttpsChains_Cons
      using Cons by simp
  qed
qed

lemma hs_of_httpsChainOf:
  "hs_sniDomain (httpsChainOf e l rs) = l_Hostname l"
  "hs_gatewayListenerName (httpsChainOf e l rs) = GenerateRouteKey e (l_Parent l) (l_Name l)"
  by (simp_all add: httpsChainOf_def)

text \<open>
  C2: when the listeners \<open>ls\<close> appended in order contain an HTTPS listener on port \<open>p\<close>,
  exactly one merged listener has that port, and its HTTPS chain list has one entry per
  HTTPS listener of the port, in order. The output of the merged listener is its
  plaintext chain, if any, followed by the translated HTTPS chains; when TLS resolution
  succeeds for every chain there are as many of them as HTTPS listeners on the port, the
  i-th named after and matching the i-th listener: its hostname as the single SNI domain,
  or no SNI domain when it has none.
\<close>

theorem https_listeners_keep_separate_chains:
  assumes "listenersOn HTTPSProtocolType p ls \<noteq> []"
  shows "\<exists>m.
       filter (\<lambda>m'. ml_port m' = p) (mls_Listeners (mergeGWListeners e ns ls gw rfg st)) = [m]
     \<and> ml_httpsFilterChains m
         = map (\<lambda>l. httpsChainOf e l (routesFor rfg l)) (listenersOn HTTPSProtocolType p ls)
     \<and> length (ml_httpsFilterChains m) = length (listenersOn HTTPSProtocolType p ls)
     \<and> lir_HttpFilterChain (fst (TranslateListener e m))
         = (case ml_httpFilterChain m of None \<Rightarrow> []
            | Some c \<Rightarrow> [translateHttpFilterChain e c (ml_name m)])
           @ fst (translateHttpsChains e m (ml_httpsFilterChains m))
     \<and> ((\<forall>c \<in> set (ml_httpsFilterChains m). \<not> isl (translateSslConfig e ns (hs_tls c)))
          \<longrightarrow> length (fst (translateHttpsChains e m (ml_httpsFilterChains m)))
                = length (listenersOn HTTPSProtocolType p ls)
            \<and> map (\<lambda>x. Matcher (hfc_FilterChainCommon x))
                  (fst (translateHttpsChains e m (ml_httpsFilterChains m)))
                = map (\<lambda>l. case l_Hostname l of None \<Rightarrow> \<lparr>SniDomains = []\<rparr>
                                                 | Some h \<Rightarrow> \<lparr>SniDomains = [h]\<rparr>)
                    (listenersOn HTTPSProtocolType p ls)
            \<and> map (\<lambda>x. FilterChainName (hfc_FilterChainCommon x))
                  (fst (translateHttpsChains e m (ml_httpsFilterChains m)))
                = map (\<lambda>l. GenerateRouteKey e (l_Parent l) (l_Name l))
                    (listenersOn HTTPSProtocolType p ls))"
proof -
  let ?hs = "listenersOn HTTPSProtocolType p ls"
  from assms obtain l where l: "l \<in> set ?hs" by (cases ?hs) auto
  then have lin: "l \<in> set ls" and lp: "l_Port l = p" and sup: "supported l"
    by (auto simp: listenersOn_def supported_def)
  from merged_on_port[OF lin sup, of e ns gw rfg st] lp obtain m where
    f: "filter (\<lambda>m'. ml_port m' = p) (mls_Listeners (mergeGWListeners e ns ls gw rfg st)) = [m]"
    and mp: "ml_port m = p" and ok: "mergedOk e rfg ns st ls m"
    by blast
  let ?cs = "map (\<lambda>l. httpsChainOf e l (routesFor rfg l)) ?hs"
  from ok mp have c: "ml_httpsFilterChains m = ?cs" and gn: "ml_gatewayNamespace m = ns"
    by (simp_all add: mergedOk_def expectedHttps_def)
  have len: "length (ml_httpsFilterChains m) = length ?hs" by (simp add: c)
  have all: "length (fst (translateHttpsChains e m (ml_httpsFilterChains m))) = length ?hs
            \<and> map (\<lambda>x. Matcher (hfc_FilterChainCommon x))
                  (fst (translateHttpsChains e m (ml_httpsFilterChains m)))
                = map (\<lambda>l. case l_Hostname l of None \<Rightarrow> \<lparr>SniDomains = []\<rparr>
                                                 | Some h \<Rightarrow> \<lparr>SniDomains = [h]\<rparr>) ?hs
            \<and> map (\<lambda>x. FilterChainName (hfc_FilterChainCommon x))
                  (fst (translateHttpsChains e m (ml_httpsFilterChains m)))
                = map (\<lambda>l. GenerateRouteKey e (l_Parent l) (l_Name l)) ?hs"
    if a: "\<forall>c \<in> set (ml_httpsFilterChains m). \<not> isl (translateSslConfig e ns (hs_tls c))"
  proof -
    from a gn have "\<forall>c \<in> set (ml_httpsFilterChains m).
        \<not> isl (translateSslConfig e (ml_gatewayNamespace m) (hs_tls c))" by simp
    note r = https_chains_all_ok[OF this]
    from r have m1: "map (\<lambda>x. Matcher (hfc_FilterChainCommon x))
                  (fst (translateHttpsChains e m (ml_httpsFilterChains m)))
                = map (\<lambda>l. case l_Hostname l of None \<Rightarrow> \<lparr>SniDomains = []\<rparr>
                                                 | Some h \<Rightarrow> \<lparr>SniDomains = [h]\<rparr>) ?hs"
      by (simp add: c comp_def hs_of_httpsChainOf zeroMatcher_def cong: option.case_cong)
    from r have m2: "map (\<lambda>x. FilterChainName (hfc_FilterChainCommon x))
                  (fst (translateHttpsChains e m (ml_httpsFilterChains m)))
                = map (\<lambda>l. GenerateRouteKey e (l_Parent l) (l_Name l)) ?hs"
      by (simp add: c comp_def hs_of_httpsChainOf)
    from m2 have "length (fst (translateHttpsChains e m (ml_httpsFilterChains m))) = length ?hs"
      by (metis length_map)
    with m1 m2 show ?thesis by blast
  qed
  from f c len all TranslateListener_http[of e m] show ?thesis by blast
qed


lemmas ex_https_defs = exTerminate_def exHttpsGateway_def exOpenListener_def exBadListener_def
  exNoRoutes_def exSecrets_def exNotFound_def exFailedGateway_def exTcpMerged_def
  exCollisionGateway_def exCollisionRoutes_def

lemmas https_eval = translateHttpsFilterChain_def translateSslConfig_def httpsVhostStep_def
  httpsVhostOf_def tlsErrorReason_def tlsErrorMessage_def SecretNotFoundMessage_def secretData_def
  TLSModeTerminate_def TLSCertKey_def TLSPrivateKeyKey_def ServiceAccountRootCAKey_def
  ListenerConditionProgrammed_def ListenerConditionResolvedRefs_def ListenerReasonInvalid_def
  ListenerReasonInvalidCertificateRef_def ListenerReasonRefNotPermitted_def errorsNew_def
  noBackendsCondition_def TcpTlsListenerNoBackendsMessage_def

lemma name443: "GenerateListenerNameFromPort 443 = ''listener~443''"
  by (simp add: GenerateListenerNameFromPort_def showInt_def showNat.simps[of 443]
      showNat.simps[of 44] showNat.simps[of 4] digitChar_def)

theorem https_listeners_keep_separate_chains_witness:
  "length (listenersOn HTTPSProtocolType 443 (gw_Listeners (exHttpsGateway exOpenListener))) = 2
   \<and> (\<exists>m. filter (\<lambda>m'. ml_port m' = 443)
         (mls_Listeners (mergeGWListeners (exEnv id) ''default''
            (gw_Listeners (exHttpsGateway exOpenListener)) (exHttpsGateway exOpenListener)
            exNoRoutes exSettings)) = [m]
       \<and> length (ml_httpsFilterChains m) = 2
       \<and> length (fst (translateHttpsChains (exEnv id) m (ml_httpsFilterChains m))) = 2
       \<and> map (\<lambda>x. Matcher (hfc_FilterChainCommon x))
            (fst (translateHttpsChains (exEnv id) m (ml_httpsFilterChains m)))
          = [\<lparr>SniDomains = [''a.example.com'']\<rparr>, \<lparr>SniDomains = []\<rparr>])"
proof -
  let ?ls = "gw_Listeners (exHttpsGateway exOpenListener)"
  let ?good = "exListener ''good'' ''HTTPS'' 443 (Some ''a.example.com'') (exTerminate ''ok-cert'') []"
  have hs: "listenersOn HTTPSProtocolType 443 ?ls = [?good, exOpenListener]"
    by (simp add: listenersOn_def exHttpsGateway_def exOpenListener_def exListener_def HTTPSProtocolType_def)
  then have ne: "listenersOn HTTPSProtocolType 443 ?ls \<noteq> []" by simp
  from https_listeners_keep_separate_chains[OF ne, of "exEnv id" "''default''"
      "exHttpsGateway exOpenListener" exNoRoutes exSettings]
  obtain m where m:
    "filter (\<lambda>m'. ml_port m' = 443)
         (mls_Listeners (mergeGWListeners (exEnv id) ''default'' ?ls (exHttpsGateway exOpenListener)
            exNoRoutes exSettings)) = [m]
     \<and> ml_httpsFilterChains m
         = map (\<lambda>l. httpsChainOf (exEnv id) l (routesFor exNoRoutes l)) (listenersOn HTTPSProtocolType 443 ?ls)
     \<and> length (ml_httpsFilterChains m) = length (listenersOn HTTPSProtocolType 443 ?ls)
     \<and> lir_HttpFilterChain (fst (TranslateListener (exEnv id) m))
         = (case ml_httpFilterChain m of None \<Rightarrow> []
            | Some c \<Rightarrow> [translateHttpFilterChain (exEnv id) c (ml_name m)])
           @ fst (translateHttpsChains (exEnv id) m (ml_httpsFilterChains m))
     \<and> ((\<forall>c \<in> set (ml_httpsFilterChains m). \<not> isl (translateSslConfig (exEnv id) ''default'' (hs_tls c)))
          \<longrightarrow> length (fst (translateHttpsChains (exEnv id) m (ml_httpsFilterChains m)))
                = length (listenersOn HTTPSProtocolType 443 ?ls)
            \<and> map (\<lambda>x. Matcher (hfc_FilterChainCommon x))
                  (fst (translateHttpsChains (exEnv id) m (ml_httpsFilterChains m)))
                = map (\<lambda>l. case l_Hostname l of None \<Rightarrow> \<lparr>SniDomains = []\<rparr>
                                                 | Some h \<Rightarrow> \<lparr>SniDomains = [h]\<rparr>)
                    (listenersOn HTTPSProtocolType 443 ?ls)
            \<and> map (\<lambda>x. FilterChainName (hfc_FilterChainCommon x))
                  (fst (translateHttpsChains (exEnv id) m (ml_httpsFilterChains m)))
                = map (\<lambda>l. GenerateRouteKey (exEnv id) (l_Parent l) (l_Name l))
                    (listenersOn HTTPSProtocolType 443 ?ls))"
    ..
  from m have f: "filter (\<lambda>m'. ml_port m' = 443)
         (mls_Listeners (mergeGWListeners (exEnv id) ''default'' ?ls (exHttpsGateway exOpenListener)
            exNoRoutes exSettings)) = [m]"
    by (rule conjunct1)
  from m have c: "ml_httpsFilterChains m
         = map (\<lambda>l. httpsChainOf (exEnv id) l (routesFor exNoRoutes l)) (listenersOn HTTPSProtocolType 443 ?ls)"
    by (elim conjE)
  from m have imp: "(\<forall>c \<in> set (ml_httpsFilterChains m). \<not> isl (translateSslConfig (exEnv id) ''default'' (hs_tls c)))
          \<longrightarrow> length (fst (translateHttpsChains (exEnv id) m (ml_httpsFilterChains m)))
                = length (listenersOn HTTPSProtocolType 443 ?ls)
            \<and> map (\<lambda>x. Matcher (hfc_FilterChainCommon x))
                  (fst (translateHttpsChains (exEnv id) m (ml_httpsFilterChains m)))
                = map (\<lambda>l. case l_Hostname l of None \<Rightarrow> \<lparr>SniDomains = []\<rparr>
                                                 | Some h \<Rightarrow> \<lparr>SniDomains = [h]\<rparr>)
                    (listenersOn HTTPSProtocolType 443 ?ls)
            \<and> map (\<lambda>x. FilterChainName (hfc_FilterChainCommon x))
                  (fst (translateHttpsChains (exEnv id) m (ml_httpsFilterChains m)))
                = map (\<lambda>l. GenerateRouteKey (exEnv id) (l_Parent l) (l_Name l))
                    (listenersOn HTTPSProtocolType 443 ?ls)"
    by (elim conjE)
  have ok: "\<forall>c \<in> set (ml_httpsFilterChains m). \<not> isl (translateSslConfig (exEnv id) ''default'' (hs_tls c))"
    unfolding c hs
    by (simp add: httpsChainOf_def translateSslConfig_def exListener_def exOpenListener_def
        exTerminate_def emptyTLSConfig_def TLSModeTerminate_def exEnv_def exSecrets_def)
  from imp ok have r0: "length (fst (translateHttpsChains (exEnv id) m (ml_httpsFilterChains m)))
                = length (listenersOn HTTPSProtocolType 443 ?ls)
            \<and> map (\<lambda>x. Matcher (hfc_FilterChainCommon x))
                  (fst (translateHttpsChains (exEnv id) m (ml_httpsFilterChains m)))
                = map (\<lambda>l. case l_Hostname l of None \<Rightarrow> \<lparr>SniDomains = []\<rparr>
                                                 | Some h \<Rightarrow> \<lparr>SniDomains = [h]\<rparr>)
                    (listenersOn HTTPSProtocolType 443 ?ls)"
    by (elim impE conjE) (assumption, rule conjI)
  have mm: "map (\<lambda>l. case l_Hostname l of None \<Rightarrow> \<lparr>SniDomains = []\<rparr>
                                                 | Some h \<Rightarrow> \<lparr>SniDomains = [h]\<rparr>)
                    (listenersOn HTTPSProtocolType 443 ?ls)
        = [\<lparr>SniDomains = [''a.example.com'']\<rparr>, \<lparr>SniDomains = []\<rparr>]"
    unfolding hs by (simp add: exListener_def exOpenListener_def)
  have n: "length (listenersOn HTTPSProtocolType 443 ?ls) = 2" unfolding hs by simp
  from r0 have r: "length (fst (translateHttpsChains (exEnv id) m (ml_httpsFilterChains m))) = 2"
    "map (\<lambda>x. Matcher (hfc_FilterChainCommon x))
                  (fst (translateHttpsChains (exEnv id) m (ml_httpsFilterChains m)))
                = [\<lparr>SniDomains = [''a.example.com'']\<rparr>, \<lparr>SniDomains = []\<rparr>]"
    unfolding mm n by (rule conjunct1, rule conjunct2)
  have l2: "length (ml_httpsFilterChains m) = 2" unfolding c hs by simp
  from n f l2 r show ?thesis by (intro conjI exI[of _ m])
qed


subsection \<open>A chain whose TLS resolution fails\<close>

text \<open>The reason and the message reported for each kind of resolution error, and the
  error for a certificate reference list that is not a singleton.\<close>

lemma tls_error_mapping:
  "isMissingReferenceGrant err \<Longrightarrow> tlsErrorReason err = ''RefNotPermitted''"
  "\<not> isMissingReferenceGrant err \<Longrightarrow> tlsErrorReason err = ''InvalidCertificateRef''"
  "asNotFoundError err = Some (ns, name)
    \<Longrightarrow> tlsErrorMessage err = ''Secret '' @ ns @ ''/'' @ name @ '' not found.''"
  "asNotFoundError err = None \<Longrightarrow> isInvalidTlsSecret err \<Longrightarrow> tlsErrorMessage err = errorText err"
  "asNotFoundError err = None \<Longrightarrow> \<not> isInvalidTlsSecret err \<Longrightarrow> \<not> isMissingReferenceGrant err
    \<Longrightarrow> tlsErrorMessage err = ''Invalid certificate ref.''"
  by (simp_all add: tlsErrorReason_def tlsErrorMessage_def SecretNotFoundMessage_def
      ListenerReasonRefNotPermitted_def ListenerReasonInvalidCertificateRef_def)

lemma several_certificate_refs:
  "tls_Mode t = Some TLSModeTerminate \<Longrightarrow> length (tls_CertificateRefs t) \<noteq> 1
    \<Longrightarrow> translateSslConfig e ns (Some t)
          = Inl (errorsNew ''only one certificate ref is supported for now'')"
  by (cases "tls_CertificateRefs t"; cases "tl (tls_CertificateRefs t)")
     (simp_all add: translateSslConfig_def)

text \<open>
  What \<^verbatim>\<open>translateHttpsFilterChain\<close> does on a TLS resolution error is lemma
  \<open>https_chain_failed\<close>: no chain, and a \<^verbatim>\<open>ResolvedRefs=False\<close> and a
  \<^verbatim>\<open>Programmed=False\<close> condition on the reporter it was called with; lemma
  \<open>https_chains_filter\<close> shows that the other chains of the port are still translated.
  The reporter it is called with is that of the merged listener, which is the reporter of
  the first listener appended on the port; an HTTPS chain, unlike a TCP chain, does not
  keep the reporter of its own listener.

  C5: on port 443 the listener \<^verbatim>\<open>good\<close> resolves its secret and the listener \<^verbatim>\<open>bad\<close>
  names a secret that does not exist. The chain of \<^verbatim>\<open>bad\<close> is dropped and the chain of
  \<^verbatim>\<open>good\<close> is emitted, but both conditions are set on the reporter of \<^verbatim>\<open>good\<close>, and
  none on the reporter of \<^verbatim>\<open>bad\<close>.
\<close>

theorem https_tls_failure_reported_on_first_listener:
  "snd (TranslateListeners (exEnv id) (exHttpsGateway exBadListener) exNoRoutes exSettings)
     = [ListenerSetCondition \<lparr>lr_Parent = ''gw'', lr_ListenerName = ''good''\<rparr>
          \<lparr>lc_Type = ''ResolvedRefs'', lc_Status = ''False'', lc_Reason = ''InvalidCertificateRef'',
           lc_Message = ''Secret default/missing not found.''\<rparr>,
        ListenerSetCondition \<lparr>lr_Parent = ''gw'', lr_ListenerName = ''good''\<rparr>
          \<lparr>lc_Type = ''Programmed'', lc_Status = ''False'', lc_Reason = ''Invalid'',
           lc_Message = ''Secret default/missing not found.''\<rparr>]
   \<and> map (\<lambda>c. FilterChainName (hfc_FilterChainCommon c))
        (lir_HttpFilterChain (hd (fst
           (TranslateListeners (exEnv id) (exHttpsGateway exBadListener) exNoRoutes exSettings))))
     = [''gw/good'']"
  by (simp add: merge_eval http_eval https_eval tcp_eval ex_http_defs ex_https_defs name443)


section \<open>Translating a merged listener: the TCP chains\<close>

lemma translateTcpChains_Cons:
  "translateTcpChains m (tfc # rest) =
     (case fst (translateTcpFilterChain tfc (ml_name m)) of
        None \<Rightarrow> fst (translateTcpChains m rest)
      | Some x \<Rightarrow> x # fst (translateTcpChains m rest),
      snd (translateTcpFilterChain tfc (ml_name m)) @ snd (translateTcpChains m rest))"
  by (simp add: Let_def split: prod.splits option.splits)

lemma tcp_chains_empty_iff:
  "fst (translateTcpChains m cs) = [] \<longleftrightarrow> (\<forall>tfc \<in> set cs. fst (translateTcpFilterChain tfc (ml_name m)) = None)"
proof (induction cs)
  case Nil
  show ?case by simp
next
  case (Cons c cs)
  show ?case unfolding translateTcpChains_Cons
    using Cons by (cases "fst (translateTcpFilterChain c (ml_name m))") simp_all
qed

lemma processBackends_reports: "\<forall>r \<in> set (snd (processBackends ps bs)). \<not> isListenerCondition r"
  by (induction bs) (auto simp: Let_def isListenerCondition_def split: prod.splits)

lemma selected_reports: "\<forall>r \<in> set (snd (translateSelectedRoute tc pn x)). \<not> isListenerCondition r"
proof (cases "ri_Object x")
  case (HttpRouteIR so)
  then show ?thesis by (simp add: translateSelectedRoute_def)
next
  case (TcpRouteIR t)
  show ?thesis
  proof (cases "length (so_Rules (r_SourceObject t)) = 1")
    case True
    from selected_accepted(2)[OF disjI1[OF TcpRouteIR] True, of tc pn]
    show ?thesis using processBackends_reports by (auto simp: isListenerCondition_def)
  next
    case False
    from rejected_route_silent[OF disjI1[OF TcpRouteIR] False, of tc pn] show ?thesis by simp
  qed
next
  case (TlsRouteIR t)
  show ?thesis
  proof (cases "length (so_Rules (r_SourceObject t)) = 1")
    case True
    from selected_accepted(2)[OF disjI2[OF TlsRouteIR] True, of tc pn]
    show ?thesis using processBackends_reports by (auto simp: isListenerCondition_def)
  next
    case False
    from rejected_route_silent[OF disjI2[OF TlsRouteIR] False, of tc pn] show ?thesis by simp
  qed
qed

lemma tcp_chain_reports: "\<forall>r \<in> set (snd (translateTcpFilterChain tc pn)). \<not> isListenerCondition r"
  using selected_reports
  by (cases "tp_routesWithHosts (tc_parents tc)") (simp_all add: translateTcpFilterChain_def)

lemma tcp_chains_reports: "\<forall>r \<in> set (snd (translateTcpChains m cs)). \<not> isListenerCondition r"
proof (induction cs)
  case Nil
  show ?case by simp
next
  case (Cons c cs)
  show ?case unfolding translateTcpChains_Cons using Cons tcp_chain_reports by auto
qed

lemma TranslateListener_reports:
  "snd (TranslateListener e m) =
     snd (translateHttpsChains e m (ml_httpsFilterChains m))
     @ snd (translateTcpChains m (ml_TcpFilterChains m))
     @ (if ml_TcpFilterChains m \<noteq> [] \<and> fst (translateTcpChains m (ml_TcpFilterChains m)) = []
        then map (\<lambda>tfc. ListenerSetCondition (tc_listenerReporter tfc) noBackendsCondition)
               (ml_TcpFilterChains m)
        else [])"
  by (simp add: TranslateListener_def Let_def split: prod.splits)

lemma TranslateListener_tcp:
  "lir_TcpFilterChain (fst (TranslateListener e m)) = fst (translateTcpChains m (ml_TcpFilterChains m))"
  by (simp add: TranslateListener_def Let_def split: prod.splits)

lemma filter_all: "\<forall>x \<in> set xs. P x \<Longrightarrow> filter P xs = xs"
  by (induction xs) auto

lemma filter_none: "\<forall>x \<in> set xs. \<not> P x \<Longrightarrow> filter P xs = []"
  by (induction xs) auto

text \<open>
  C6: when a merged listener has TCP/TLS chains and none of them produces an IR, the
  reporter of every one of its TCP chains receives \<^verbatim>\<open>Programmed=False\<close> with reason
  \<^verbatim>\<open>Invalid\<close> and the fixed message. When at least one chain produces an IR, the listener
  conditions set during the translation are exactly those of the HTTPS chains of the
  port (TLS resolution failures): the TCP part sets none, so that without HTTPS chains no
  listener condition is set at all.
\<close>

theorem all_tcp_chains_failed_escalation:
  "(ml_TcpFilterChains m \<noteq> []
      \<and> (\<forall>tfc \<in> set (ml_TcpFilterChains m). fst (translateTcpFilterChain tfc (ml_name m)) = None)
     \<longrightarrow> (\<forall>tfc \<in> set (ml_TcpFilterChains m).
            ListenerSetCondition (tc_listenerReporter tfc)
              \<lparr>lc_Type = ''Programmed'', lc_Status = ''False'', lc_Reason = ''Invalid'',
               lc_Message = ''TCP/TLS listener has no valid backends or routes''\<rparr>
            \<in> set (snd (TranslateListener e m))))
   \<and> ((\<exists>tfc \<in> set (ml_TcpFilterChains m). fst (translateTcpFilterChain tfc (ml_name m)) \<noteq> None)
     \<longrightarrow> filter isListenerCondition (snd (TranslateListener e m))
           = snd (translateHttpsChains e m (ml_httpsFilterChains m))
         \<and> (ml_httpsFilterChains m = []
             \<longrightarrow> (\<forall>r \<in> set (snd (TranslateListener e m)). \<not> isListenerCondition r)))"
proof (intro conjI impI)
  assume a: "ml_TcpFilterChains m \<noteq> []
      \<and> (\<forall>tfc \<in> set (ml_TcpFilterChains m). fst (translateTcpFilterChain tfc (ml_name m)) = None)"
  then have "fst (translateTcpChains m (ml_TcpFilterChains m)) = []"
    by (simp add: tcp_chains_empty_iff)
  with a have "snd (TranslateListener e m) =
     snd (translateHttpsChains e m (ml_httpsFilterChains m))
     @ snd (translateTcpChains m (ml_TcpFilterChains m))
     @ map (\<lambda>tfc. ListenerSetCondition (tc_listenerReporter tfc) noBackendsCondition)
               (ml_TcpFilterChains m)"
    by (simp add: TranslateListener_reports)
  moreover have "noBackendsCondition = \<lparr>lc_Type = ''Programmed'', lc_Status = ''False'', lc_Reason = ''Invalid'',
               lc_Message = ''TCP/TLS listener has no valid backends or routes''\<rparr>"
    by (simp add: noBackendsCondition_def ListenerConditionProgrammed_def ConditionFalse_def
        ListenerReasonInvalid_def TcpTlsListenerNoBackendsMessage_def)
  ultimately show "\<forall>tfc \<in> set (ml_TcpFilterChains m).
            ListenerSetCondition (tc_listenerReporter tfc)
              \<lparr>lc_Type = ''Programmed'', lc_Status = ''False'', lc_Reason = ''Invalid'',
               lc_Message = ''TCP/TLS listener has no valid backends or routes''\<rparr>
            \<in> set (snd (TranslateListener e m))"
    by auto
next
  assume a: "\<exists>tfc \<in> set (ml_TcpFilterChains m). fst (translateTcpFilterChain tfc (ml_name m)) \<noteq> None"
  then have "fst (translateTcpChains m (ml_TcpFilterChains m)) \<noteq> []"
    by (simp add: tcp_chains_empty_iff)
  then have r: "snd (TranslateListener e m) =
     snd (translateHttpsChains e m (ml_httpsFilterChains m))
     @ snd (translateTcpChains m (ml_TcpFilterChains m))"
    by (simp add: TranslateListener_reports)
  show f: "filter isListenerCondition (snd (TranslateListener e m))
           = snd (translateHttpsChains e m (ml_httpsFilterChains m))"
    unfolding r
    by (simp add: filter_all[OF https_chains_reports] filter_none[OF tcp_chains_reports])
  assume "ml_httpsFilterChains m = []"
  then show "\<forall>r \<in> set (snd (TranslateListener e m)). \<not> isListenerCondition r"
    unfolding r using tcp_chains_reports by simp
qed


theorem all_tcp_chains_failed_escalation_witness:
  "ListenerSetCondition \<lparr>lr_Parent = ''gw'', lr_ListenerName = ''tcp-a''\<rparr>
      \<lparr>lc_Type = ''Programmed'', lc_Status = ''False'', lc_Reason = ''Invalid'',
       lc_Message = ''TCP/TLS listener has no valid backends or routes''\<rparr>
     \<in> set (snd (TranslateListener (exEnv id)
          (exTcpMerged [exTcpChain ''tcp-a'' [],
                        exTcpChain ''tcp-b'' [exTcpRoute ''a'' 5 [''r1'', ''r2''] [exBackend ''x'']]])))
   \<and> ListenerSetCondition \<lparr>lr_Parent = ''gw'', lr_ListenerName = ''tcp-b''\<rparr>
      \<lparr>lc_Type = ''Programmed'', lc_Status = ''False'', lc_Reason = ''Invalid'',
       lc_Message = ''TCP/TLS listener has no valid backends or routes''\<rparr>
     \<in> set (snd (TranslateListener (exEnv id)
          (exTcpMerged [exTcpChain ''tcp-a'' [],
                        exTcpChain ''tcp-b'' [exTcpRoute ''a'' 5 [''r1'', ''r2''] [exBackend ''x'']]])))
   \<and> filter isListenerCondition (snd (TranslateListener (exEnv id)
          (exTcpMerged [exTcpChain ''tcp-a'' [],
                        exTcpChain ''tcp-b'' [exTcpRoute ''a'' 5 [''r''] [exBackend ''x'']]]))) = []"
proof -
  let ?bad = "exTcpMerged [exTcpChain ''tcp-a'' [],
                        exTcpChain ''tcp-b'' [exTcpRoute ''a'' 5 [''r1'', ''r2''] [exBackend ''x'']]]"
  let ?good = "exTcpMerged [exTcpChain ''tcp-a'' [],
                        exTcpChain ''tcp-b'' [exTcpRoute ''a'' 5 [''r''] [exBackend ''x'']]]"
  let ?cond = "\<lparr>lc_Type = ''Programmed'', lc_Status = ''False'', lc_Reason = ''Invalid'',
       lc_Message = ''TCP/TLS listener has no valid backends or routes''\<rparr>"
  have cs: "ml_TcpFilterChains ?bad = [exTcpChain ''tcp-a'' [],
                  exTcpChain ''tcp-b'' [exTcpRoute ''a'' 5 [''r1'', ''r2''] [exBackend ''x'']]]"
    "ml_name ?bad = ''listener~9000''"
    by (simp_all add: exTcpMerged_def)
  have a: "ml_TcpFilterChains ?bad \<noteq> []
      \<and> (\<forall>tfc \<in> set (ml_TcpFilterChains ?bad). fst (translateTcpFilterChain tfc (ml_name ?bad)) = None)"
    unfolding cs by (simp add: tcp_eval ex_tcp_defs)
  have all: "\<forall>tfc \<in> set (ml_TcpFilterChains ?bad).
            ListenerSetCondition (tc_listenerReporter tfc) ?cond \<in> set (snd (TranslateListener (exEnv id) ?bad))"
    by (rule all_tcp_chains_failed_escalation[of ?bad "exEnv id", THEN conjunct1, THEN mp, OF a])
  have 1: "ListenerSetCondition \<lparr>lr_Parent = ''gw'', lr_ListenerName = ''tcp-a''\<rparr> ?cond
      \<in> set (snd (TranslateListener (exEnv id) ?bad))"
    using all[unfolded cs] by (simp add: exTcpChain_def)
  have 2: "ListenerSetCondition \<lparr>lr_Parent = ''gw'', lr_ListenerName = ''tcp-b''\<rparr> ?cond
      \<in> set (snd (TranslateListener (exEnv id) ?bad))"
    using all[unfolded cs] by (simp add: exTcpChain_def)
  have gs: "ml_TcpFilterChains ?good = [exTcpChain ''tcp-a'' [],
                  exTcpChain ''tcp-b'' [exTcpRoute ''a'' 5 [''r''] [exBackend ''x'']]]"
    "ml_name ?good = ''listener~9000''" "ml_httpsFilterChains ?good = []"
    by (simp_all add: exTcpMerged_def)
  have b: "\<exists>tfc \<in> set (ml_TcpFilterChains ?good). fst (translateTcpFilterChain tfc (ml_name ?good)) \<noteq> None"
    unfolding gs by (simp add: tcp_eval ex_tcp_defs)
  have "filter isListenerCondition (snd (TranslateListener (exEnv id) ?good))
           = snd (translateHttpsChains (exEnv id) ?good (ml_httpsFilterChains ?good))"
    by (rule all_tcp_chains_failed_escalation[of ?good "exEnv id", THEN conjunct2, THEN mp, OF b,
          THEN conjunct1])
  then have 3: "filter isListenerCondition (snd (TranslateListener (exEnv id) ?good)) = []"
    unfolding gs by simp
  from 1 2 3 show ?thesis by (intro conjI)
qed

section \<open>One listener IR per merged listener\<close>

lemma translateListenersLoop_Cons:
  "translateListenersLoop e (m # ms) =
     (fst (TranslateListener e m) # fst (translateListenersLoop e ms),
      snd (TranslateListener e m) @ snd (translateListenersLoop e ms))"
  by (simp add: Let_def split: prod.splits)

lemma translateListenersLoop_map:
  "fst (translateListenersLoop e ms) = map (\<lambda>m. fst (TranslateListener e m)) ms"
  by (induction ms) (simp_all add: translateListenersLoop_Cons del: translateListenersLoop.simps(2))

lemma TranslateListener_fields:
  "lir_Name (fst (TranslateListener e m)) = ml_name m"
  "lir_BindPort (fst (TranslateListener e m)) = ml_port m"
  "lir_BindAddress (fst (TranslateListener e m))
     = (if ListenerBindIpv6 (ml_settings m) then ''::'' else ''0.0.0.0'')"
  "lir_PolicyAncestorRef (fst (TranslateListener e m)) = l_PolicyAncestorRef (ml_listener m)"
  by (simp_all add: TranslateListener_def Let_def split: prod.splits)

lemma https_chains_all_failed:
  "\<forall>c \<in> set cs. isl (translateSslConfig e (ml_gatewayNamespace m) (hs_tls c))
    \<Longrightarrow> fst (translateHttpsChains e m cs) = []"
proof (induction cs)
  case Nil
  show ?case by simp
next
  case (Cons c cs)
  from Cons.prems obtain err where err: "translateSslConfig e (ml_gatewayNamespace m) (hs_tls c) = Inl err"
    by (cases "translateSslConfig e (ml_gatewayNamespace m) (hs_tls c)") auto
  from https_chain_failed[OF err, of "hs_gatewayListenerName c" "ml_listenerReporter m"]
  have "fst (translateHttpsFilterChain e c (hs_gatewayListenerName c)
        (ml_gatewayNamespace m) (ml_listenerReporter m)) = Inl err" by simp
  then show ?case unfolding translateHttpsChains_Cons using Cons by simp
qed

text \<open>
  C10: \<^verbatim>\<open>translateListeners\<close> returns exactly one listener IR per merged listener, in
  order, whatever happens to the filter chains: the IR of a merged listener carries its
  name, its port and the bind address chosen by \<^verbatim>\<open>ListenerBindIpv6\<close>; when it has no
  plaintext chain and every HTTPS chain fails TLS resolution its HTTP filter chain list
  is empty, and when no TCP chain produces an IR its TCP filter chain list is empty, and
  the IR is emitted all the same. The merged listeners built by \<^verbatim>\<open>mergeGWListeners\<close> have
  pairwise distinct ports, are named \<^verbatim>\<open>listener~<port>\<close> and carry the settings, and
  \<^verbatim>\<open>TranslateListeners\<close> returns the IR of each of them.
\<close>

theorem one_listenerIR_per_merged_listener:
  "fst (translateListeners e ml) = map (\<lambda>m. fst (TranslateListener e m)) (mls_Listeners ml)
   \<and> length (fst (translateListeners e ml)) = length (mls_Listeners ml)
   \<and> lir_Name (fst (TranslateListener e m)) = ml_name m
   \<and> lir_BindPort (fst (TranslateListener e m)) = ml_port m
   \<and> lir_BindAddress (fst (TranslateListener e m))
       = (if ListenerBindIpv6 (ml_settings m) then ''::'' else ''0.0.0.0'')
   \<and> (ml_httpFilterChain m = None
        \<and> (\<forall>c \<in> set (ml_httpsFilterChains m). isl (translateSslConfig e (ml_gatewayNamespace m) (hs_tls c)))
       \<longrightarrow> lir_HttpFilterChain (fst (TranslateListener e m)) = [])
   \<and> ((\<forall>tfc \<in> set (ml_TcpFilterChains m). fst (translateTcpFilterChain tfc (ml_name m)) = None)
       \<longrightarrow> lir_TcpFilterChain (fst (TranslateListener e m)) = [])
   \<and> (\<forall>m' \<in> set (mls_Listeners (mergeGWListeners e ns ls gw rfg st)).
        ml_name m' = ''listener~'' @ showInt (sint (ml_port m')) \<and> ml_settings m' = st)
   \<and> distinct (map ml_port (mls_Listeners (mergeGWListeners e ns ls gw rfg st)))
   \<and> fst (TranslateListeners e gw rfg st)
       = map (\<lambda>m. fst (TranslateListener e m))
           (mls_Listeners (mergeGWListeners e (gw_Namespace gw) (validateGateway e gw) gw rfg st))"
proof (intro conjI impI)
  show 1: "fst (translateListeners e ml) = map (\<lambda>m. fst (TranslateListener e m)) (mls_Listeners ml)"
    by (simp add: translateListeners_def translateListenersLoop_map)
  show "length (fst (translateListeners e ml)) = length (mls_Listeners ml)"
    unfolding 1 by simp
  show "lir_Name (fst (TranslateListener e m)) = ml_name m"
    "lir_BindPort (fst (TranslateListener e m)) = ml_port m"
    "lir_BindAddress (fst (TranslateListener e m))
       = (if ListenerBindIpv6 (ml_settings m) then ''::'' else ''0.0.0.0'')"
    by (rule TranslateListener_fields)+
  show "lir_HttpFilterChain (fst (TranslateListener e m)) = []"
    if "ml_httpFilterChain m = None
        \<and> (\<forall>c \<in> set (ml_httpsFilterChains m). isl (translateSslConfig e (ml_gatewayNamespace m) (hs_tls c)))"
    using that by (simp add: TranslateListener_http https_chains_all_failed)
  show "lir_TcpFilterChain (fst (TranslateListener e m)) = []"
    if "\<forall>tfc \<in> set (ml_TcpFilterChains m). fst (translateTcpFilterChain tfc (ml_name m)) = None"
    using that by (simp add: TranslateListener_tcp tcp_chains_empty_iff)
  have inv: "mergedAs e rfg ns st ls (mls_Listeners (mergeGWListeners e ns ls gw rfg st))"
    by (rule mergeGWListeners_mergedAs)
  then show "\<forall>m' \<in> set (mls_Listeners (mergeGWListeners e ns ls gw rfg st)).
        ml_name m' = ''listener~'' @ showInt (sint (ml_port m')) \<and> ml_settings m' = st"
    by (simp add: mergedAs_def list_all_iff mergedOk_def GenerateListenerNameFromPort_def)
  from inv show "distinct (map ml_port (mls_Listeners (mergeGWListeners e ns ls gw rfg st)))"
    by (simp add: mergedAs_def)
  show "fst (TranslateListeners e gw rfg st)
       = map (\<lambda>m. fst (TranslateListener e m))
           (mls_Listeners (mergeGWListeners e (gw_Namespace gw) (validateGateway e gw) gw rfg st))"
    by (simp add: TranslateListeners_def Let_def translateListeners_def translateListenersLoop_map)
qed

lemma ex_failed_gateway:
  "fst (TranslateListeners (exEnv id) exFailedGateway exNoRoutes exSettings)
     = [\<lparr>lir_Name = ''listener~443'', lir_BindAddress = ''0.0.0.0'', lir_BindPort = 443,
         lir_AttachedPolicies = [], lir_HttpFilterChain = [], lir_TcpFilterChain = [],
         lir_PolicyAncestorRef = ''gw''\<rparr>]"
  by (simp add: merge_eval http_eval https_eval tcp_eval ex_http_defs ex_https_defs name443)


lemma ex_failed_merged:
  "map (\<lambda>m. (ml_name m, ml_port m, ml_httpFilterChain m, map hs_tls (ml_httpsFilterChains m),
              map (\<lambda>t. tp_routesWithHosts (tc_parents t)) (ml_TcpFilterChains m), ml_gatewayNamespace m))
     (mls_Listeners (mergeGWListeners (exEnv id) ''default'' (gw_Listeners exFailedGateway)
        exFailedGateway exNoRoutes exSettings))
   = [(''listener~443'', 443, None, [exTerminate ''missing''], [[]], ''default'')]"
  by (simp add: merge_eval ex_http_defs ex_https_defs name443)

theorem one_listenerIR_per_merged_listener_witness:
  "length (mls_Listeners (mergeGWListeners (exEnv id) ''default'' (gw_Listeners exFailedGateway)
        exFailedGateway exNoRoutes exSettings)) = 1
   \<and> fst (TranslateListeners (exEnv id) exFailedGateway exNoRoutes exSettings)
     = [\<lparr>lir_Name = ''listener~443'', lir_BindAddress = ''0.0.0.0'', lir_BindPort = 443,
         lir_AttachedPolicies = [], lir_HttpFilterChain = [], lir_TcpFilterChain = [],
         lir_PolicyAncestorRef = ''gw''\<rparr>]
   \<and> lir_HttpFilterChain (fst (TranslateListener (exEnv id)
        (hd (mls_Listeners (mergeGWListeners (exEnv id) ''default'' (gw_Listeners exFailedGateway)
          exFailedGateway exNoRoutes exSettings))))) = []
   \<and> lir_TcpFilterChain (fst (TranslateListener (exEnv id)
        (hd (mls_Listeners (mergeGWListeners (exEnv id) ''default'' (gw_Listeners exFailedGateway)
          exFailedGateway exNoRoutes exSettings))))) = []"
proof -
  let ?ms = "mls_Listeners (mergeGWListeners (exEnv id) ''default'' (gw_Listeners exFailedGateway)
        exFailedGateway exNoRoutes exSettings)"
  from ex_failed_merged obtain m where ms: "?ms = [m]"
    and m: "ml_name m = ''listener~443''" "ml_httpFilterChain m = None"
      "map hs_tls (ml_httpsFilterChains m) = [exTerminate ''missing'']"
      "map (\<lambda>t. tp_routesWithHosts (tc_parents t)) (ml_TcpFilterChains m) = [[]]"
      "ml_gatewayNamespace m = ''default''"
    by auto
  have tls: "isl (translateSslConfig (exEnv id) ''default'' (exTerminate ''missing''))"
    by (simp add: translateSslConfig_def exTerminate_def TLSModeTerminate_def exEnv_def exSecrets_def)
  have a: "ml_httpFilterChain m = None
        \<and> (\<forall>c \<in> set (ml_httpsFilterChains m). isl (translateSslConfig (exEnv id) (ml_gatewayNamespace m) (hs_tls c)))"
  proof (intro conjI ballI)
    show "ml_httpFilterChain m = None" by (rule m)
    fix c assume "c \<in> set (ml_httpsFilterChains m)"
    then have "hs_tls c \<in> set (map hs_tls (ml_httpsFilterChains m))" by simp
    then have "hs_tls c = exTerminate ''missing''" unfolding m by simp
    with tls show "isl (translateSslConfig (exEnv id) (ml_gatewayNamespace m) (hs_tls c))"
      by (simp add: m)
  qed
  have b: "\<forall>tfc \<in> set (ml_TcpFilterChains m). fst (translateTcpFilterChain tfc (ml_name m)) = None"
  proof
    fix tfc assume "tfc \<in> set (ml_TcpFilterChains m)"
    then have "tp_routesWithHosts (tc_parents tfc)
        \<in> set (map (\<lambda>t. tp_routesWithHosts (tc_parents t)) (ml_TcpFilterChains m))"
      by auto
    then have "tp_routesWithHosts (tc_parents tfc) = []" unfolding m by simp
    then show "fst (translateTcpFilterChain tfc (ml_name m)) = None"
      by (simp add: translateTcpFilterChain_def)
  qed
  note th = one_listenerIR_per_merged_listener[of "exEnv id" _ m "''default''" "gw_Listeners exFailedGateway"
      exFailedGateway exNoRoutes exSettings]
  from th a have h: "lir_HttpFilterChain (fst (TranslateListener (exEnv id) m)) = []" by blast
  from th b have t: "lir_TcpFilterChain (fst (TranslateListener (exEnv id) m)) = []" by blast
  have l: "length ?ms = 1" by (simp add: ms)
  have hd: "hd ?ms = m" by (simp add: ms)
  from l h t ex_failed_gateway show ?thesis unfolding hd by (intro conjI)
qed

section \<open>Dependence on the order of map iteration\<close>

text \<open>
  The order in which a map is ranged over is the only input of the translation that the
  caller does not control. It has no influence as long as no two hosts of a chain
  sanitize to the same virtual host name: then no entry is skipped and the sort by name
  fixes the arrangement (lemmas \<open>http_chain_order_independent\<close> and
  \<open>https_chain_order_independent\<close>).
\<close>

lemma dedup_fold_no_collision:
  assumes step: "\<And>N V x. step (N, V) x = (if nm x \<in> N then (N, V) else (insert (nm x) N, V @ [mk x]))"
  shows "distinct (map nm es) \<Longrightarrow> N \<inter> nm ` set es = {}
         \<Longrightarrow> foldl step (N, V) es = (N \<union> nm ` set es, V @ map mk es)"
proof (induction es arbitrary: N V)
  case Nil
  show ?case by simp
next
  case (Cons x es)
  from Cons.prems have x: "nm x \<notin> N" and d: "distinct (map nm es)"
    and n: "insert (nm x) N \<inter> nm ` set es = {}"
    by auto
  from Cons.IH[OF d n, of "V @ [mk x]"] x show ?case by (simp add: step)
qed

lemma buildRoutesPerHost_mapRange:
  "buildRoutesPerHost (e\<lparr>mapRange := r\<rparr>) m rs = buildRoutesPerHost e m rs"
  by (induction rs arbitrary: m) (simp_all add: Let_def)

lemma chainRoutesByHost_mapRange:
  "chainRoutesByHost (e\<lparr>mapRange := r\<rparr>) chain = chainRoutesByHost e chain"
  by (simp add: chainRoutesByHost_def buildRoutesPerHost_mapRange)

lemma vhostOf_mapRange:
  "httpVhostOf (e\<lparr>mapRange := r\<rparr>) ps pn = httpVhostOf e ps pn"
  "httpsVhostOf (e\<lparr>mapRange := r\<rparr>) pn = httpsVhostOf e pn"
  "makeVhostName (e\<lparr>mapRange := r\<rparr>) pn = makeVhostName e pn"
  by (auto simp: httpVhostOf_def httpsVhostOf_def makeVhostName_def fun_eq_iff)

lemma vhostStep_mapRange:
  "httpVhostStep (e\<lparr>mapRange := r\<rparr>) ps pn = httpVhostStep e ps pn"
  "httpsVhostStep (e\<lparr>mapRange := r\<rparr>) pn = httpsVhostStep e pn"
  by (simp_all add: httpVhostStep_def httpsVhostStep_def vhostOf_mapRange fun_eq_iff Let_def)

lemma perm_names_distinct:
  assumes "mset es = mset m" "distinct (map fst m)" "inj_on f (fst ` set m)"
  shows "distinct (map (\<lambda>x. f (fst x)) es)"
proof -
  from assms(1) have "mset (map fst es) = mset (map fst m)" by (metis mset_map)
  with assms(2) have d: "distinct (map fst es)"
    by (metis distinct_count_atmost_1 set_mset_mset)
  from assms(1) have "set es = set m" by (metis set_mset_mset)
  with assms(3) have "inj_on f (set (map fst es))" by simp
  with d have "distinct (map f (map fst es))" by (simp only: distinct_map)
  then show ?thesis by (simp add: comp_def)
qed

lemma sortSlice_perm:
  assumes "mset es' = mset es" "distinct (map (\<lambda>x. vh_Name (mk x)) es)"
  shows "sortSlice (map mk es') = sortSlice (map mk es)"
proof (rule sortSlice_unique)
  show "mset (sortSlice (map mk es')) = mset (map mk es)"
    using assms(1) by (simp add: sortSlice_props)
  show "sorted (map vh_Name (sortSlice (map mk es')))" by (rule sortSlice_props)
  show "distinct (map vh_Name (map mk es))" using assms(2) by (simp add: comp_def)
qed

lemma http_chain_order_independent:
  assumes "rangeOk e" "rangeOk (e\<lparr>mapRange := r\<rparr>)"
    and "inj_on (makeVhostName e pn) (bucketHosts e (concat (map hp_routesWithHosts (parents chain))))"
  shows "translateHttpFilterChain (e\<lparr>mapRange := r\<rparr>) chain pn = translateHttpFilterChain e chain pn"
proof -
  let ?m = "chainRoutesByHost e chain"
  let ?nm = "\<lambda>x. makeVhostName e pn (fst x)"
  let ?mk = "httpVhostOf e (parents chain) pn"
  have p1: "mset (mapRange e ?m) = mset ?m" using assms(1) by (simp add: rangeOk_def)
  have p2: "mset (r ?m) = mset ?m" using assms(2) by (simp add: rangeOk_def)
  have inj: "inj_on (makeVhostName e pn) (fst ` set ?m)"
    using assms(3) by (simp add: chainRoutesByHost_keys)
  have d1: "distinct (map ?nm (mapRange e ?m))"
    by (rule perm_names_distinct[OF p1 chainRoutesByHost_keys(2) inj])
  have d2: "distinct (map ?nm (r ?m))"
    by (rule perm_names_distinct[OF p2 chainRoutesByHost_keys(2) inj])
  have step: "httpVhostStep e (parents chain) pn (N, V) x
      = (if ?nm x \<in> N then (N, V) else (insert (?nm x) N, V @ [?mk x]))" for N V x
    by (simp add: httpVhostStep_def)
  have f1: "foldl (httpVhostStep e (parents chain) pn) ({}, []) (mapRange e ?m)
      = ({} \<union> ?nm ` set (mapRange e ?m), [] @ map ?mk (mapRange e ?m))"
    by (rule dedup_fold_no_collision[where nm = ?nm and mk = ?mk, OF step d1]) simp
  have f2: "foldl (httpVhostStep e (parents chain) pn) ({}, []) (r ?m)
      = ({} \<union> ?nm ` set (r ?m), [] @ map ?mk (r ?m))"
    by (rule dedup_fold_no_collision[where nm = ?nm and mk = ?mk, OF step d2]) simp
  have "mset (r ?m) = mset (mapRange e ?m)" using p1 p2 by simp
  moreover have "distinct (map (\<lambda>x. vh_Name (?mk x)) (mapRange e ?m))"
    using d1 by (simp add: httpVhostOf_name)
  ultimately have s: "sortSlice (map ?mk (r ?m)) = sortSlice (map ?mk (mapRange e ?m))"
    by (rule sortSlice_perm)
  show ?thesis
    by (simp add: translateHttpFilterChain_def chainRoutesByHost_mapRange vhostStep_mapRange f1 f2 s)
qed


lemma translateSslConfig_mapRange:
  "translateSslConfig (e\<lparr>mapRange := r\<rparr>) ns tls = translateSslConfig e ns tls"
  by (simp add: translateSslConfig_def split: option.splits list.splits sum.splits)

lemma https_chain_order_independent:
  assumes "rangeOk e" "rangeOk (e\<lparr>mapRange := r\<rparr>)"
    and "inj_on (makeVhostName e pn) (bucketHosts e (hs_routesWithHosts c))"
  shows "translateHttpsFilterChain (e\<lparr>mapRange := r\<rparr>) c pn ns rep
           = translateHttpsFilterChain e c pn ns rep"
proof -
  let ?m = "buildRoutesPerHost e [] (hs_routesWithHosts c)"
  let ?nm = "\<lambda>x. makeVhostName e pn (fst x)"
  let ?mk = "httpsVhostOf e pn"
  have keys: "fst ` set ?m = bucketHosts e (hs_routesWithHosts c)" "distinct (map fst ?m)"
    by (simp_all add: buildRoutesPerHost_keys buildRoutesPerHost_distinct)
  have p1: "mset (mapRange e ?m) = mset ?m" using assms(1) by (simp add: rangeOk_def)
  have p2: "mset (r ?m) = mset ?m" using assms(2) by (simp add: rangeOk_def)
  have inj: "inj_on (makeVhostName e pn) (fst ` set ?m)"
    using assms(3) by (simp add: keys)
  have d1: "distinct (map ?nm (mapRange e ?m))"
    by (rule perm_names_distinct[OF p1 keys(2) inj])
  have d2: "distinct (map ?nm (r ?m))"
    by (rule perm_names_distinct[OF p2 keys(2) inj])
  have step: "httpsVhostStep e pn (N, V) x
      = (if ?nm x \<in> N then (N, V) else (insert (?nm x) N, V @ [?mk x]))" for N V x
    by (simp add: httpsVhostStep_def)
  have f1: "foldl (httpsVhostStep e pn) ({}, []) (mapRange e ?m)
      = ({} \<union> ?nm ` set (mapRange e ?m), [] @ map ?mk (mapRange e ?m))"
    by (rule dedup_fold_no_collision[where nm = ?nm and mk = ?mk, OF step d1]) simp
  have f2: "foldl (httpsVhostStep e pn) ({}, []) (r ?m)
      = ({} \<union> ?nm ` set (r ?m), [] @ map ?mk (r ?m))"
    by (rule dedup_fold_no_collision[where nm = ?nm and mk = ?mk, OF step d2]) simp
  have "mset (r ?m) = mset (mapRange e ?m)" using p1 p2 by simp
  moreover have "distinct (map (\<lambda>x. vh_Name (?mk x)) (mapRange e ?m))"
    using d1 by (simp add: httpsVhostOf_name)
  ultimately have s: "sortSlice (map ?mk (r ?m)) = sortSlice (map ?mk (mapRange e ?m))"
    by (rule sortSlice_perm)
  show ?thesis
    by (simp add: translateHttpsFilterChain_def buildRoutesPerHost_mapRange vhostStep_mapRange
        translateSslConfig_mapRange f1 f2 s cong: sum.case_cong)
qed

text \<open>
  C3: the translation is not the same for every order in which the Go runtime ranges
  over \<^verbatim>\<open>routesByHost\<close>. A route bound under the hosts \<^verbatim>\<open>foo.bar.com\<close> and \<^verbatim>\<open>foo_bar.com\<close>
  gives two buckets whose virtual host names both sanitize to
  \<^verbatim>\<open>listener~80~foo_bar_com\<close>; the bucket visited first is kept and the other skipped, and
  the sort by name that follows cannot tell them apart. Visiting the map in insertion
  order keeps the host \<^verbatim>\<open>foo.bar.com\<close>, visiting it in the reverse order keeps
  \<^verbatim>\<open>foo_bar.com\<close>: two runs on the same input return different listener IRs.
\<close>

theorem vhosts_depend_on_map_order:
  "rangeOk (exEnv id) \<and> rangeOk (exEnv rev)
   \<and> map (\<lambda>c. map (\<lambda>vh. (vh_Name vh, vh_Hostname vh)) (hfc_Vhosts c))
       (lir_HttpFilterChain (hd (fst
          (TranslateListeners (exEnv id) exCollisionGateway exCollisionRoutes exSettings))))
     = [[(''listener~80~foo_bar_com'', ''foo.bar.com'')]]
   \<and> map (\<lambda>c. map (\<lambda>vh. (vh_Name vh, vh_Hostname vh)) (hfc_Vhosts c))
       (lir_HttpFilterChain (hd (fst
          (TranslateListeners (exEnv rev) exCollisionGateway exCollisionRoutes exSettings))))
     = [[(''listener~80~foo_bar_com'', ''foo_bar.com'')]]
   \<and> fst (TranslateListeners (exEnv id) exCollisionGateway exCollisionRoutes exSettings)
     \<noteq> fst (TranslateListeners (exEnv rev) exCollisionGateway exCollisionRoutes exSettings)"
proof -
  have a: "map (\<lambda>c. map (\<lambda>vh. (vh_Name vh, vh_Hostname vh)) (hfc_Vhosts c))
       (lir_HttpFilterChain (hd (fst
          (TranslateListeners (exEnv id) exCollisionGateway exCollisionRoutes exSettings))))
     = [[(''listener~80~foo_bar_com'', ''foo.bar.com'')]]"
    by (simp add: merge_eval http_eval ex_http_defs ex_https_defs name80)
  have b: "map (\<lambda>c. map (\<lambda>vh. (vh_Name vh, vh_Hostname vh)) (hfc_Vhosts c))
       (lir_HttpFilterChain (hd (fst
          (TranslateListeners (exEnv rev) exCollisionGateway exCollisionRoutes exSettings))))
     = [[(''listener~80~foo_bar_com'', ''foo_bar.com'')]]"
    by (simp add: merge_eval http_eval ex_http_defs ex_https_defs name80)
  have "fst (TranslateListeners (exEnv id) exCollisionGateway exCollisionRoutes exSettings)
     \<noteq> fst (TranslateListeners (exEnv rev) exCollisionGateway exCollisionRoutes exSettings)"
  proof
    assume "fst (TranslateListeners (exEnv id) exCollisionGateway exCollisionRoutes exSettings)
     = fst (TranslateListeners (exEnv rev) exCollisionGateway exCollisionRoutes exSettings)"
    with a b show False by simp
  qed
  with a b rangeOk_ex show ?thesis by (intro conjI)
qed


end
